theory Spec2Isabelle
  imports Main "HOL-Library.AList" "HOL-Library.Monad_Syntax"
begin

section \<open>Values of the scripting language\<close>

text \<open>
  The generator is TypeScript whose data is typed \<open>any\<close>: responses of the remote service
  and the parsed contents of record files. Such a value is a JSON value, or \<open>undefined\<close>
  (the result of reading a property that is not there), or a \<open>Date\<close> object.

  \<^item> A string is the list of its code units; \<open>char\<close> covers the units below 256.
  \<^item> A number is kept as its canonical rendering (what \<open>String(n)\<close> returns, which is
    also what \<open>JSON.stringify\<close> writes for a finite number). Numbers are only copied,
    tested for truth, compared and printed here, never calculated with.
  \<^item> \<open>JDate x\<close> is the object \<open>new Date(x)\<close>. It is written to a file as its ISO
    rendering (or \<open>null\<close> for an invalid date); that rendering is kept symbolic, so a
    stored \<open>JDate x\<close> stands for the text written for \<open>new Date(x)\<close>. Dates only occur
    under the keys \<open>createdAt\<close>, which no function below reads back.
  \<^item> An object is the list of its properties in insertion order, read by first match.
    The engine's rule that array-index keys are listed before all others is left out.
\<close>

datatype json =
    JUndefined
  | JNull
  | JBool bool
  | JNum string
  | JStr string
  | JArr "json list"
  | JObj "(string \<times> json) list"
  | JDate json

type_synonym fields = "(string \<times> json) list"

text \<open>Truthiness, as \<open>Boolean(v)\<close>, \<open>v || w\<close> and \<open>if (v)\<close> judge it.\<close>

fun truthy :: "json \<Rightarrow> bool" where
  "truthy JUndefined = False"
| "truthy JNull = False"
| "truthy (JBool b) = b"
| "truthy (JNum r) = (r \<noteq> ''0'' \<and> r \<noteq> ''NaN'')"
| "truthy (JStr s) = (s \<noteq> [])"
| "truthy (JArr xs) = True"
| "truthy (JObj kvs) = True"
| "truthy (JDate x) = True"

text \<open>\<open>a || b\<close>\<close>

definition orElse :: "json \<Rightarrow> json \<Rightarrow> json" where
  "orElse a b = (if truthy a then a else b)"

definition nullish :: "json \<Rightarrow> bool" where
  "nullish v = (v = JUndefined \<or> v = JNull)"

text \<open>
  \<open>v?.k\<close>: the property \<open>k\<close> of \<open>v\<close>, \<open>undefined\<close> when \<open>v\<close> is \<open>null\<close> or
  \<open>undefined\<close> or has no such property. None of the keys read below is a property of a
  prototype, so a value that is not an object has none of them.
\<close>

fun optGet :: "json \<Rightarrow> string \<Rightarrow> json" where
  "optGet (JObj kvs) k = (case map_of kvs k of Some v \<Rightarrow> v | None \<Rightarrow> JUndefined)"
| "optGet v k = JUndefined"

text \<open>\<open>v.k\<close>: throws a TypeError on \<open>null\<close> and \<open>undefined\<close>. \<open>None\<close> is the throw.\<close>

definition get :: "json \<Rightarrow> string \<Rightarrow> json option" where
  "get v k = (if nullish v then None else Some (optGet v k))"

text \<open>
  String conversion, as a template literal \<open>`${v}`\<close> performs it. An object prints as
  \<open>[object Object]\<close>, unless it has an own property \<open>toString\<close>: a parsed value is never
  a function, so the conversion finds nothing to call and throws. An array joins the
  conversions of its elements with commas, \<open>null\<close> and \<open>undefined\<close> printing as nothing.
\<close>

fun toStr :: "json \<Rightarrow> string option"
  and joinStr :: "json list \<Rightarrow> string option" where
  "toStr JUndefined = Some ''undefined''"
| "toStr JNull = Some ''null''"
| "toStr (JBool b) = Some (if b then ''true'' else ''false'')"
| "toStr (JNum r) = Some r"
| "toStr (JStr s) = Some s"
| "toStr (JArr xs) = joinStr xs"
| "toStr (JObj kvs) = (if ''toString'' \<in> fst ` set kvs then None else Some ''[object Object]'')"
| "toStr (JDate x) = None"
| "joinStr [] = Some []"
| "joinStr (x # xs) =
     (case (if x = JNull \<or> x = JUndefined then Some [] else toStr x) of
        None \<Rightarrow> None
      | Some s \<Rightarrow>
          (case xs of
             [] \<Rightarrow> Some s
           | _ \<Rightarrow> (case joinStr xs of None \<Rightarrow> None | Some r \<Rightarrow> Some (s @ '','' @ r))))"

text \<open>
  \<open>new Date(v)\<close> converts an object argument to a primitive first, which throws exactly
  when its string conversion does.
\<close>

definition newDate :: "json \<Rightarrow> json option" where
  "newDate v = (case toStr v of None \<Rightarrow> None | Some s \<Rightarrow> Some (JDate v))"

text \<open>
  The comparison a \<open>Set\<close> and \<open>Array.prototype.includes\<close> use. Objects and arrays are
  compared by identity; the ones met here are distinct elements of parsed arrays, so
  no two of them are the same.
\<close>

fun sameValueZero :: "json \<Rightarrow> json \<Rightarrow> bool" where
  "sameValueZero JUndefined JUndefined = True"
| "sameValueZero JNull JNull = True"
| "sameValueZero (JBool a) (JBool b) = (a = b)"
| "sameValueZero (JNum a) (JNum b) = (a = b)"
| "sameValueZero (JStr a) (JStr b) = (a = b)"
| "sameValueZero a b = False"

text \<open>\<open>[...new Set(xs)]\<close>: the elements in order of first insertion.\<close>

definition setAdd :: "json list \<Rightarrow> json \<Rightarrow> json list" where
  "setAdd seen x = (if list_ex (\<lambda>y. sameValueZero y x) seen then seen else seen @ [x])"

definition spreadSet :: "json list \<Rightarrow> json list" where
  "spreadSet xs = foldl setAdd [] xs"

text \<open>Decimal rendering of an array index.\<close>

fun decimal :: "nat \<Rightarrow> string" where
  "decimal n =
     (if n < 10 then [char_of (48 + n)] else decimal (n div 10) @ [char_of (48 + n mod 10)])"

declare decimal.simps [simp del]

text \<open>
  \<open>Object.entries(v)\<close> for a value that is neither \<open>null\<close> nor \<open>undefined\<close>: the own
  properties of an object, the indexed elements of an array, the indexed code units of
  a string, nothing for a number or a boolean.
\<close>

fun entries :: "json \<Rightarrow> fields" where
  "entries (JObj kvs) = AList.clearjunk kvs"
| "entries (JArr xs) = zip (map decimal [0..<length xs]) xs"
| "entries (JStr s) = zip (map decimal [0..<length s]) (map (\<lambda>c. JStr [c]) s)"
| "entries v = []"

text \<open>
  Assigning a property: an existing key keeps its place, a new key goes last.
  \<open>{...base, ...Object.fromEntries(es)}\<close> assigns the entries one after the other.
\<close>

fun setProp :: "fields \<Rightarrow> string \<times> json \<Rightarrow> fields" where
  "setProp [] (k, v) = [(k, v)]"
| "setProp ((k', v') # rest) (k, v) =
     (if k' = k then (k, v) # rest else (k', v') # setProp rest (k, v))"

definition spread :: "fields \<Rightarrow> fields \<Rightarrow> fields" where
  "spread base es = foldl setProp base es"

text \<open>
  What \<open>JSON.parse\<close> reads back from \<open>JSON.stringify(v, null, 2)\<close>: a property whose
  value is \<open>undefined\<close> is not written, an \<open>undefined\<close> array element and a number that
  is not finite are written as \<open>null\<close>.
\<close>

fun persist :: "json \<Rightarrow> json"
  and persistElems :: "json list \<Rightarrow> json list"
  and persistFields :: "fields \<Rightarrow> fields" where
  "persist (JObj kvs) = JObj (persistFields kvs)"
| "persist (JArr xs) = JArr (persistElems xs)"
| "persist (JNum r) = (if r \<in> {''NaN'', ''Infinity'', ''-Infinity''} then JNull else JNum r)"
| "persist JUndefined = JUndefined"
| "persist JNull = JNull"
| "persist (JBool b) = JBool b"
| "persist (JStr s) = JStr s"
| "persist (JDate x) = JDate x"
| "persistElems [] = []"
| "persistElems (x # xs) = (if x = JUndefined then JNull else persist x) # persistElems xs"
| "persistFields [] = []"
| "persistFields ((k, v) # kvs) =
     (if v = JUndefined then persistFields kvs else (k, persist v) # persistFields kvs)"


section \<open>The slug of a title\<close>

text \<open>
  \<open>generateFilenameFromTitle\<close> (document-utils.ts), also written out in sync.ts and
  upload.ts: \<open>title.toLowerCase().replace(/\s+/g, '-').replace(/[^a-z0-9-]/g, '')\<close>.
  The regular expressions work on code units, here natural numbers. \<open>toLowerCase\<close> is
  the platform's Unicode lowercasing, which can change the length of a string; it is a
  parameter \<open>lc\<close>.
\<close>

type_synonym units = "nat list"

text \<open>The class \<open>\s\<close>.\<close>

definition isSpace :: "nat \<Rightarrow> bool" where
  "isSpace c =
     (c \<in> {9, 10, 11, 12, 13, 32, 160, 5760, 8232, 8233, 8239, 8287, 12288, 65279}
      \<or> (8192 \<le> c \<and> c \<le> 8202))"

text \<open>The class \<open>[a-z0-9-]\<close>.\<close>

definition isSlugUnit :: "nat \<Rightarrow> bool" where
  "isSlugUnit c = ((97 \<le> c \<and> c \<le> 122) \<or> (48 \<le> c \<and> c \<le> 57) \<or> c = 45)"

text \<open>\<open>.replace(/\s+/g, '-')\<close>: the matches are the maximal runs, left to right.\<close>

function replaceSpaceRuns :: "units \<Rightarrow> units" where
  "replaceSpaceRuns [] = []"
| "replaceSpaceRuns (c # cs) =
     (if isSpace c then 45 # replaceSpaceRuns (dropWhile isSpace cs)
      else c # replaceSpaceRuns cs)"
  by pat_completeness auto
termination
  by (relation "measure length") (auto simp: less_Suc_eq_le length_dropWhile_le)

text \<open>\<open>.replace(/[^a-z0-9-]/g, '')\<close>\<close>

definition stripOthers :: "units \<Rightarrow> units" where
  "stripOthers cs = filter isSlugUnit cs"

definition generateFilenameFromTitle :: "(units \<Rightarrow> units) \<Rightarrow> units \<Rightarrow> units" where
  "generateFilenameFromTitle lc title = stripOthers (replaceSpaceRuns (lc title))"

text \<open>
  The same in the words of the specification: the lowercased title is cut into its
  maximal runs of whitespace and of other units, every whitespace run becomes one
  hyphen, and of what remains only \<open>[a-z0-9-]\<close> is kept.
\<close>

datatype run = Spaces units | Others units

function runs :: "units \<Rightarrow> run list" where
  "runs [] = []"
| "runs (c # cs) =
     (if isSpace c
      then Spaces (c # takeWhile isSpace cs) # runs (dropWhile isSpace cs)
      else Others (c # takeWhile (\<lambda>d. \<not> isSpace d) cs) # runs (dropWhile (\<lambda>d. \<not> isSpace d) cs))"
  by pat_completeness auto
termination
  by (relation "measure length") (auto simp: less_Suc_eq_le length_dropWhile_le)

fun unitsOf :: "run \<Rightarrow> units" where
  "unitsOf (Spaces cs) = cs"
| "unitsOf (Others cs) = cs"

fun hyphenForSpaces :: "run \<Rightarrow> units" where
  "hyphenForSpaces (Spaces cs) = [45]"
| "hyphenForSpaces (Others cs) = cs"

definition slugSpec :: "(units \<Rightarrow> units) \<Rightarrow> units \<Rightarrow> units" where
  "slugSpec lc title = filter isSlugUnit (concat (map hyphenForSpaces (runs (lc title))))"

text \<open>A run is well formed when it is not empty and all of one kind.\<close>

fun properRun :: "run \<Rightarrow> bool" where
  "properRun (Spaces cs) = (cs \<noteq> [] \<and> list_all isSpace cs)"
| "properRun (Others cs) = (cs \<noteq> [] \<and> list_all (\<lambda>d. \<not> isSpace d) cs)"

text \<open>Runs are maximal when no two neighbours are of the same kind.\<close>

fun alternating :: "run list \<Rightarrow> bool" where
  "alternating (Spaces a # Spaces b # rs) = False"
| "alternating (Others a # Others b # rs) = False"
| "alternating (r # rs) = alternating rs"
| "alternating [] = True"

text \<open>A lowercasing that is right for titles in ASCII, for use in examples.\<close>

definition asciiLower :: "units \<Rightarrow> units" where
  "asciiLower cs = map (\<lambda>c. if 65 \<le> c \<and> c \<le> 90 then c + 32 else c) cs"

definition unitsOfString :: "string \<Rightarrow> units" where
  "unitsOfString s = map of_char s"


section \<open>Synchronising one document (sync.ts)\<close>

text \<open>
  The remote service, as the methods of \<open>OnshapeClient\<close> see it. A call that throws
  returns \<open>None\<close>. \<open>getDocumentThumbnails\<close> builds its result itself, a list of object
  literals, so its elements are objects by construction.
\<close>

record gateway =
  getDocument :: "string \<Rightarrow> json option"
  getWorkspaces :: "string \<Rightarrow> json option"
  getDocumentVersions :: "string \<Rightarrow> json option"
  getDocumentThumbnails :: "string \<Rightarrow> fields list option"
  downloadThumbnail :: "json \<Rightarrow> string option"

text \<open>The three variables of the process environment that sync.ts reads.\<close>

record env =
  AUTHOR_NAME :: "string option"
  AUTHOR_EMAIL :: "string option"
  AUTHOR_WEBSITE :: "string option"

text \<open>\<open>process.env.X || d\<close>\<close>

definition envOr :: "string option \<Rightarrow> string \<Rightarrow> string" where
  "envOr x d = (case x of None \<Rightarrow> d | Some s \<Rightarrow> if s = [] then d else s)"

text \<open>
  The local files: the record files, by output directory and slug, each either text
  that parses (kept as the parsed value) or text that does not; and the downloaded
  preview images, by document id. Writing a file is taken to succeed.
\<close>

datatype fileContent = Parsed json | Unparsable

record world =
  records :: "string \<times> units \<Rightarrow> fileContent option"
  images :: "string \<Rightarrow> string option"

record SyncOptions =
  document :: json
  outputDir :: string

text \<open>A command either runs to its end or ends the process with \<open>process.exit(code)\<close>.\<close>

datatype outcome = Completed | Exited nat

text \<open>
  Lines 12 to 41, \<open>downloadThumbnail\<close> of sync.ts: every failure is caught and logged.
\<close>

definition downloadThumbnail_file :: "gateway \<Rightarrow> json \<Rightarrow> string \<Rightarrow> world \<Rightarrow> world" where
  "downloadThumbnail_file client url outputPath w =
     (case downloadThumbnail client url of
        None \<Rightarrow> w
      | Some response \<Rightarrow> w\<lparr>images := (images w)(outputPath \<mapsto> response)\<rparr>)"

text \<open>
  Lines 60 to 77. \<open>workspaces.find(w => (w.name === "Main" || w.isMain) && w.type ===
  "workspace")\<close>; the outer \<open>None\<close> is a throw (an element that is \<open>null\<close>), the inner one
  is no match.
\<close>

fun findMainWorkspace :: "json list \<Rightarrow> json option option" where
  "findMainWorkspace [] = Some None"
| "findMainWorkspace (w # ws) =
     (if nullish w then None
      else if (optGet w ''name'' = JStr ''Main'' \<or> truthy (optGet w ''isMain''))
              \<and> optGet w ''type'' = JStr ''workspace''
      then Some (Some w)
      else findMainWorkspace ws)"

definition fetchMainWorkspaceId :: "gateway \<Rightarrow> string \<Rightarrow> json" where
  "fetchMainWorkspaceId client documentId =
     (case getWorkspaces client documentId of
        Some (JArr workspaces) \<Rightarrow>
          (case findMainWorkspace workspaces of
             Some (Some mainWorkspace) \<Rightarrow> optGet mainWorkspace ''id''
           | _ \<Rightarrow> JUndefined)
      | _ \<Rightarrow> JUndefined)"

text \<open>
  Lines 79 to 97. The callback of \<open>map\<close> throws on an element that is \<open>null\<close>, on an id
  that cannot be printed when the name is missing, and on a creation time that
  \<open>new Date\<close> rejects; a throw anywhere leaves \<open>versions\<close> at its initial \<open>[]\<close>.
\<close>

definition normalizeVersion :: "json \<Rightarrow> json option" where
  "normalizeVersion v =
     (if nullish v then None
      else do {
        name \<leftarrow> (if truthy (optGet v ''name'') then Some (optGet v ''name'')
                 else map_option (\<lambda>s. JStr (''Version '' @ s)) (toStr (optGet v ''id'')));
        createdAt \<leftarrow> newDate (orElse (optGet v ''createdAt'') (optGet v ''created_at''));
        Some (JObj
          [(''id'', optGet v ''id''),
           (''name'', name),
           (''description'', orElse (optGet v ''description'') (JStr [])),
           (''createdAt'', createdAt),
           (''microversion'', orElse (optGet v ''microversion'') (JStr []))])
      })"

definition notStart :: "json \<Rightarrow> bool" where
  "notStart v = (optGet v ''name'' \<noteq> JStr ''Start'')"

definition processVersions :: "json \<Rightarrow> json list" where
  "processVersions versionsResponse =
     (case versionsResponse of
        JArr vs \<Rightarrow>
          (case those (map normalizeVersion vs) of
             Some mapped \<Rightarrow> filter notStart mapped
           | None \<Rightarrow> [])
      | _ \<Rightarrow> [])"

definition fetchVersions :: "gateway \<Rightarrow> string \<Rightarrow> json list" where
  "fetchVersions client documentId =
     (case getDocumentVersions client documentId of
        Some versionsResponse \<Rightarrow> processVersions versionsResponse
      | None \<Rightarrow> [])"

text \<open>
  Lines 99 to 119. A throw of the fetch leaves \<open>thumbnails\<close> at its initial \<open>[]\<close>.
  When the 600x340 preview is listed, line 110 lowercases the name of the document
  first, which throws unless the name is a string; that throw is caught with
  \<open>thumbnails\<close> already assigned and nothing downloaded.
\<close>

definition fetchThumbnails :: "gateway \<Rightarrow> string \<Rightarrow> fields list" where
  "fetchThumbnails client documentId =
     (case getDocumentThumbnails client documentId of
        None \<Rightarrow> []
      | Some thumbnails \<Rightarrow> thumbnails)"

definition isLargeThumbnail :: "fields \<Rightarrow> bool" where
  "isLargeThumbnail t = (optGet (JObj t) ''size'' = JStr ''600x340'')"

definition materializeThumbnail ::
  "gateway \<Rightarrow> string \<Rightarrow> json \<Rightarrow> fields list \<Rightarrow> world \<Rightarrow> world" where
  "materializeThumbnail client documentId doc thumbnails w =
     (case find isLargeThumbnail thumbnails of
        None \<Rightarrow> w
      | Some largeThumbnail \<Rightarrow>
          (case optGet doc ''name'' of
             JStr name \<Rightarrow>
               downloadThumbnail_file client (optGet (JObj largeThumbnail) ''url'') documentId w
           | _ \<Rightarrow> w))"

text \<open>
  Line 139: \<open>document.documentLabels?.map(label => label.name).filter(Boolean) || []\<close>.
  Without labels the whole chain is \<open>undefined\<close>; a value that is not an array has no
  \<open>map\<close> to call; the callback throws on \<open>null\<close>.
\<close>

definition apiLabelNames :: "json \<Rightarrow> json list option" where
  "apiLabelNames doc =
     (case optGet doc ''documentLabels'' of
        JUndefined \<Rightarrow> Some []
      | JNull \<Rightarrow> Some []
      | JArr ls \<Rightarrow> map_option (filter truthy) (those (map (\<lambda>label. get label ''name'') ls))
      | _ \<Rightarrow> None)"

text \<open>
  Lines 142 to 144:
  \<open>(existingData.userData?.labels || []).map(label => typeof label === 'string' ? label :
  label.name || label).filter(Boolean)\<close>.
\<close>

definition labelToString :: "json \<Rightarrow> json option" where
  "labelToString label =
     (case label of
        JStr s \<Rightarrow> Some label
      | _ \<Rightarrow> map_option (\<lambda>name. orElse name label) (get label ''name''))"

definition userLabelsOf :: "json \<Rightarrow> json list option" where
  "userLabelsOf existingData =
     do {
       userData \<leftarrow> get existingData ''userData'';
       (case orElse (optGet userData ''labels'') (JArr []) of
          JArr ls \<Rightarrow> map_option (filter truthy) (those (map labelToString ls))
        | _ \<Rightarrow> None)
     }"

text \<open>The two lists of keys at lines 178 and 184.\<close>

definition userDataKnownKeys :: "string list" where
  "userDataKnownKeys =
     [''workspaceId'', ''elementId'', ''pdfElementId'', ''author'', ''labels'',
      ''description'', ''changelog'']"

definition rootKnownKeys :: "string list" where
  "rootKnownKeys =
     [''documentId'', ''title'', ''description'', ''createdAt'', ''versions'', ''thumbnails'',
      ''labels'', ''workspaceId'', ''elementId'', ''changelog'', ''author'', ''userData'']"

definition customEntries :: "string list \<Rightarrow> json \<Rightarrow> fields" where
  "customEntries known v = filter (\<lambda>(key, value). key \<notin> set known) (entries v)"

definition defaultAuthor :: "env \<Rightarrow> json" where
  "defaultAuthor e =
     JObj [(''name'', JStr (envOr (AUTHOR_NAME e) ''Unknown'')),
           (''email'', JStr (envOr (AUTHOR_EMAIL e) [])),
           (''website'', JStr (envOr (AUTHOR_WEBSITE e) []))]"

text \<open>
  Lines 163 to 187, the object \<open>userData\<close>, for \<open>existingData\<close> that is neither \<open>null\<close>
  nor \<open>undefined\<close> (line 142 has thrown otherwise).
\<close>

definition buildUserData :: "env \<Rightarrow> json \<Rightarrow> json list \<Rightarrow> fields" where
  "buildUserData e existingData userLabels =
     (let userData = optGet existingData ''userData'' in
      spread
        (spread
          [(''workspaceId'',
              orElse (orElse (optGet userData ''workspaceId'') (optGet existingData ''workspaceId''))
                JUndefined),
           (''elementId'',
              orElse (orElse (optGet userData ''elementId'') (optGet existingData ''elementId''))
                JUndefined),
           (''pdfElementId'', orElse (optGet userData ''pdfElementId'') JUndefined),
           (''author'',
              orElse (orElse (optGet userData ''author'') (optGet existingData ''author''))
                (defaultAuthor e)),
           (''labels'', JArr userLabels)]
          (customEntries userDataKnownKeys (orElse userData (JObj []))))
        (customEntries rootKnownKeys existingData))"

text \<open>
  Lines 138 to 195: the record that is written, as the next run will read it. The
  document \<open>doc\<close> is neither \<open>null\<close> nor \<open>undefined\<close> (line 58 has thrown otherwise).
\<close>

definition documentData ::
  "env \<Rightarrow> json \<Rightarrow> string \<Rightarrow> json \<Rightarrow> json \<Rightarrow> json list \<Rightarrow> fields list \<Rightarrow> json \<Rightarrow> json option" where
  "documentData e documentOpt documentId doc mainWorkspaceId versions thumbnails existingData =
     do {
       apiNames \<leftarrow> apiLabelNames doc;
       userLabels \<leftarrow> userLabelsOf existingData;
       createdAt \<leftarrow> newDate (optGet doc ''createdAt'');
       Some (persist (JObj
         [(''documentId'', documentOpt),
          (''title'', optGet doc ''name''),
          (''description'', orElse (optGet doc ''description'') (JStr [])),
          (''onshapeUrl'', JStr (''https://cad.onshape.com/documents/'' @ documentId)),
          (''mainWorkspaceId'', mainWorkspaceId),
          (''createdAt'', createdAt),
          (''versions'', JArr versions),
          (''thumbnails'', JArr (map JObj thumbnails)),
          (''labels'', JArr (spreadSet (apiNames @ userLabels))),
          (''userData'', JObj (buildUserData e existingData userLabels))]))
     }"

text \<open>Lines 122 to 136: the slug of the name, and the record found under it.\<close>

definition filenameOf :: "(units \<Rightarrow> units) \<Rightarrow> json \<Rightarrow> units option" where
  "filenameOf lc doc =
     (case optGet doc ''name'' of
        JStr name \<Rightarrow> Some (generateFilenameFromTitle lc (unitsOfString name))
      | _ \<Rightarrow> None)"

definition loadExisting :: "world \<Rightarrow> string \<times> units \<Rightarrow> json" where
  "loadExisting w outputPath =
     (case records w outputPath of
        Some (Parsed existingData) \<Rightarrow> existingData
      | _ \<Rightarrow> JObj [])"

text \<open>
  \<open>syncDocuments\<close>. Its whole body is inside one \<open>try\<close> whose handler logs the error
  and calls \<open>process.exit(1)\<close>; the fetches of workspaces, versions and thumbnails
  have handlers of their own. Console output is left out, except where printing a
  value can throw (line 45 prints the document id, line 58 the name).
\<close>

definition syncDocuments ::
  "gateway \<Rightarrow> env \<Rightarrow> (units \<Rightarrow> units) \<Rightarrow> SyncOptions \<Rightarrow> world \<Rightarrow> outcome \<times> world" where
  "syncDocuments client e lc options w =
     (case toStr (document options) of
        None \<Rightarrow> (Exited 1, w)
      | Some documentId \<Rightarrow>
     (case getDocument client documentId of
        None \<Rightarrow> (Exited 1, w)
      | Some doc \<Rightarrow>
     (case Option.bind (get doc ''name'') toStr of
        None \<Rightarrow> (Exited 1, w)
      | Some printed \<Rightarrow>
     (let mainWorkspaceId = fetchMainWorkspaceId client documentId;
          versions = fetchVersions client documentId;
          thumbnails = fetchThumbnails client documentId;
          w1 = materializeThumbnail client documentId doc thumbnails w
      in
     (case filenameOf lc doc of
        None \<Rightarrow> (Exited 1, w1)
      | Some filename \<Rightarrow>
     (case documentData e (document options) documentId doc mainWorkspaceId versions thumbnails
             (loadExisting w1 (outputDir options, filename)) of
        None \<Rightarrow> (Exited 1, w1)
      | Some written \<Rightarrow>
          (Completed,
           w1\<lparr>records := (records w1)((outputDir options, filename) \<mapsto> Parsed written)\<rparr>)))))))"

text \<open>
  The path of the record file of a run (lines 122 and 123), and the record a run finds
  there.
\<close>

definition outputPathOf :: "gateway \<Rightarrow> (units \<Rightarrow> units) \<Rightarrow> SyncOptions \<Rightarrow> (string \<times> units) option" where
  "outputPathOf client lc options =
     do {
       documentId \<leftarrow> toStr (document options);
       doc \<leftarrow> getDocument client documentId;
       filename \<leftarrow> filenameOf lc doc;
       Some (outputDir options, filename)
     }"

text \<open>
  The record a run leaves in its file when it runs to its end, and the record it has
  found there at its start (\<open>{}\<close> when there is none or it does not parse).
\<close>

definition synced ::
  "gateway \<Rightarrow> env \<Rightarrow> (units \<Rightarrow> units) \<Rightarrow> SyncOptions \<Rightarrow> world \<Rightarrow> json option" where
  "synced client e lc options w =
     (case syncDocuments client e lc options w of
        (Completed, w') \<Rightarrow>
          (case outputPathOf client lc options of
             Some outputPath \<Rightarrow>
               (case records w' outputPath of
                  Some (Parsed written) \<Rightarrow> Some written
                | _ \<Rightarrow> None)
           | None \<Rightarrow> None)
      | (Exited code, w') \<Rightarrow> None)"

definition existingRecord ::
  "gateway \<Rightarrow> (units \<Rightarrow> units) \<Rightarrow> SyncOptions \<Rightarrow> world \<Rightarrow> json" where
  "existingRecord client lc options w =
     (case outputPathOf client lc options of
        Some outputPath \<Rightarrow> loadExisting w outputPath
      | None \<Rightarrow> JObj [])"

text \<open>A value that is read back from a file as it was written: plain JSON.\<close>

definition storable :: "json \<Rightarrow> bool" where
  "storable v = (persist v = v)"

text \<open>
  The shape of a stored version: the five keys in the order of the object literal at
  lines 85 to 91; \<open>id\<close> is not written when the fetched entry has none.
\<close>

definition versionShape :: "json \<Rightarrow> bool" where
  "versionShape v =
     (case v of
        JObj kvs \<Rightarrow>
          map fst kvs = [''id'', ''name'', ''description'', ''createdAt'', ''microversion'']
          \<or> map fst kvs = [''name'', ''description'', ''createdAt'', ''microversion'']
      | _ \<Rightarrow> False)"

text \<open>A fetched entry whose name is not the sentinel.\<close>

definition rawNotStart :: "json \<Rightarrow> bool" where
  "rawNotStart v = (optGet v ''name'' \<noteq> JStr ''Start'')"

section \<open>A small remote state, for examples\<close>

text \<open>
  One document \<open>d1\<close>, titled \<open>My Part\<close>, with one remote label, a main workspace,
  the versions \<open>Start\<close> and \<open>V1\<close> and a 600x340 preview; no record files yet.
\<close>

definition demoDocument :: json where
  "demoDocument =
     JObj [(''id'', JStr ''d1''), (''name'', JStr ''My Part''), (''description'', JStr ''A part''),
           (''createdAt'', JStr ''2024-01-01T00:00:00.000Z''),
           (''documentLabels'', JArr [JObj [(''name'', JStr ''meshtastic'')]])]"

definition demoClient :: gateway where
  "demoClient =
     \<lparr> getDocument = (\<lambda>i. if i = ''d1'' then Some demoDocument else None),
       getWorkspaces = (\<lambda>i. Some (JArr
         [JObj [(''id'', JStr ''w1''), (''name'', JStr ''Main''), (''type'', JStr ''workspace'')]])),
       getDocumentVersions = (\<lambda>i. Some (JArr
         [JObj [(''id'', JStr ''v0''), (''name'', JStr ''Start''),
                (''createdAt'', JStr ''2024-01-01T00:00:00.000Z'')],
          JObj [(''id'', JStr ''v1''), (''name'', JStr ''V1''),
                (''createdAt'', JStr ''2024-02-01T00:00:00.000Z'')]])),
       getDocumentThumbnails = (\<lambda>i. Some [[(''size'', JStr ''600x340''), (''url'', JStr ''u'')]]),
       downloadThumbnail = (\<lambda>u. Some ''png'') \<rparr>"

definition demoEnv :: env where
  "demoEnv = \<lparr>AUTHOR_NAME = None, AUTHOR_EMAIL = None, AUTHOR_WEBSITE = None\<rparr>"

definition emptyWorld :: world where
  "emptyWorld = \<lparr>records = (\<lambda>p. None), images = (\<lambda>p. None)\<rparr>"

definition demoOptions :: SyncOptions where
  "demoOptions = \<lparr>document = JStr ''d1'', outputDir = ''out''\<rparr>"

text \<open>The record the first run writes, and the files after it.\<close>

definition demoFirst :: json where
  "demoFirst =
     JObj
       [(''documentId'', JStr ''d1''), (''title'', JStr ''My Part''),
        (''description'', JStr ''A part''),
        (''onshapeUrl'', JStr ''https://cad.onshape.com/documents/d1''),
        (''mainWorkspaceId'', JStr ''w1''),
        (''createdAt'', JDate (JStr ''2024-01-01T00:00:00.000Z'')),
        (''versions'',
         JArr
          [JObj
            [(''id'', JStr ''v1''), (''name'', JStr ''V1''),
             (''description'', JStr []), (''createdAt'', JDate (JStr ''2024-02-01T00:00:00.000Z'')),
             (''microversion'', JStr [])]]),
        (''thumbnails'',
         JArr [JObj [(''size'', JStr ''600x340''), (''url'', JStr ''u'')]]),
        (''labels'', JArr [JStr ''meshtastic'']),
        (''userData'',
         JObj
          [(''author'',
            JObj
             [(''name'', JStr ''Unknown''), (''email'', JStr []),
              (''website'', JStr [])]),
           (''labels'', JArr [])])]"

definition demoWorld1 :: world where
  "demoWorld1 =
     \<lparr>records = (\<lambda>p. None)((''out'', unitsOfString ''my-part'') \<mapsto> Parsed demoFirst),
      images = (\<lambda>p. None)(''d1'' \<mapsto> ''png'')\<rparr>"

text \<open>The own keys of a value, and whether a key is among them.\<close>

definition ownKeys :: "json \<Rightarrow> string list" where
  "ownKeys v = map fst (entries v)"

definition hasProp :: "json \<Rightarrow> string \<Rightarrow> bool" where
  "hasProp v k = (k \<in> set (ownKeys v))"

text \<open>
  Prior records for the examples: one with user data, one with a \<open>pdfElementId\<close> at
  the top level, one with the same custom key at the top level and in \<open>userData\<close>;
  and the files that hold just such a record for the document of the example.
\<close>

definition demoPrior :: json where
  "demoPrior =
     JObj [(''documentId'', JStr ''d1''), (''title'', JStr ''Old title''),
           (''labels'', JArr [JStr ''old'']),
           (''userData'', JObj
              [(''pdfElementId'', JStr ''E1''),
               (''labels'', JArr [JStr ''favorite'', JStr ''meshtastic'']),
               (''customNote'', JStr ''x''),
               (''description'', JStr ''keep me'')])]"

definition demoRootPrior :: json where
  "demoRootPrior =
     JObj [(''documentId'', JStr ''d1''), (''pdfElementId'', JStr ''E-root''),
           (''userData'', JObj [(''labels'', JArr [])])]"

definition demoShadowPrior :: json where
  "demoShadowPrior =
     JObj [(''notes'', JStr ''root''), (''userData'', JObj [(''notes'', JStr ''user'')])]"

definition worldWith :: "json \<Rightarrow> world" where
  "worldWith prior =
     \<lparr>records = (\<lambda>p. None)((''out'', unitsOfString ''my-part'') \<mapsto> Parsed prior),
      images = (\<lambda>p. None)\<rparr>"

text \<open>The records written for them: the part from the remote state is the same.\<close>

definition demoWritten :: "json list \<Rightarrow> fields \<Rightarrow> json" where
  "demoWritten labels userData =
     JObj
       [(''documentId'', JStr ''d1''), (''title'', JStr ''My Part''),
        (''description'', JStr ''A part''),
        (''onshapeUrl'', JStr ''https://cad.onshape.com/documents/d1''),
        (''mainWorkspaceId'', JStr ''w1''),
        (''createdAt'', JDate (JStr ''2024-01-01T00:00:00.000Z'')),
        (''versions'',
         JArr
          [JObj
            [(''id'', JStr ''v1''), (''name'', JStr ''V1''),
             (''description'', JStr []), (''createdAt'', JDate (JStr ''2024-02-01T00:00:00.000Z'')),
             (''microversion'', JStr [])]]),
        (''thumbnails'',
         JArr [JObj [(''size'', JStr ''600x340''), (''url'', JStr ''u'')]]),
        (''labels'', JArr labels),
        (''userData'', JObj userData)]"

definition demoAuthor :: json where
  "demoAuthor = JObj [(''name'', JStr ''Unknown''), (''email'', JStr []), (''website'', JStr [])]"

definition demoReconciled :: json where
  "demoReconciled =
     demoWritten [JStr ''meshtastic'', JStr ''favorite'']
       [(''pdfElementId'', JStr ''E1''), (''author'', demoAuthor),
        (''labels'', JArr [JStr ''favorite'', JStr ''meshtastic'']),
        (''customNote'', JStr ''x'')]"

definition demoRootReconciled :: json where
  "demoRootReconciled =
     demoWritten [JStr ''meshtastic'']
       [(''pdfElementId'', JStr ''E-root''), (''author'', demoAuthor), (''labels'', JArr [])]"

definition demoShadowReconciled :: json where
  "demoShadowReconciled =
     demoWritten [JStr ''meshtastic'']
       [(''author'', demoAuthor), (''labels'', JArr []), (''notes'', JStr ''root'')]"



definition isStr :: "json \<Rightarrow> bool" where
  "isStr v = (case v of JStr s \<Rightarrow> True | _ \<Rightarrow> False)"

text \<open>
  Core metadata that the rest of a run can work with: the name is a string, the labels
  are missing or an array without \<open>null\<close>, and the creation time is a value that
  \<open>new Date\<close> accepts. And a prior record that can be merged: it is not \<open>null\<close>, and
  its user labels are missing (or otherwise falsy) or an array without \<open>null\<close>.
\<close>

definition printable :: "json \<Rightarrow> bool" where
  "printable v = (toStr v \<noteq> None)"

definition readableLabels :: "json \<Rightarrow> bool" where
  "readableLabels v =
     (case v of
        JUndefined \<Rightarrow> True
      | JNull \<Rightarrow> True
      | JArr ls \<Rightarrow> list_all (\<lambda>l. \<not> nullish l) ls
      | _ \<Rightarrow> False)"

definition metadataOk :: "json \<Rightarrow> bool" where
  "metadataOk doc =
     (isStr (optGet doc ''name'')
      \<and> readableLabels (optGet doc ''documentLabels'')
      \<and> printable (optGet doc ''createdAt''))"

definition priorOk :: "json \<Rightarrow> bool" where
  "priorOk existingData =
     (\<not> nullish existingData
      \<and> (case optGet (optGet existingData ''userData'') ''labels'' of
            JArr ls \<Rightarrow> list_all (\<lambda>l. \<not> nullish l) ls
          | other \<Rightarrow> \<not> truthy other))"

text \<open>The remote state of the examples when the fetch of versions throws.\<close>

definition versionsDown :: gateway where
  "versionsDown = demoClient\<lparr>getDocumentVersions := \<lambda>i. None\<rparr>"

text \<open>The record the second run of the example writes, from the files of the first.\<close>

definition demoSecond :: json where
  "demoSecond =
     demoWritten [JStr ''meshtastic'']
       [(''author'', demoAuthor), (''labels'', JArr []),
        (''onshapeUrl'', JStr ''https://cad.onshape.com/documents/d1''),
        (''mainWorkspaceId'', JStr ''w1'')]"

section \<open>Listing documents (onshape-client)\<close>

datatype DocumentFilter =
  MY_DOCUMENTS | CREATED | SHARED | TRASH | PUBLIC | RECENT | BY_OWNER | BY_COMPANY | BY_TEAM

datatype OwnerType = USER | COMPANY | ONSHAPE

datatype SortColumn = NAME | MODIFIED_AT | CREATED_AT | EMAIL | MODIFIED_BY | PROMOTED_AT

datatype SortOrder = Desc | Asc

text \<open>
  \<open>DocumentsOptions\<close>: every field is optional. The field names carry the suffix
  \<open>Opt\<close>, since \<open>filter\<close> and the like are taken.
\<close>

record DocumentsOptions =
  filterOpt :: "DocumentFilter option"
  qOpt :: "string option"
  labelOpt :: "string option"
  ownerOpt :: "string option"
  ownerTypeOpt :: "OwnerType option"
  projectOpt :: "string option"
  parentIdOpt :: "string option"
  offsetOpt :: "int option"
  limitOpt :: "int option"
  sortColumnOpt :: "SortColumn option"
  sortOrderOpt :: "SortOrder option"

text \<open>The query parameters of \<open>GET /documents\<close>, as lines 219 to 227 build them.\<close>

record DocumentsParams =
  filterParam :: DocumentFilter
  offsetParam :: int
  limitParam :: int
  qParam :: "string option"
  labelParam :: "string option"
  ownerParam :: "string option"
  ownerTypeParam :: "OwnerType option"
  projectParam :: "string option"
  parentIdParam :: "string option"
  sortColumnParam :: "SortColumn option"
  sortOrderParam :: "SortOrder option"

text \<open>
  A page of the listing: its items, when the response has any, and its continuation
  pointer, when it has one. The pointer is a URL of which the client reads the query
  parameters \<open>offset\<close> and \<open>limit\<close> (lines 248 to 254); it is kept as these two.
\<close>

record nextLink =
  offsetQuery :: "int option"
  limitQuery :: "int option"

record page =
  items :: "json list option"
  nextPage :: "nextLink option"

text \<open>The endpoint: a request that throws returns \<open>None\<close>.\<close>

type_synonym documentsApi = "DocumentsParams \<Rightarrow> page option"

text \<open>\<open>if (x) params.x = x\<close>: an empty string is not sent.\<close>

definition whenSet :: "string option \<Rightarrow> string option" where
  "whenSet x = (case x of None \<Rightarrow> None | Some s \<Rightarrow> if s = [] then None else Some s)"

definition withDefault :: "'a \<Rightarrow> 'a option \<Rightarrow> 'a" where
  "withDefault d x = (case x of None \<Rightarrow> d | Some v \<Rightarrow> v)"

text \<open>Lines 204 to 231.\<close>

definition getDocuments :: "documentsApi \<Rightarrow> DocumentsOptions \<Rightarrow> page option" where
  "getDocuments api options =
     api \<lparr> filterParam = withDefault CREATED (filterOpt options),
           offsetParam = withDefault 0 (offsetOpt options),
           limitParam = withDefault 20 (limitOpt options),
           qParam = whenSet (qOpt options),
           labelParam = whenSet (labelOpt options),
           ownerParam = whenSet (ownerOpt options),
           ownerTypeParam = ownerTypeOpt options,
           projectParam = whenSet (projectOpt options),
           parentIdParam = whenSet (parentIdOpt options),
           sortColumnParam = sortColumnOpt options,
           sortOrderParam = sortOrderOpt options \<rparr>"

text \<open>
  The result of a call that has come to an end: a value or a throw. A loop that has
  not come to an end within the number of requests it is allowed has no result.
\<close>

datatype 'a completion = Returned 'a | Threw

text \<open>Lines 252 to 254: the options of the next request.\<close>

definition nextOptions :: "DocumentsOptions \<Rightarrow> nextLink \<Rightarrow> DocumentsOptions" where
  "nextOptions options link =
     options \<lparr> offsetOpt := (case offsetQuery link of Some n \<Rightarrow> Some n | None \<Rightarrow> offsetOpt options),
               limitOpt := (case limitQuery link of Some n \<Rightarrow> Some n | None \<Rightarrow> limitOpt options) \<rparr>"

text \<open>
  Lines 239 to 257, the loop of \<open>getAllDocuments\<close>, with the response in hand and the
  documents collected so far. The first argument bounds the number of further
  requests; nothing in the code does, and a server that always answers with a
  non-empty page and a pointer keeps the loop running.
\<close>

fun collectPages ::
  "nat \<Rightarrow> documentsApi \<Rightarrow> DocumentsOptions \<Rightarrow> page \<Rightarrow> json list \<Rightarrow> json list completion option" where
  "collectPages n api options response allDocuments =
     (case items response of
        None \<Rightarrow> Some (Returned allDocuments)
      | Some [] \<Rightarrow> Some (Returned allDocuments)
      | Some (d # ds) \<Rightarrow>
          (case nextPage response of
             None \<Rightarrow> Some (Returned (allDocuments @ d # ds))
           | Some link \<Rightarrow>
               (case n of
                  0 \<Rightarrow> None
                | Suc m \<Rightarrow>
                    (case getDocuments api (nextOptions options link) of
                       None \<Rightarrow> Some Threw
                     | Some response' \<Rightarrow>
                         collectPages m api options response' (allDocuments @ d # ds)))))"

declare collectPages.simps [simp del]

text \<open>Lines 233 to 260.\<close>

definition getAllDocuments ::
  "nat \<Rightarrow> documentsApi \<Rightarrow> DocumentsOptions \<Rightarrow> json list completion option" where
  "getAllDocuments n api options =
     (case getDocuments api (options\<lparr>limitOpt := Some 20\<rparr>) of
        None \<Rightarrow> Some Threw
      | Some response \<Rightarrow> collectPages n api options response [])"

text \<open>
  Lines 274 to 284, the predicate of the filter: the labels of the document are a
  non-empty array with an element that is an object (not \<open>null\<close>) whose \<open>name\<close> is the
  label. Reading \<open>documentLabels\<close> of a listed item that is \<open>null\<close> throws.
\<close>

definition isLabelNamed :: "string \<Rightarrow> json \<Rightarrow> bool" where
  "isLabelNamed label docLabel =
     (case docLabel of JObj kvs \<Rightarrow> optGet docLabel ''name'' = JStr label | _ \<Rightarrow> False)"

definition hasLabel :: "string \<Rightarrow> json \<Rightarrow> bool option" where
  "hasLabel label doc =
     (case get doc ''documentLabels'' of
        None \<Rightarrow> None
      | Some (JArr ls) \<Rightarrow> Some (list_ex (isLabelNamed label) ls)
      | Some other \<Rightarrow> Some False)"

text \<open>\<open>xs.filter(p)\<close> for a predicate that may throw.\<close>

fun filterThrowing :: "('a \<Rightarrow> bool option) \<Rightarrow> 'a list \<Rightarrow> 'a list option" where
  "filterThrowing p [] = Some []"
| "filterThrowing p (x # xs) =
     (case p x of
        None \<Rightarrow> None
      | Some b \<Rightarrow>
          (case filterThrowing p xs of
             None \<Rightarrow> None
           | Some ys \<Rightarrow> Some (if b then x # ys else ys)))"

text \<open>The options \<open>getDocumentsByLabel\<close> passes on: the category, and nothing else.\<close>

definition categoryOnly :: "DocumentFilter \<Rightarrow> DocumentsOptions" where
  "categoryOnly filter' =
     \<lparr> filterOpt = Some filter', qOpt = None, labelOpt = None, ownerOpt = None,
       ownerTypeOpt = None, projectOpt = None, parentIdOpt = None, offsetOpt = None,
       limitOpt = None, sortColumnOpt = None, sortOrderOpt = None \<rparr>"

text \<open>Lines 262 to 288.\<close>

definition getDocumentsByLabel ::
  "nat \<Rightarrow> documentsApi \<Rightarrow> string \<Rightarrow> DocumentFilter \<Rightarrow> json list completion option" where
  "getDocumentsByLabel n api label filter' =
     (case getAllDocuments n api (categoryOnly filter') of
        None \<Rightarrow> None
      | Some Threw \<Rightarrow> Some Threw
      | Some (Returned allDocuments) \<Rightarrow>
          (case filterThrowing (hasLabel label) allDocuments of
             None \<Rightarrow> Some Threw
           | Some matchingDocs \<Rightarrow> Some (Returned matchingDocs)))"

definition itemsOf :: "page \<Rightarrow> json list" where
  "itemsOf response = (case items response of None \<Rightarrow> [] | Some ds \<Rightarrow> ds)"

text \<open>
  The pages the loop reads, from a first page on: it goes on to the page its pointer
  names while the page in hand has items and a pointer.
\<close>

inductive pagesRead :: "documentsApi \<Rightarrow> DocumentsOptions \<Rightarrow> page \<Rightarrow> page list \<Rightarrow> bool" where
  lastPage:
    "itemsOf response = [] \<or> nextPage response = None \<Longrightarrow>
     pagesRead api options response [response]"
| morePages:
    "itemsOf response \<noteq> [] \<Longrightarrow> nextPage response = Some link \<Longrightarrow>
     getDocuments api (nextOptions options link) = Some response' \<Longrightarrow>
     pagesRead api options response' rest \<Longrightarrow>
     pagesRead api options response (response # rest)"

text \<open>A document that carries a label: the predicate of the filter holds of it.\<close>

definition carriesLabel :: "string \<Rightarrow> json \<Rightarrow> bool" where
  "carriesLabel label doc = (hasLabel label doc = Some True)"

text \<open>
  The listing in the words of the claim: pointers are followed until a page has none.
\<close>

inductive pagesToTheEnd :: "documentsApi \<Rightarrow> DocumentsOptions \<Rightarrow> page \<Rightarrow> page list \<Rightarrow> bool" where
  endPage:
    "nextPage response = None \<Longrightarrow> pagesToTheEnd api options response [response]"
| pointedPage:
    "nextPage response = Some link \<Longrightarrow>
     getDocuments api (nextOptions options link) = Some response' \<Longrightarrow>
     pagesToTheEnd api options response' rest \<Longrightarrow>
     pagesToTheEnd api options response (response # rest)"

text \<open>
  Listings for the examples. A request with a label is answered with nothing, the
  unreliable filter of the server. The first listing has two pages; the second has an
  empty page, with a pointer, before its last page.
\<close>

definition docA :: json where
  "docA = JObj [(''id'', JStr ''a''), (''name'', JStr ''A''),
                (''documentLabels'', JArr [JObj [(''name'', JStr ''indexed'')]])]"

definition docB :: json where
  "docB = JObj [(''id'', JStr ''b''), (''name'', JStr ''B''), (''documentLabels'', JArr [])]"

definition docC :: json where
  "docC = JObj [(''id'', JStr ''c''), (''name'', JStr ''C''),
                (''documentLabels'', JArr [JObj [(''name'', JStr ''other'')],
                                           JObj [(''name'', JStr ''indexed'')]])]"

definition linkTo :: "int \<Rightarrow> nextLink option" where
  "linkTo n = Some \<lparr>offsetQuery = Some n, limitQuery = Some 20\<rparr>"

definition pageOf :: "json list \<Rightarrow> nextLink option \<Rightarrow> page" where
  "pageOf ds link = \<lparr>items = Some ds, nextPage = link\<rparr>"

definition twoPages :: documentsApi where
  "twoPages params =
     (if labelParam params \<noteq> None then Some (pageOf [] None)
      else if offsetParam params = 0 then Some (pageOf [docA, docB] (linkTo 20))
      else if offsetParam params = 20 then Some (pageOf [docC] None)
      else Some (pageOf [] None))"

definition gapPages :: documentsApi where
  "gapPages params =
     (if labelParam params \<noteq> None then Some (pageOf [] None)
      else if offsetParam params = 0 then Some (pageOf [docB] (linkTo 20))
      else if offsetParam params = 20 then Some (pageOf [] (linkTo 40))
      else if offsetParam params = 40 then Some (pageOf [docC] None)
      else Some (pageOf [] None))"

section \<open>Generating a PDF (generate.ts) and the batch of synchronisations (bulk.ts)\<close>

text \<open>
  What a command leaves behind besides the record files and images: the PDF files, by
  path, and the lines a batch prints about its documents (lines 99, 125 and 128 of
  bulk.ts), by the printed name.
\<close>

datatype batchLine = Processing string | CompletedLine string | ErrorProcessing string

record site =
  content :: world
  pdfs :: "string \<Rightarrow> string option"
  journal :: "batchLine list"

text \<open>
  The typesetter: which templates exist, and what compiling one for a document gives;
  \<open>None\<close> is a failed compilation, on which \<open>execSync\<close> throws.
\<close>

record typesetter =
  templateExists :: "string \<Rightarrow> bool"
  typstCompile :: "string \<Rightarrow> units \<Rightarrow> string option"

record GenerateOptions =
  generateDocument :: json
  generateTemplate :: string
  generateOutput :: "string option"

text \<open>A slug has units of ASCII only, so it is a string as it stands.\<close>

definition pdfPathOf :: "units \<Rightarrow> string" where
  "pdfPathOf filename = ''public/pdf/'' @ map char_of filename @ ''.pdf''"

text \<open>
  \<open>generatePDF\<close>. Its body is inside one \<open>try\<close> whose handler calls
  \<open>process.exit(1)\<close>. A template that is not there is reported and the command
  returns; the synced record is only read by the typesetter.
\<close>

definition generatePDF ::
  "gateway \<Rightarrow> typesetter \<Rightarrow> (units \<Rightarrow> units) \<Rightarrow> GenerateOptions \<Rightarrow> site \<Rightarrow> outcome \<times> site" where
  "generatePDF client typst lc options s =
     (case toStr (generateDocument options) of
        None \<Rightarrow> (Exited 1, s)
      | Some documentId \<Rightarrow>
     (case getDocument client documentId of
        None \<Rightarrow> (Exited 1, s)
      | Some doc \<Rightarrow>
     (case filenameOf lc doc of
        None \<Rightarrow> (Exited 1, s)
      | Some filename \<Rightarrow>
          (let output = (case generateOutput options of
                           None \<Rightarrow> pdfPathOf filename
                         | Some path \<Rightarrow> if path = [] then pdfPathOf filename else path)
           in if \<not> templateExists typst (generateTemplate options) then (Completed, s)
              else (case typstCompile typst (generateTemplate options) filename of
                      None \<Rightarrow> (Exited 1, s)
                    | Some pdf \<Rightarrow> (Completed, s\<lparr>pdfs := (pdfs s)(output \<mapsto> pdf)\<rparr>))))))"

record BulkSyncOptions =
  syncLabel :: "string option"
  syncFilter :: "string option"
  syncQuery :: "string option"
  generatePdf :: bool
  syncTemplate :: "string option"

text \<open>Lines 43 to 55.\<close>

definition parseDocumentFilter :: "(units \<Rightarrow> units) \<Rightarrow> string option \<Rightarrow> DocumentFilter" where
  "parseDocumentFilter lc filterStr =
     (case whenSet filterStr of
        None \<Rightarrow> CREATED
      | Some str \<Rightarrow>
          (let lowered = lc (unitsOfString str) in
           if lowered = unitsOfString ''my-documents'' then MY_DOCUMENTS
           else if lowered = unitsOfString ''created'' then CREATED
           else if lowered = unitsOfString ''shared'' then SHARED
           else if lowered = unitsOfString ''recent'' then RECENT
           else if lowered = unitsOfString ''public'' then PUBLIC
           else if lowered = unitsOfString ''trash'' then TRASH
           else CREATED))"

text \<open>
  Lines 98 to 131, the loop over the documents found. Printing the name of a document
  that is \<open>null\<close>, or a name that cannot be printed, throws outside the inner \<open>try\<close>,
  into the handler of line 135, which ends the process. Inside the inner \<open>try\<close>,
  \<open>syncDocuments\<close> and \<open>generatePDF\<close> do not throw: on an error they end the
  process themselves. What the inner handler can catch is the slug of a name that is
  not a string.
\<close>

fun processDocuments ::
  "gateway \<Rightarrow> typesetter \<Rightarrow> env \<Rightarrow> (units \<Rightarrow> units) \<Rightarrow> BulkSyncOptions \<Rightarrow> json list \<Rightarrow> site
   \<Rightarrow> outcome \<times> site" where
  "processDocuments client typst e lc options [] s = (Completed, s)"
| "processDocuments client typst e lc options (doc # rest) s =
     (case Option.bind (get doc ''name'') toStr of
        None \<Rightarrow> (Exited 1, s)
      | Some name \<Rightarrow>
          (let s0 = s\<lparr>journal := journal s @ [Processing name]\<rparr> in
           case syncDocuments client e lc
                  \<lparr>document = optGet doc ''id'', outputDir = ''./src/content/documents''\<rparr>
                  (content s0) of
             (Exited code, w') \<Rightarrow> (Exited code, s0\<lparr>content := w'\<rparr>)
           | (Completed, w') \<Rightarrow>
               (let s1 = s0\<lparr>content := w'\<rparr> in
                if generatePdf options then
                  (case filenameOf lc doc of
                     None \<Rightarrow>
                       processDocuments client typst e lc options rest
                         (s1\<lparr>journal := journal s1 @ [ErrorProcessing name]\<rparr>)
                   | Some safeFileName \<Rightarrow>
                       (case generatePDF client typst lc
                               \<lparr>generateDocument = optGet doc ''id'',
                                generateTemplate =
                                  withDefault ''technical-documentation'' (whenSet (syncTemplate options)),
                                generateOutput = Some (pdfPathOf safeFileName)\<rparr> s1 of
                          (Exited code, s2) \<Rightarrow> (Exited code, s2)
                        | (Completed, s2) \<Rightarrow>
                            processDocuments client typst e lc options rest
                              (s2\<lparr>journal := journal s2 @ [CompletedLine name]\<rparr>)))
                else
                  processDocuments client typst e lc options rest
                    (s1\<lparr>journal := journal s1 @ [CompletedLine name]\<rparr>))))"

text \<open>
  Lines 76 to 94: the documents of the batch. With a label they are selected on this
  side from the whole listing; without, they are the first page of the listing for
  the category and the query.
\<close>

definition findDocuments ::
  "nat \<Rightarrow> documentsApi \<Rightarrow> (units \<Rightarrow> units) \<Rightarrow> BulkSyncOptions \<Rightarrow> json list completion option" where
  "findDocuments n api lc options =
     (let filter' = parseDocumentFilter lc (syncFilter options) in
      case whenSet (syncLabel options) of
        Some label \<Rightarrow> getDocumentsByLabel n api label filter'
      | None \<Rightarrow>
          (case getDocuments api ((categoryOnly filter')\<lparr>qOpt := syncQuery options\<rparr>) of
             None \<Rightarrow> Some Threw
           | Some response \<Rightarrow> Some (Returned (itemsOf response))))"

text \<open>
  \<open>bulkSync\<close>. A throw of the listing ends the process with code 1 (line 142). The
  result is \<open>None\<close> when the listing has not come to an end.
\<close>

definition bulkSync ::
  "nat \<Rightarrow> documentsApi \<Rightarrow> gateway \<Rightarrow> typesetter \<Rightarrow> env \<Rightarrow> (units \<Rightarrow> units) \<Rightarrow> BulkSyncOptions
   \<Rightarrow> site \<Rightarrow> (outcome \<times> site) option" where
  "bulkSync n api client typst e lc options s =
     (case findDocuments n api lc options of
        None \<Rightarrow> None
      | Some Threw \<Rightarrow> Some (Exited 1, s)
      | Some (Returned documents) \<Rightarrow>
          if documents = [] then Some (Completed, s)
          else Some (processDocuments client typst e lc options documents s))"

text \<open>
  A batch for the examples: three documents carry the label; the remote service
  has the metadata of the first and the third, and its other fetches throw; the
  request for the metadata of the second throws.
\<close>

definition listed :: "string \<Rightarrow> string \<Rightarrow> json" where
  "listed documentId name =
     JObj [(''id'', JStr documentId), (''name'', JStr name),
           (''documentLabels'', JArr [JObj [(''name'', JStr ''indexed'')]])]"

definition threeListed :: documentsApi where
  "threeListed params =
     Some (pageOf [listed ''d1'' ''First'', listed ''d2'' ''Second'', listed ''d3'' ''Third''] None)"

definition metadataOf :: "string \<Rightarrow> json" where
  "metadataOf name =
     JObj [(''name'', JStr name), (''createdAt'', JStr ''2024-01-01T00:00:00.000Z'')]"

definition secondDown :: gateway where
  "secondDown =
     \<lparr> getDocument = (\<lambda>i. if i = ''d1'' then Some (metadataOf ''First'')
                            else if i = ''d3'' then Some (metadataOf ''Third'')
                            else None),
       getWorkspaces = (\<lambda>i. None),
       getDocumentVersions = (\<lambda>i. None),
       getDocumentThumbnails = (\<lambda>i. None),
       downloadThumbnail = (\<lambda>u. None) \<rparr>"

definition noTemplates :: typesetter where
  "noTemplates = \<lparr> templateExists = (\<lambda>t. False), typstCompile = (\<lambda>t f. None) \<rparr>"

definition batchOptions :: BulkSyncOptions where
  "batchOptions =
     \<lparr> syncLabel = Some ''indexed'', syncFilter = Some ''created'', syncQuery = None,
       generatePdf = False, syncTemplate = Some ''technical-documentation'' \<rparr>"

definition emptySite :: site where
  "emptySite = \<lparr> content = emptyWorld, pdfs = (\<lambda>p. None), journal = [] \<rparr>"

text \<open>What a batch has done: how it ended, what it printed, which records there are.\<close>

definition endOf :: "(outcome \<times> site) option \<Rightarrow> outcome option" where
  "endOf r = map_option fst r"

definition journalOf :: "(outcome \<times> site) option \<Rightarrow> batchLine list" where
  "journalOf r = (case r of None \<Rightarrow> [] | Some (out, s) \<Rightarrow> journal s)"

definition recordOf :: "(outcome \<times> site) option \<Rightarrow> string \<Rightarrow> fileContent option" where
  "recordOf r slug =
     (case r of
        None \<Rightarrow> None
      | Some (out, s) \<Rightarrow> records (content s) (''./src/content/documents'', unitsOfString slug))"

section \<open>Uploading a PDF (upload.ts)\<close>

text \<open>
  The two calls of the client used by the command: \<open>uploadPDF\<close>, which creates a new
  element from a PDF, and \<open>updatePDF\<close>, which replaces the PDF of an existing element.
  Their arguments are the document, the workspace, (the element,) the bytes, the file
  name and the display name; \<open>None\<close> is a throw.
\<close>

record blobClient =
  client_uploadPDF :: "string \<Rightarrow> json \<Rightarrow> string \<Rightarrow> string \<Rightarrow> json \<Rightarrow> json option"
  client_updatePDF :: "string \<Rightarrow> json \<Rightarrow> json \<Rightarrow> string \<Rightarrow> string \<Rightarrow> json \<Rightarrow> json option"

datatype remoteCall =
    UploadCall string json string string json
  | UpdateCall string json json string string json

record UploadOptions =
  uploadDocument :: string
  uploadWorkspace :: "string option"
  uploadFile :: string

text \<open>\<open>path.split('/').pop()\<close>\<close>

definition lastSegment :: "string \<Rightarrow> string" where
  "lastSegment path = rev (takeWhile (\<lambda>c. c \<noteq> CHR ''/'') (rev path))"

text \<open>\<open>s.replace(pattern, replacement)\<close> with a string pattern: the first occurrence.\<close>

fun replaceFirst :: "string \<Rightarrow> string \<Rightarrow> string \<Rightarrow> string" where
  "replaceFirst pattern replacement [] = (if pattern = [] then replacement else [])"
| "replaceFirst pattern replacement (c # cs) =
     (if take (length pattern) (c # cs) = pattern
      then replacement @ drop (length pattern) (c # cs)
      else c # replaceFirst pattern replacement cs)"

text \<open>
  The directory of the record files. upload.ts names it from its own place, bulk.ts as
  \<open>./src/content/documents\<close> from the working directory; run from the root of the
  project, as the commands are, both are the same directory.
\<close>

definition documentsDir :: string where
  "documentsDir = ''./src/content/documents''"

definition jsonPathOf :: "UploadOptions \<Rightarrow> string \<times> units" where
  "jsonPathOf options =
     (documentsDir, unitsOfString (replaceFirst ''.pdf'' [] (lastSegment (uploadFile options))))"

text \<open>
  Lines 109 to 111, on the record read from the file; the result is what line 111
  writes. The module is strict code, so assigning a property to a string, a number or
  a boolean throws (\<open>None\<close>; line 113 catches it). A property assigned to an array is
  not written by \<open>JSON.stringify\<close>.
\<close>

definition storeElementId :: "json \<Rightarrow> json \<Rightarrow> json option" where
  "storeElementId docData elementId =
     (case docData of
        JObj kvs \<Rightarrow>
          (case orElse (optGet docData ''userData'') (JObj []) of
             JObj ukvs \<Rightarrow>
               Some (persist (JObj (setProp kvs
                 (''userData'', JObj (setProp ukvs (''pdfElementId'', elementId))))))
           | JArr xs \<Rightarrow> Some (persist (JObj (setProp kvs (''userData'', JArr xs))))
           | JDate x \<Rightarrow> Some (persist (JObj (setProp kvs (''userData'', JDate x))))
           | _ \<Rightarrow> None)
      | JArr xs \<Rightarrow> Some (persist docData)
      | JDate x \<Rightarrow> Some (persist docData)
      | _ \<Rightarrow> None)"

text \<open>Lines 119 to 124: printing the result can throw.\<close>

definition reportResult :: "json \<Rightarrow> string \<Rightarrow> outcome" where
  "reportResult result filename =
     (case Option.bind (get result ''id'') toStr of
        None \<Rightarrow> Exited 1
      | Some printedId \<Rightarrow>
          (case toStr (orElse (optGet result ''name'') (JStr filename)) of
             None \<Rightarrow> Exited 1
           | Some printedName \<Rightarrow>
               if truthy (optGet result ''href'') \<and> toStr (optGet result ''href'') = None
               then Exited 1 else Completed))"

text \<open>
  \<open>uploadPDF\<close> of upload.ts, with the calls it makes to the remote service. Its body
  is inside one \<open>try\<close> whose handler calls \<open>process.exit(1)\<close>.
\<close>

definition uploadPDF ::
  "blobClient \<Rightarrow> UploadOptions \<Rightarrow> site \<Rightarrow> outcome \<times> site \<times> remoteCall list" where
  "uploadPDF client options s =
     (case pdfs s (uploadFile options) of
        None \<Rightarrow> (Exited 1, s, [])
      | Some pdfBuffer \<Rightarrow>
     (let jsonPath = jsonPathOf options;
          (docData, found) =
             (case records (content s) jsonPath of
                Some (Parsed parsed) \<Rightarrow> (parsed, True)
              | _ \<Rightarrow> (JNull, False));
          given = (case uploadWorkspace options of None \<Rightarrow> JUndefined | Some ws \<Rightarrow> JStr ws);
          workspaceId =
             (if \<not> truthy given \<and> truthy (optGet docData ''mainWorkspaceId'')
              then optGet docData ''mainWorkspaceId'' else given)
      in
      if \<not> truthy workspaceId then (Exited 1, s, [])
      else
     (let filename = (if lastSegment (uploadFile options) = [] then ''document.pdf''
                      else lastSegment (uploadFile options));
          existingElementId = optGet (optGet docData ''userData'') ''pdfElementId'';
          displayName = optGet docData ''title''
      in
      if truthy existingElementId then
        (if toStr existingElementId = None \<or> (truthy displayName \<and> toStr displayName = None)
         then (Exited 1, s, [])
         else
           (case client_updatePDF client (uploadDocument options) workspaceId existingElementId
                   pdfBuffer filename displayName of
              None \<Rightarrow>
                (Exited 1, s,
                 [UpdateCall (uploadDocument options) workspaceId existingElementId pdfBuffer
                    filename displayName])
            | Some result \<Rightarrow>
                (reportResult result filename, s,
                 [UpdateCall (uploadDocument options) workspaceId existingElementId pdfBuffer
                    filename displayName])))
      else
        (if truthy displayName \<and> toStr displayName = None then (Exited 1, s, [])
         else
           (case client_uploadPDF client (uploadDocument options) workspaceId pdfBuffer filename
                   displayName of
              None \<Rightarrow>
                (Exited 1, s,
                 [UploadCall (uploadDocument options) workspaceId pdfBuffer filename displayName])
            | Some result \<Rightarrow>
                (case get result ''id'' of
                   None \<Rightarrow>
                     (Exited 1, s,
                      [UploadCall (uploadDocument options) workspaceId pdfBuffer filename displayName])
                 | Some elementId \<Rightarrow>
                     (reportResult result filename,
                      (if truthy elementId \<and> found \<and> truthy docData then
                         (case storeElementId docData elementId of
                            None \<Rightarrow> s
                          | Some written \<Rightarrow>
                              s\<lparr>content := (content s)
                                  \<lparr>records := (records (content s))(jsonPath \<mapsto> Parsed written)\<rparr>\<rparr>)
                       else s),
                      [UploadCall (uploadDocument options) workspaceId pdfBuffer filename
                         displayName])))))))"

text \<open>The \<open>pdfElementId\<close> that the record file at a path holds, if any.\<close>

definition storedPdfElementId :: "site \<Rightarrow> string \<times> units \<Rightarrow> json" where
  "storedPdfElementId s path =
     (case records (content s) path of
        Some (Parsed docData) \<Rightarrow> optGet (optGet docData ''userData'') ''pdfElementId''
      | _ \<Rightarrow> JUndefined)"

text \<open>
  For the examples: prior records without and with a stored element, and with an empty
  one; a site that holds a record and the PDF of the example document; a service
  that creates the element \<open>E9\<close> and updates whatever element it is given.
\<close>

definition demoEmptyIdPrior :: json where
  "demoEmptyIdPrior = JObj [(''userData'', JObj [(''pdfElementId'', JStr [])])]"

definition siteWith :: "json \<Rightarrow> site" where
  "siteWith stored =
     \<lparr> content =
         \<lparr> records = (\<lambda>p. None)((documentsDir, unitsOfString ''my-part'') \<mapsto> Parsed stored),
           images = (\<lambda>p. None) \<rparr>,
       pdfs = (\<lambda>p. None)(''public/pdf/my-part.pdf'' \<mapsto> ''%PDF''),
       journal = [] \<rparr>"

definition demoBlobs :: blobClient where
  "demoBlobs =
     \<lparr> client_uploadPDF = (\<lambda>documentId workspaceId pdfBuffer filename displayName.
         Some (JObj [(''id'', JStr ''E9''), (''name'', JStr filename)])),
       client_updatePDF = (\<lambda>documentId workspaceId elementId pdfBuffer filename displayName.
         Some (JObj [(''id'', elementId), (''name'', JStr filename)])) \<rparr>"

definition demoUpload :: UploadOptions where
  "demoUpload =
     \<lparr> uploadDocument = ''d1'', uploadWorkspace = None, uploadFile = ''public/pdf/my-part.pdf'' \<rparr>"

definition demoUploaded :: json where
  "demoUploaded =
     demoWritten [JStr ''meshtastic'']
       [(''author'', demoAuthor), (''labels'', JArr []), (''pdfElementId'', JStr ''E9'')]"

section \<open>Uploading in bulk (bulk.ts, bulkUpload)\<close>

text \<open>
  Lines 222 to 352. The command reads the record files of the content directory one
  after the other and, for each record that it does not pass over, runs the upload
  command of the single document in a child process. What it needs of the machine:
  the listing of the content directory, with what reading and parsing each file gives
  at its turn (\<open>None\<close>: there is no such directory), the names in the PDF directory,
  the path of the command line script, and the child process: whether the command
  ends with success, given the commands that were run before it.
\<close>

record BulkUploadOptions =
  bulkLabel :: "string option"
  bulkQuery :: "string option"
  bulkFilter :: "string option"
  bulkWorkspace :: "string option"
  bulkDebug :: bool

record folders =
  contentDir :: "(string \<times> fileContent) list option"
  pdfDir :: "string list option"
  cliPath :: string
  execSync :: "string list \<Rightarrow> string \<Rightarrow> bool"

text \<open>The three counters of lines 259 to 261, and the commands run so far.\<close>

record tally =
  uploadCount :: nat
  skippedCount :: nat
  processedCount :: nat
  commands :: "string list"

definition startTally :: tally where
  "startTally = \<lparr> uploadCount = 0, skippedCount = 0, processedCount = 0, commands = [] \<rparr>"

text \<open>\<open>file.endsWith(suffix)\<close> and \<open>s.includes(l)\<close> on strings.\<close>

definition endsWith :: "string \<Rightarrow> string \<Rightarrow> bool" where
  "endsWith suffix s =
     (length suffix \<le> length s \<and> drop (length s - length suffix) s = suffix)"

fun includesStr :: "string \<Rightarrow> string \<Rightarrow> bool" where
  "includesStr [] l = (l = [])"
| "includesStr (c # cs) l = (take (length l) (c # cs) = l \<or> includesStr cs l)"

text \<open>
  Line 269, \<open>options.label && !documentData.labels?.includes(options.label)\<close>: whether
  the label criterion passes the record over. \<open>None\<close> is a throw: of the property read
  on \<open>null\<close>, or of the call when \<open>labels\<close> is neither an array nor a string and so has
  no method \<open>includes\<close>.
\<close>

definition labelMismatch :: "string option \<Rightarrow> json \<Rightarrow> bool option" where
  "labelMismatch label docData =
     (case whenSet label of
        None \<Rightarrow> Some False
      | Some l \<Rightarrow>
          (case get docData ''labels'' of
             None \<Rightarrow> None
           | Some labels \<Rightarrow>
               if nullish labels then Some True
               else (case labels of
                       JArr xs \<Rightarrow> Some (\<not> list_ex (\<lambda>x. sameValueZero x (JStr l)) xs)
                     | JStr s \<Rightarrow> Some (\<not> includesStr s l)
                     | _ \<Rightarrow> None)))"

text \<open>Line 288, \<open>documentData.userData?.skipPdfUpload === true\<close>.\<close>

definition uploadDisabled :: "json \<Rightarrow> bool" where
  "uploadDisabled docData = (optGet (optGet docData ''userData'') ''skipPdfUpload'' = JBool True)"

text \<open>Lines 296 to 307: the command line of the upload of one document.\<close>

definition uploadCommand :: "string \<Rightarrow> BulkUploadOptions \<Rightarrow> string \<Rightarrow> string" where
  "uploadCommand cli options documentId =
     ''npx tsx '' @ [CHR 0x22] @ cli @ [CHR 0x22]
       @ (if bulkDebug options then '' --debug'' else [])
       @ '' upload -d '' @ documentId
       @ (case whenSet (bulkWorkspace options) of None \<Rightarrow> [] | Some ws \<Rightarrow> '' -w '' @ ws)"

text \<open>\<open>`${documentData.title}`\<close>, in the messages of lines 280, 285 and 289.\<close>

definition titleText :: "json \<Rightarrow> string option" where
  "titleText docData = (case get docData ''title'' of None \<Rightarrow> None | Some title \<Rightarrow> toStr title)"

text \<open>
  Lines 264 to 336, the body of the loop for one file. A file that cannot be read or
  parsed, and every throw before the inner \<open>try\<close>, end in the handler of line 333,
  which counts the file as skipped; so does the message of line 280 when the title
  does not print. A throw or a failing child process inside the inner \<open>try\<close> ends in
  the handler of line 328, which counts it as skipped as well.
\<close>

definition uploadOne ::
  "folders \<Rightarrow> BulkUploadOptions \<Rightarrow> string list \<Rightarrow> tally \<Rightarrow> string \<times> fileContent \<Rightarrow> tally" where
  "uploadOne x options pdfNames t entry =
     (case snd entry of
        Unparsable \<Rightarrow> t\<lparr>skippedCount := skippedCount t + 1\<rparr>
      | Parsed docData \<Rightarrow>
          (case labelMismatch (bulkLabel options) docData of
             None \<Rightarrow> t\<lparr>skippedCount := skippedCount t + 1\<rparr>
           | Some True \<Rightarrow> t
           | Some False \<Rightarrow>
               (let pdfFileName = replaceFirst ''.json'' ''.pdf'' (fst entry);
                    t1 = t\<lparr>processedCount := processedCount t + 1\<rparr>
                in
                if pdfFileName \<notin> set pdfNames then t1\<lparr>skippedCount := skippedCount t1 + 1\<rparr>
                else if titleText docData = None then t1\<lparr>skippedCount := skippedCount t1 + 1\<rparr>
                else if uploadDisabled docData then t1\<lparr>skippedCount := skippedCount t1 + 1\<rparr>
                else
                  (case toStr (optGet docData ''documentId'') of
                     None \<Rightarrow> t1\<lparr>skippedCount := skippedCount t1 + 1\<rparr>
                   | Some documentId \<Rightarrow>
                       (let uploadCmd = uploadCommand (cliPath x) options documentId
                        in
                        if execSync x (commands t1) uploadCmd
                        then t1\<lparr>uploadCount := uploadCount t1 + 1,
                                commands := commands t1 @ [uploadCmd]\<rparr>
                        else t1\<lparr>skippedCount := skippedCount t1 + 1,
                                commands := commands t1 @ [uploadCmd]\<rparr>)))))"

text \<open>Line 250: the record files of the listing.\<close>

definition jsonFilesOf :: "(string \<times> fileContent) list \<Rightarrow> (string \<times> fileContent) list" where
  "jsonFilesOf listing = filter (\<lambda>entry. endsWith ''.json'' (fst entry)) listing"

text \<open>
  The command: it ends the process when a directory is missing, returns at once when
  there is no record file, and else returns after the loop with the counts that it
  prints at lines 340 and 341.
\<close>

definition bulkUpload :: "folders \<Rightarrow> BulkUploadOptions \<Rightarrow> outcome \<times> tally option" where
  "bulkUpload x options =
     (case contentDir x of
        None \<Rightarrow> (Exited 1, None)
      | Some listing \<Rightarrow>
          (case pdfDir x of
             None \<Rightarrow> (Exited 1, None)
           | Some pdfNames \<Rightarrow>
               if jsonFilesOf listing = [] then (Completed, None)
               else (Completed,
                     Some (foldl (uploadOne x options pdfNames) startTally (jsonFilesOf listing)))))"

text \<open>
  For the examples: a record with the flag and one without it, both labelled \<open>a\<close>,
  each alone in a content directory beside its PDF; a child process that succeeds.
\<close>

definition flaggedRecord :: json where
  "flaggedRecord =
     JObj [(''documentId'', JStr ''d1''), (''title'', JStr ''A''),
           (''labels'', JArr [JStr ''a'']),
           (''userData'', JObj [(''skipPdfUpload'', JBool True)])]"

definition plainRecord :: json where
  "plainRecord =
     JObj [(''documentId'', JStr ''d1''), (''title'', JStr ''A''),
           (''labels'', JArr [JStr ''a'']),
           (''userData'', JObj [(''skipPdfUpload'', JStr ''true'')])]"

definition foldersWith :: "json \<Rightarrow> folders" where
  "foldersWith stored =
     \<lparr> contentDir = Some [(''a.json'', Parsed stored)],
       pdfDir = Some [''a.pdf''],
       cliPath = ''src/index.ts'',
       execSync = (\<lambda>ran uploadCmd. True) \<rparr>"

definition labelled :: "string option \<Rightarrow> BulkUploadOptions" where
  "labelled label =
     \<lparr> bulkLabel = label, bulkQuery = None, bulkFilter = None, bulkWorkspace = None,
       bulkDebug = False \<rparr>"

section \<open>Properties of the slug\<close>

lemma replaceSpaceRuns_others:
  "list_all (\<lambda>d. \<not> isSpace d) xs \<Longrightarrow> replaceSpaceRuns (xs @ ys) = xs @ replaceSpaceRuns ys"
  by (induction xs) auto

lemma replaceSpaceRuns_runs: "replaceSpaceRuns cs = concat (map hyphenForSpaces (runs cs))"
proof (induction cs rule: runs.induct)
  case 1
  show ?case by simp
next
  case (2 c cs)
  show ?case
  proof (cases "isSpace c")
    case True
    with 2 show ?thesis by simp
  next
    case False
    let ?t = "takeWhile (\<lambda>d. \<not> isSpace d) cs"
    let ?d = "dropWhile (\<lambda>d. \<not> isSpace d) cs"
    have all: "list_all (\<lambda>d. \<not> isSpace d) ?t"
      by (auto simp: list_all_iff dest: set_takeWhileD)
    have "replaceSpaceRuns (?t @ ?d) = ?t @ replaceSpaceRuns ?d"
      using all by (rule replaceSpaceRuns_others)
    then have "replaceSpaceRuns cs = ?t @ replaceSpaceRuns ?d"
      by simp
    then show ?thesis
      using False 2 by simp
  qed
qed

lemma runs_concat: "concat (map unitsOf (runs cs)) = cs"
  by (induction cs rule: runs.induct) auto

lemma runs_proper: "list_all properRun (runs cs)"
proof (induction cs rule: runs.induct)
  case 1
  show ?case by simp
next
  case (2 c cs)
  have a: "list_all isSpace (takeWhile isSpace cs)"
    by (auto simp: list_all_iff dest: set_takeWhileD)
  have b: "list_all (\<lambda>d. \<not> isSpace d) (takeWhile (\<lambda>d. \<not> isSpace d) cs)"
    by (auto simp: list_all_iff dest: set_takeWhileD)
  show ?case using 2 a b by simp
qed

lemma runs_head_after_spaces:
  "runs (dropWhile isSpace cs) = [] \<or> (\<exists>a rs. runs (dropWhile isSpace cs) = Others a # rs)"
proof (cases "dropWhile isSpace cs")
  case Nil
  then show ?thesis by (simp del: dropWhile_eq_Nil_conv)
next
  case (Cons d ds)
  then have "\<not> isSpace d"
    by (metis hd_dropWhile list.sel(1) list.distinct(1))
  with Cons show ?thesis by simp
qed

lemma runs_head_after_others:
  "runs (dropWhile (\<lambda>d. \<not> isSpace d) cs) = []
   \<or> (\<exists>a rs. runs (dropWhile (\<lambda>d. \<not> isSpace d) cs) = Spaces a # rs)"
proof (cases "dropWhile (\<lambda>d. \<not> isSpace d) cs")
  case Nil
  then show ?thesis by (simp del: dropWhile_eq_Nil_conv)
next
  case (Cons d ds)
  then have "isSpace d"
    by (metis (mono_tags, lifting) hd_dropWhile list.sel(1) list.distinct(1))
  with Cons show ?thesis by simp
qed

lemma runs_alternating: "alternating (runs cs)"
proof (induction cs rule: runs.induct)
  case 1
  show ?case by simp
next
  case (2 c cs)
  show ?case
  proof (cases "isSpace c")
    case True
    with 2 have ih: "alternating (runs (dropWhile isSpace cs))" by simp
    from runs_head_after_spaces [of cs] ih True show ?thesis by auto
  next
    case False
    with 2 have ih: "alternating (runs (dropWhile (\<lambda>d. \<not> isSpace d) cs))" by simp
    from runs_head_after_others [of cs] ih False show ?thesis by auto
  qed
qed

text \<open>
  C9. For every title, whatever the lowercasing of the platform does, the slug is the
  lowercased title with every maximal run of whitespace replaced by one hyphen and
  every other unit outside \<open>[a-z0-9-]\<close> removed, and so holds units of \<open>[a-z0-9-]\<close>
  only. The runs are a cutting of the lowercased title into non-empty pieces that are
  all whitespace or free of it, no two neighbours of the same kind.
\<close>

theorem slug_derivation:
  "generateFilenameFromTitle lc title = slugSpec lc title
   \<and> list_all isSlugUnit (generateFilenameFromTitle lc title)
   \<and> concat (map unitsOf (runs (lc title))) = lc title
   \<and> list_all properRun (runs (lc title))
   \<and> alternating (runs (lc title))"
proof -
  have "list_all isSlugUnit (filter isSlugUnit (replaceSpaceRuns (lc title)))"
    by (simp add: list_all_iff)
  then show ?thesis
    by (simp add: generateFilenameFromTitle_def slugSpec_def stripOthers_def
        replaceSpaceRuns_runs runs_concat runs_proper runs_alternating)
qed

text \<open>The title \<open>My  Part (v2)\<close>, with two spaces, has the slug \<open>my-part-v2\<close>.\<close>

theorem slug_derivation_witness:
  "generateFilenameFromTitle asciiLower (unitsOfString ''My  Part (v2)'') = unitsOfString ''my-part-v2''
   \<and> slugSpec asciiLower (unitsOfString ''My  Part (v2)'') = unitsOfString ''my-part-v2''"
  using slug_derivation [of asciiLower "unitsOfString ''My  Part (v2)''"]
  by (simp add: generateFilenameFromTitle_def stripOthers_def asciiLower_def unitsOfString_def isSpace_def isSlugUnit_def)

section \<open>Properties of a run of syncDocuments\<close>

lemma records_downloadThumbnail_file [simp]:
  "records (downloadThumbnail_file client url outputPath w) = records w"
  by (simp add: downloadThumbnail_file_def split: option.splits)

lemma records_materializeThumbnail [simp]:
  "records (materializeThumbnail client documentId doc thumbnails w) = records w"
  by (simp add: materializeThumbnail_def split: option.splits json.splits)

lemma loadExisting_records:
  "records w1 = records w \<Longrightarrow> loadExisting w1 p = loadExisting w p"
  by (simp add: loadExisting_def)

lemma syncDocuments_Completed:
  assumes "syncDocuments client e lc options w = (Completed, w')"
  shows "\<exists>documentId doc filename written.
           toStr (document options) = Some documentId
         \<and> getDocument client documentId = Some doc
         \<and> \<not> nullish doc
         \<and> filenameOf lc doc = Some filename
         \<and> documentData e (document options) documentId doc
              (fetchMainWorkspaceId client documentId) (fetchVersions client documentId)
              (fetchThumbnails client documentId)
              (loadExisting w (outputDir options, filename)) = Some written
         \<and> records w' = (records w)((outputDir options, filename) \<mapsto> Parsed written)"
proof (cases "toStr (document options)")
  case None
  with assms show ?thesis by (simp add: syncDocuments_def)
next
  case d: (Some documentId)
  show ?thesis
  proof (cases "getDocument client documentId")
    case None
    with assms d show ?thesis by (simp add: syncDocuments_def)
  next
    case g: (Some doc)
    show ?thesis
    proof (cases "Option.bind (get doc ''name'') toStr")
      case None
      with assms d g show ?thesis by (simp add: syncDocuments_def)
    next
      case n: (Some printed)
      then have nn: "\<not> nullish doc"
        by (auto simp: get_def split: if_splits)
      show ?thesis
      proof (cases "filenameOf lc doc")
        case None
        with assms d g n show ?thesis by (simp add: syncDocuments_def Let_def)
      next
        case f: (Some filename)
        let ?D = "documentData e (document options) documentId doc
              (fetchMainWorkspaceId client documentId) (fetchVersions client documentId)
              (fetchThumbnails client documentId)
              (loadExisting w (outputDir options, filename))"
        show ?thesis
        proof (cases ?D)
          case None
          with assms d g n f show ?thesis
            by (simp add: syncDocuments_def Let_def loadExisting_def)
        next
          case (Some written)
          with assms d g n f have "records w' = (records w)((outputDir options, filename) \<mapsto> Parsed written)"
            by (auto simp add: syncDocuments_def Let_def loadExisting_def)
          with d g nn f Some show ?thesis by blast
        qed
      qed
    qed
  qed
qed

lemma synced_Some:
  assumes "synced client e lc options w = Some written"
  shows "\<exists>documentId doc.
           toStr (document options) = Some documentId
         \<and> getDocument client documentId = Some doc
         \<and> \<not> nullish doc
         \<and> documentData e (document options) documentId doc
              (fetchMainWorkspaceId client documentId) (fetchVersions client documentId)
              (fetchThumbnails client documentId)
              (existingRecord client lc options w) = Some written"
proof -
  from assms obtain w' where c: "syncDocuments client e lc options w = (Completed, w')"
    by (auto simp: synced_def split: prod.splits outcome.splits)
  from syncDocuments_Completed [OF c] obtain documentId doc filename wr where
    h: "toStr (document options) = Some documentId" "getDocument client documentId = Some doc"
       "\<not> nullish doc" "filenameOf lc doc = Some filename"
       "documentData e (document options) documentId doc
              (fetchMainWorkspaceId client documentId) (fetchVersions client documentId)
              (fetchThumbnails client documentId)
              (loadExisting w (outputDir options, filename)) = Some wr"
       "records w' = (records w)((outputDir options, filename) \<mapsto> Parsed wr)"
    by blast
  have p: "outputPathOf client lc options = Some (outputDir options, filename)"
    using h by (simp add: outputPathOf_def)
  have "written = wr"
    using assms c p h(6) by (simp add: synced_def)
  then show ?thesis
    using h p by (simp add: existingRecord_def)
qed

lemma documentData_Some:
  assumes "documentData e documentOpt documentId doc mainWorkspaceId versions thumbnails existingData
           = Some written"
  shows "\<exists>apiNames userLabels createdAt.
           apiLabelNames doc = Some apiNames
         \<and> userLabelsOf existingData = Some userLabels
         \<and> newDate (optGet doc ''createdAt'') = Some createdAt
         \<and> written = persist (JObj
             [(''documentId'', documentOpt),
              (''title'', optGet doc ''name''),
              (''description'', orElse (optGet doc ''description'') (JStr [])),
              (''onshapeUrl'', JStr (''https://cad.onshape.com/documents/'' @ documentId)),
              (''mainWorkspaceId'', mainWorkspaceId),
              (''createdAt'', createdAt),
              (''versions'', JArr versions),
              (''thumbnails'', JArr (map JObj thumbnails)),
              (''labels'', JArr (spreadSet (apiNames @ userLabels))),
              (''userData'', JObj (buildUserData e existingData userLabels))])"
  using assms by (auto simp: documentData_def bind_eq_Some_conv)

lemma persistFields_key: "(k, v) \<in> set (persistFields kvs) \<Longrightarrow> k \<in> fst ` set kvs"
  by (induction kvs) (force split: if_splits)+

lemma persistFields_keys: "fst ` set (persistFields kvs) \<subseteq> fst ` set kvs"
  using persistFields_key by fastforce

lemma map_of_persistFields:
  "distinct (map fst kvs) \<Longrightarrow>
   map_of (persistFields kvs) k =
     (case map_of kvs k of
        None \<Rightarrow> None
      | Some v \<Rightarrow> if v = JUndefined then None else Some (persist v))"
proof (induction kvs)
  case Nil
  show ?case by simp
next
  case (Cons p kvs)
  obtain k' v' where p: "p = (k', v')" by (cases p)
  have "k' \<notin> fst ` set kvs"
    using Cons.prems p by simp
  then have notin: "k' \<notin> fst ` set (persistFields kvs)"
    using persistFields_keys [of kvs] by blast
  then have none: "map_of (persistFields kvs) k' = None"
    by (simp add: map_of_eq_None_iff)
  show ?case
    using Cons p none by (auto split: option.splits)
qed

lemma optGet_persist:
  "distinct (map fst kvs) \<Longrightarrow> optGet (persist (JObj kvs)) k = persist (optGet (JObj kvs) k)"
  by (simp add: map_of_persistFields split: option.splits)

lemma persist_eq_JStr: "persist x = JStr s \<Longrightarrow> x = JStr s"
  by (cases x) (auto split: if_splits)

lemma normalizeVersion_shape:
  assumes "normalizeVersion v = Some n"
  shows "\<exists>name createdAt. n = JObj
          [(''id'', optGet v ''id''), (''name'', name),
           (''description'', orElse (optGet v ''description'') (JStr [])),
           (''createdAt'', JDate createdAt),
           (''microversion'', orElse (optGet v ''microversion'') (JStr []))]
         \<and> name \<noteq> JUndefined
         \<and> (name = JStr ''Start'' \<longleftrightarrow> optGet v ''name'' = JStr ''Start'')"
  using assms
  by (auto simp: normalizeVersion_def bind_eq_Some_conv newDate_def split: if_splits option.splits)

lemma orElse_defined [simp]: "b \<noteq> JUndefined \<Longrightarrow> orElse a b \<noteq> JUndefined"
  by (cases a) (auto simp: orElse_def)

lemma persist_normalized:
  assumes "normalizeVersion v = Some n"
  shows "versionShape (persist n)"
    and "optGet (persist n) ''name'' = JStr ''Start'' \<longleftrightarrow> optGet v ''name'' = JStr ''Start''"
proof -
  from normalizeVersion_shape [OF assms] obtain name createdAt where
    n: "n = JObj
          [(''id'', optGet v ''id''), (''name'', name),
           (''description'', orElse (optGet v ''description'') (JStr [])),
           (''createdAt'', JDate createdAt),
           (''microversion'', orElse (optGet v ''microversion'') (JStr []))]"
    and d: "name \<noteq> JUndefined"
    and s: "name = JStr ''Start'' \<longleftrightarrow> optGet v ''name'' = JStr ''Start''"
    by blast
  show "versionShape (persist n)"
    using n d by (simp add: versionShape_def)
  have "optGet (persist n) ''name'' = persist name"
    using n d by simp
  then show "optGet (persist n) ''name'' = JStr ''Start'' \<longleftrightarrow> optGet v ''name'' = JStr ''Start''"
    using s persist_eq_JStr [of name "''Start''"] by auto
qed

lemma normalized_notStart:
  "normalizeVersion v = Some n \<Longrightarrow> notStart n = rawNotStart v"
  using normalizeVersion_shape [of v n] by (auto simp: notStart_def rawNotStart_def)

lemma those_filter_normalized:
  "those (map normalizeVersion vs) = Some mapped \<Longrightarrow>
   those (map normalizeVersion (filter rawNotStart vs)) = Some (filter notStart mapped)"
proof (induction vs arbitrary: mapped)
  case Nil
  then show ?case by simp
next
  case (Cons v vs)
  from Cons.prems obtain n ms where
    n: "normalizeVersion v = Some n" and ms: "those (map normalizeVersion vs) = Some ms"
    and m: "mapped = n # ms"
    by (auto split: option.splits)
  show ?case
    using Cons.IH [OF ms] n m normalized_notStart [OF n] by simp
qed

lemma those_Some_nth:
  "those xs = Some ys \<Longrightarrow> length ys = length xs \<and> (\<forall>i<length xs. xs ! i = Some (ys ! i))"
proof (induction xs arbitrary: ys)
  case Nil
  then show ?case by simp
next
  case (Cons x xs)
  then show ?case
    by (auto split: option.splits simp: nth_Cons split: nat.splits)
qed

lemma those_Some_set:
  assumes "those (map f xs) = Some ys" "y \<in> set ys"
  shows "\<exists>x \<in> set xs. f x = Some y"
proof -
  from assms(2) obtain i where i: "i < length ys" "ys ! i = y"
    by (auto simp: in_set_conv_nth)
  from those_Some_nth [OF assms(1)] i have "f (xs ! i) = Some y" "i < length xs"
    by auto
  then show ?thesis by (metis nth_mem)
qed

lemma processVersions_elems:
  assumes "n \<in> set (processVersions r)"
  shows "notStart n \<and> (\<exists>v. normalizeVersion v = Some n)"
proof -
  from assms obtain vs where r: "r = JArr vs"
    by (cases r) (auto simp: processVersions_def)
  with assms obtain mapped where t: "those (map normalizeVersion vs) = Some mapped"
    by (cases "those (map normalizeVersion vs)") (auto simp: processVersions_def)
  from assms r t have "n \<in> set mapped" "notStart n"
    by (auto simp: processVersions_def)
  with those_Some_set [OF t] show ?thesis by blast
qed

lemma fetchVersions_elems:
  assumes "n \<in> set (fetchVersions client documentId)"
  shows "notStart n \<and> (\<exists>v. normalizeVersion v = Some n)"
  using assms processVersions_elems
  by (auto simp: fetchVersions_def split: option.splits)

lemma set_persistElems:
  "set (persistElems xs) = (\<lambda>x. if x = JUndefined then JNull else persist x) ` set xs"
  by (induction xs) auto

lemma persisted_versions:
  "list_all (\<lambda>v. notStart v \<and> versionShape v) (persistElems (fetchVersions client documentId))"
proof -
  have "notStart p \<and> versionShape p" if "p \<in> set (persistElems (fetchVersions client documentId))" for p
  proof -
    from that obtain n where n: "n \<in> set (fetchVersions client documentId)"
      and p: "p = (if n = JUndefined then JNull else persist n)"
      by (auto simp: set_persistElems)
    from fetchVersions_elems [OF n] obtain v where
      ns: "notStart n" and v: "normalizeVersion v = Some n" by blast
    from normalizeVersion_shape [OF v] have "n \<noteq> JUndefined" by auto
    with p have pp: "p = persist n" by simp
    from persist_normalized [OF v] ns normalized_notStart [OF v] pp
    show ?thesis by (simp add: notStart_def rawNotStart_def)
  qed
  then show ?thesis by (simp add: list_all_iff)
qed

lemma demo_versions:
  "fetchVersions demoClient ''d1'' =
     [JObj [(''id'', JStr ''v1''), (''name'', JStr ''V1''),
             (''description'', JStr []), (''createdAt'', JDate (JStr ''2024-02-01T00:00:00.000Z'')),
             (''microversion'', JStr [])]]"
  by (simp add: fetchVersions_def demoClient_def processVersions_def normalizeVersion_def
      notStart_def orElse_def newDate_def nullish_def)

lemma demo_workspace: "fetchMainWorkspaceId demoClient ''d1'' = JStr ''w1''"
  by (simp add: fetchMainWorkspaceId_def demoClient_def nullish_def)

lemma demo_thumbnails:
  "fetchThumbnails demoClient ''d1'' = [[(''size'', JStr ''600x340''), (''url'', JStr ''u'')]]"
  by (simp add: fetchThumbnails_def demoClient_def)

lemma demo_filename:
  "filenameOf asciiLower demoDocument = Some (unitsOfString ''my-part'')"
  by (simp add: filenameOf_def demoDocument_def generateFilenameFromTitle_def stripOthers_def
      asciiLower_def unitsOfString_def isSpace_def isSlugUnit_def)

lemma demo_documentData:
  "documentData demoEnv (JStr ''d1'') ''d1'' demoDocument (JStr ''w1'')
     (fetchVersions demoClient ''d1'') (fetchThumbnails demoClient ''d1'') (JObj []) = Some demoFirst"
  by (simp add: demo_versions demo_thumbnails documentData_def demoDocument_def apiLabelNames_def
      userLabelsOf_def get_def nullish_def orElse_def newDate_def spreadSet_def setAdd_def
      buildUserData_def customEntries_def spread_def defaultAuthor_def demoEnv_def envOr_def
      demoFirst_def)

lemma demo_getDocument: "getDocument demoClient ''d1'' = Some demoDocument"
  by (simp add: demoClient_def)

lemma demo_printed: "Option.bind (get demoDocument ''name'') toStr = Some ''My Part''"
  by (simp add: demoDocument_def get_def nullish_def)

lemma demo_download: "downloadThumbnail demoClient url = Some ''png''"
  by (simp add: demoClient_def)

lemma demo_materialize:
  "materializeThumbnail demoClient ''d1'' demoDocument (fetchThumbnails demoClient ''d1'') w
   = w\<lparr>images := (images w)(''d1'' \<mapsto> ''png'')\<rparr>"
  by (simp add: demo_thumbnails materializeThumbnail_def isLargeThumbnail_def demoDocument_def
      downloadThumbnail_file_def demo_download)

lemma demo_first_run:
  "syncDocuments demoClient demoEnv asciiLower demoOptions emptyWorld = (Completed, demoWorld1)"
  by (simp add: syncDocuments_def demoOptions_def demo_getDocument demo_printed demo_materialize
      demo_workspace demo_filename loadExisting_def emptyWorld_def demo_documentData demoWorld1_def)

lemma demo_path:
  "outputPathOf demoClient asciiLower demoOptions = Some (''out'', unitsOfString ''my-part'')"
  by (simp add: outputPathOf_def demoOptions_def demo_getDocument demo_filename)

lemma demo_first_synced:
  "synced demoClient demoEnv asciiLower demoOptions emptyWorld = Some demoFirst"
  by (simp add: synced_def demo_first_run demo_path demoWorld1_def)

text \<open>
  C6. When a run completes, the stored \<open>versions\<close> list holds no entry named
  \<open>Start\<close>, and each entry has the keys \<open>id, name, description, createdAt,
  microversion\<close> (without \<open>id\<close> when the fetched entry had none). When the fetch
  returns a list whose entries can all be normalised, the stored list is the
  normalisation of exactly the fetched entries whose name is not \<open>Start\<close>, in order.
\<close>

theorem start_version_exclusion:
  assumes "synced client e lc options w = Some written"
  shows "\<exists>versions.
           optGet written ''versions'' = JArr versions
         \<and> list_all (\<lambda>v. notStart v \<and> versionShape v) versions
         \<and> (\<forall>documentId vs.
               toStr (document options) = Some documentId
               \<and> getDocumentVersions client documentId = Some (JArr vs)
               \<and> those (map normalizeVersion vs) \<noteq> None
               \<longrightarrow> (\<exists>kept. those (map normalizeVersion (filter rawNotStart vs)) = Some kept
                          \<and> versions = persistElems kept))"
proof -
  from synced_Some [OF assms] obtain documentId doc where
    d: "toStr (document options) = Some documentId"
    and dd: "documentData e (document options) documentId doc
              (fetchMainWorkspaceId client documentId) (fetchVersions client documentId)
              (fetchThumbnails client documentId)
              (existingRecord client lc options w) = Some written"
    by blast
  from documentData_Some [OF dd] obtain apiNames userLabels createdAt where
    wr: "written = persist (JObj
             [(''documentId'', document options),
              (''title'', optGet doc ''name''),
              (''description'', orElse (optGet doc ''description'') (JStr [])),
              (''onshapeUrl'', JStr (''https://cad.onshape.com/documents/'' @ documentId)),
              (''mainWorkspaceId'', fetchMainWorkspaceId client documentId),
              (''createdAt'', createdAt),
              (''versions'', JArr (fetchVersions client documentId)),
              (''thumbnails'', JArr (map JObj (fetchThumbnails client documentId))),
              (''labels'', JArr (spreadSet (apiNames @ userLabels))),
              (''userData'', JObj (buildUserData e (existingRecord client lc options w) userLabels))])"
    by blast
  let ?versions = "persistElems (fetchVersions client documentId)"
  have a: "optGet written ''versions'' = JArr ?versions"
    unfolding wr by (subst optGet_persist) simp_all
  have b: "list_all (\<lambda>v. notStart v \<and> versionShape v) ?versions"
    by (rule persisted_versions)
  have c: "\<exists>kept. those (map normalizeVersion (filter rawNotStart vs)) = Some kept
                          \<and> ?versions = persistElems kept"
    if "toStr (document options) = Some documentId'"
      "getDocumentVersions client documentId' = Some (JArr vs)"
      "those (map normalizeVersion vs) \<noteq> None" for documentId' vs
  proof -
    from that(1) d have e: "documentId' = documentId" by simp
    from that(3) obtain mapped where m: "those (map normalizeVersion vs) = Some mapped" by blast
    have "fetchVersions client documentId = filter notStart mapped"
      using that(2) e m by (simp add: fetchVersions_def processVersions_def)
    with those_filter_normalized [OF m] show ?thesis by simp
  qed
  from a b c show ?thesis by blast
qed

text \<open>In the example the fetched versions are \<open>Start\<close> and \<open>V1\<close>; only \<open>V1\<close> is stored.\<close>

theorem start_version_exclusion_witness:
  "synced demoClient demoEnv asciiLower demoOptions emptyWorld = Some demoFirst
   \<and> optGet demoFirst ''versions'' =
       JArr [JObj [(''id'', JStr ''v1''), (''name'', JStr ''V1''), (''description'', JStr []),
                   (''createdAt'', JDate (JStr ''2024-02-01T00:00:00.000Z'')),
                   (''microversion'', JStr [])]]
   \<and> (\<exists>versions.
           optGet demoFirst ''versions'' = JArr versions
         \<and> list_all (\<lambda>v. notStart v \<and> versionShape v) versions
         \<and> (\<forall>documentId vs.
               toStr (document demoOptions) = Some documentId
               \<and> getDocumentVersions demoClient documentId = Some (JArr vs)
               \<and> those (map normalizeVersion vs) \<noteq> None
               \<longrightarrow> (\<exists>kept. those (map normalizeVersion (filter rawNotStart vs)) = Some kept
                          \<and> versions = persistElems kept)))"
proof -
  have h: "synced demoClient demoEnv asciiLower demoOptions emptyWorld = Some demoFirst"
    by (rule demo_first_synced)
  have v: "optGet demoFirst ''versions'' =
       JArr [JObj [(''id'', JStr ''v1''), (''name'', JStr ''V1''), (''description'', JStr []),
                   (''createdAt'', JDate (JStr ''2024-02-01T00:00:00.000Z'')),
                   (''microversion'', JStr [])]]"
    by (simp add: demoFirst_def)
  from h v start_version_exclusion [OF h] show ?thesis by blast
qed

section \<open>Properties of property lists\<close>

lemma decimal_nonempty: "decimal n \<noteq> []"
  by (subst decimal.simps) simp

lemma char_of_digit_inj:
  "a < 10 \<Longrightarrow> b < 10 \<Longrightarrow> (char_of (48 + a) :: char) = char_of (48 + b) \<Longrightarrow> a = (b::nat)"
proof -
  assume a: "a < 10" and b: "b < 10" and e: "(char_of (48 + a) :: char) = char_of (48 + b)"
  have "of_char (char_of (48 + a) :: char) = (of_char (char_of (48 + b) :: char) :: nat)"
    using e by simp
  then have "(48 + a) mod 256 = (48 + b) mod 256"
    by (simp only: of_char_of)
  with a b show ?thesis by simp
qed

lemma decimal_inj: "decimal m = decimal n \<Longrightarrow> m = n"
proof (induction m arbitrary: n rule: decimal.induct)
  case (1 m)
  show ?case
  proof (cases "m < 10")
    case True
    then have dm: "decimal m = [char_of (48 + m)]"
      by (subst decimal.simps) simp
    show ?thesis
    proof (cases "n < 10")
      case nt: True
      then have "decimal n = [char_of (48 + n)]"
        by (subst decimal.simps) simp
      with dm "1.prems" True nt show ?thesis
        using char_of_digit_inj by simp
    next
      case False
      then have "decimal n = decimal (n div 10) @ [char_of (48 + n mod 10)]"
        by (subst decimal.simps) simp
      with dm "1.prems" decimal_nonempty [of "n div 10"] show ?thesis
        by (cases "decimal (n div 10)") auto
    qed
  next
    case False
    then have dm: "decimal m = decimal (m div 10) @ [char_of (48 + m mod 10)]"
      by (subst decimal.simps) simp
    show ?thesis
    proof (cases "n < 10")
      case True
      then have "decimal n = [char_of (48 + n)]"
        by (subst decimal.simps) simp
      with dm "1.prems" decimal_nonempty [of "m div 10"] show ?thesis
        by (cases "decimal (m div 10)") auto
    next
      case nf: False
      then have dn: "decimal n = decimal (n div 10) @ [char_of (48 + n mod 10)]"
        by (subst decimal.simps) simp
      from dm dn "1.prems" have
        q: "decimal (m div 10) = decimal (n div 10)"
        and r: "(char_of (48 + m mod 10) :: char) = char_of (48 + n mod 10)"
        by simp_all
      from "1.IH" [OF False q] have "m div 10 = n div 10" .
      moreover from r have "m mod 10 = n mod 10"
        using char_of_digit_inj [of "m mod 10" "n mod 10"] by simp
      ultimately show ?thesis
        by (metis div_mult_mod_eq)
    qed
  qed
qed

lemma distinct_decimals: "distinct (map decimal [0..<n])"
  by (simp add: distinct_map inj_on_def decimal_inj)

lemma distinct_entries: "distinct (map fst (entries v))"
  by (cases v) (simp_all add: distinct_clearjunk distinct_decimals)

lemma distinct_customEntries: "distinct (map fst (customEntries known v))"
  unfolding customEntries_def using distinct_entries [of v]
  by (simp add: distinct_map_filter)

lemma customEntries_keys: "(k, v) \<in> set (customEntries known x) \<Longrightarrow> k \<notin> set known"
  by (auto simp: customEntries_def)

lemma map_of_customEntries:
  "map_of (customEntries known x) k = (if k \<in> set known then None else map_of (entries x) k)"
proof (cases "k \<in> set known")
  case True
  then have "k \<notin> fst ` set (customEntries known x)"
    using customEntries_keys by fastforce
  with True show ?thesis by (simp add: map_of_eq_None_iff)
next
  case False
  have "map_of (filter (\<lambda>(key, value). key \<notin> set known) es) k = map_of es k" for es
    using False by (induction es) auto
  with False show ?thesis by (simp add: customEntries_def)
qed

lemma map_of_setProp:
  "map_of (setProp kvs (k, v)) k' = (if k' = k then Some v else map_of kvs k')"
  by (induction kvs) auto

lemma keys_setProp: "fst ` set (setProp kvs (k, v)) = insert k (fst ` set kvs)"
proof -
  have "dom (map_of (setProp kvs (k, v))) = insert k (dom (map_of kvs))"
    by (auto simp: map_of_setProp dom_def)
  then show ?thesis
    by (simp add: dom_map_of_conv_image_fst)
qed

lemma distinct_setProp: "distinct (map fst kvs) \<Longrightarrow> distinct (map fst (setProp kvs (k, v)))"
proof (induction kvs)
  case Nil
  show ?case by simp
next
  case (Cons p kvs)
  obtain k' v' where p: "p = (k', v')" by (cases p)
  from Cons.prems p have d: "distinct (map fst kvs)" and n: "k' \<notin> fst ` set kvs"
    by auto
  show ?case
  proof (cases "k' = k")
    case True
    with p d n show ?thesis by simp
  next
    case False
    with n have "k' \<notin> fst ` set (setProp kvs (k, v))"
      by (simp only: keys_setProp) simp
    with p False Cons.IH [OF d] show ?thesis by simp
  qed
qed

lemma distinct_spread: "distinct (map fst base) \<Longrightarrow> distinct (map fst (spread base es))"
  unfolding spread_def
proof (induction es arbitrary: base)
  case Nil
  then show ?case by simp
next
  case (Cons p es)
  obtain k v where "p = (k, v)" by (cases p)
  with Cons show ?case by (simp add: distinct_setProp)
qed

lemma map_of_spread:
  "distinct (map fst es) \<Longrightarrow>
   map_of (spread base es) k = (case map_of es k of Some v \<Rightarrow> Some v | None \<Rightarrow> map_of base k)"
  unfolding spread_def
proof (induction es arbitrary: base)
  case Nil
  show ?case by simp
next
  case (Cons p es)
  obtain k' v' where p: "p = (k', v')" by (cases p)
  from Cons.prems p have d: "distinct (map fst es)" and n: "k' \<notin> fst ` set es"
    by auto
  from n have none: "map_of es k' = None"
    by (simp add: map_of_eq_None_iff)
  show ?case
    using Cons.IH [OF d, of "setProp base (k', v')"] p none
    by (auto simp: map_of_setProp split: option.splits)
qed

lemma entries_falsy: "\<not> truthy v \<Longrightarrow> entries v = []"
  by (cases v) auto

lemma entries_orElse_empty: "entries (orElse v (JObj [])) = entries v"
  by (simp add: orElse_def entries_falsy)

lemma map_of_entries_JObj: "map_of (entries (JObj kvs)) k = map_of kvs k"
  by (simp add: map_of_clearjunk)

lemma distinct_buildUserData: "distinct (map fst (buildUserData e existingData userLabels))"
  by (simp add: buildUserData_def Let_def distinct_spread)

lemma map_of_buildUserData:
  "map_of (buildUserData e existingData userLabels) k =
     (case map_of (customEntries rootKnownKeys existingData) k of
        Some v \<Rightarrow> Some v
      | None \<Rightarrow>
          (case map_of (customEntries userDataKnownKeys (optGet existingData ''userData'')) k of
             Some v \<Rightarrow> Some v
           | None \<Rightarrow>
               map_of
                 [(''workspaceId'',
                     orElse (orElse (optGet (optGet existingData ''userData'') ''workspaceId'')
                       (optGet existingData ''workspaceId'')) JUndefined),
                  (''elementId'',
                     orElse (orElse (optGet (optGet existingData ''userData'') ''elementId'')
                       (optGet existingData ''elementId'')) JUndefined),
                  (''pdfElementId'',
                     orElse (optGet (optGet existingData ''userData'') ''pdfElementId'') JUndefined),
                  (''author'',
                     orElse (orElse (optGet (optGet existingData ''userData'') ''author'')
                       (optGet existingData ''author'')) (defaultAuthor e)),
                  (''labels'', JArr userLabels)] k))"
proof -
  have c: "customEntries known (orElse v (JObj [])) = customEntries known v" for known v
    by (simp add: customEntries_def entries_orElse_empty)
  show ?thesis
    unfolding buildUserData_def Let_def c
    by (simp only: map_of_spread [OF distinct_customEntries])
qed

lemma persist_defined: "v \<noteq> JUndefined \<Longrightarrow> persist v \<noteq> JUndefined"
  by (cases v) auto

lemma optGet_userData:
  assumes "written = persist (JObj
             [(''documentId'', documentOpt),
              (''title'', title),
              (''description'', description),
              (''onshapeUrl'', onshapeUrl),
              (''mainWorkspaceId'', mainWorkspaceId),
              (''createdAt'', createdAt),
              (''versions'', versions),
              (''thumbnails'', thumbnails),
              (''labels'', labels),
              (''userData'', JObj (buildUserData e existingData userLabels))])"
  shows "optGet (optGet written ''userData'') k =
           persist (optGet (JObj (buildUserData e existingData userLabels)) k)"
proof -
  have "optGet written ''userData'' = persist (JObj (buildUserData e existingData userLabels))"
    unfolding assms by (subst optGet_persist) simp_all
  then show ?thesis
    by (simp only: optGet_persist [OF distinct_buildUserData])
qed

lemma synced_userData:
  assumes "synced client e lc options w = Some written"
  shows "\<exists>userLabels.
           userLabelsOf (existingRecord client lc options w) = Some userLabels
         \<and> (\<forall>k. optGet (optGet written ''userData'') k =
                  persist (optGet (JObj (buildUserData e (existingRecord client lc options w) userLabels)) k))"
proof -
  from synced_Some [OF assms] obtain documentId doc where
    dd: "documentData e (document options) documentId doc
              (fetchMainWorkspaceId client documentId) (fetchVersions client documentId)
              (fetchThumbnails client documentId)
              (existingRecord client lc options w) = Some written"
    by blast
  from documentData_Some [OF dd] obtain apiNames userLabels createdAt where
    ul: "userLabelsOf (existingRecord client lc options w) = Some userLabels" and
    wr: "written = persist (JObj
             [(''documentId'', document options),
              (''title'', optGet doc ''name''),
              (''description'', orElse (optGet doc ''description'') (JStr [])),
              (''onshapeUrl'', JStr (''https://cad.onshape.com/documents/'' @ documentId)),
              (''mainWorkspaceId'', fetchMainWorkspaceId client documentId),
              (''createdAt'', createdAt),
              (''versions'', JArr (fetchVersions client documentId)),
              (''thumbnails'', JArr (map JObj (fetchThumbnails client documentId))),
              (''labels'', JArr (spreadSet (apiNames @ userLabels))),
              (''userData'', JObj (buildUserData e (existingRecord client lc options w) userLabels))])"
    by blast
  from ul optGet_userData [OF wr] show ?thesis by blast
qed

text \<open>
  C3, amended. When a run completes, every key of the prior \<open>userData\<close> that is not
  one of \<open>workspaceId, elementId, pdfElementId, author, labels, description,
  changelog\<close>, and that the prior record does not also hold at its top level outside
  the recognised top-level keys, is in the new \<open>userData\<close> with its value unchanged.
\<close>

theorem unknown_field_passthrough:
  assumes "synced client e lc options w = Some written"
    and "map_of (entries (optGet (existingRecord client lc options w) ''userData'')) key = Some value"
    and "key \<notin> set userDataKnownKeys"
    and "hasProp (existingRecord client lc options w) key \<longrightarrow> key \<in> set rootKnownKeys"
    and "storable value"
  shows "optGet (optGet written ''userData'') key = value"
proof -
  let ?ex = "existingRecord client lc options w"
  from synced_userData [OF assms(1)] obtain userLabels where
    u: "optGet (optGet written ''userData'') key =
          persist (optGet (JObj (buildUserData e ?ex userLabels)) key)"
    by blast
  have r: "map_of (customEntries rootKnownKeys ?ex) key = None"
  proof (cases "key \<in> set rootKnownKeys")
    case True
    then show ?thesis by (simp add: map_of_customEntries)
  next
    case False
    with assms(4) have "key \<notin> fst ` set (entries ?ex)"
      by (simp add: hasProp_def ownKeys_def)
    then show ?thesis
      by (simp add: map_of_customEntries map_of_eq_None_iff)
  qed
  have c: "map_of (customEntries userDataKnownKeys (optGet ?ex ''userData'')) key = Some value"
    using assms(2,3) by (simp add: map_of_customEntries)
  have "optGet (JObj (buildUserData e ?ex userLabels)) key = value"
    by (simp add: map_of_buildUserData r c)
  with u assms(5) show ?thesis by (simp add: storable_def)
qed

lemma demo_options: "document demoOptions = JStr ''d1''" "outputDir demoOptions = ''out''"
  by (simp_all add: demoOptions_def)

lemma demo_run_with_prior:
  assumes "records w (''out'', unitsOfString ''my-part'') = Some (Parsed prior)"
  shows "synced demoClient demoEnv asciiLower demoOptions w =
           documentData demoEnv (JStr ''d1'') ''d1'' demoDocument (JStr ''w1'')
             (fetchVersions demoClient ''d1'') (fetchThumbnails demoClient ''d1'') prior"
    and "existingRecord demoClient asciiLower demoOptions w = prior"
proof -
  show "existingRecord demoClient asciiLower demoOptions w = prior"
    using assms by (simp add: existingRecord_def demo_path loadExisting_def)
  show "synced demoClient demoEnv asciiLower demoOptions w =
           documentData demoEnv (JStr ''d1'') ''d1'' demoDocument (JStr ''w1'')
             (fetchVersions demoClient ''d1'') (fetchThumbnails demoClient ''d1'') prior"
    using assms
    by (cases "documentData demoEnv (JStr ''d1'') ''d1'' demoDocument (JStr ''w1'')
             (fetchVersions demoClient ''d1'') (fetchThumbnails demoClient ''d1'') prior")
       (simp_all add: synced_def syncDocuments_def demo_options demo_getDocument demo_printed
        demo_materialize demo_workspace demo_filename loadExisting_def demo_path Let_def)
qed

lemma demo_worldWith: "records (worldWith prior) (''out'', unitsOfString ''my-part'') = Some (Parsed prior)"
  by (simp add: worldWith_def)

lemma demo_reconciled:
  "synced demoClient demoEnv asciiLower demoOptions (worldWith demoPrior) = Some demoReconciled"
  unfolding demo_run_with_prior(1) [OF demo_worldWith]
  by (simp add: demo_versions demo_thumbnails documentData_def demoDocument_def apiLabelNames_def
      userLabelsOf_def labelToString_def get_def nullish_def orElse_def newDate_def spreadSet_def
      setAdd_def buildUserData_def customEntries_def spread_def defaultAuthor_def demoEnv_def
      envOr_def demoPrior_def demoReconciled_def demoWritten_def demoAuthor_def
      userDataKnownKeys_def rootKnownKeys_def)

lemma demo_root_reconciled:
  "synced demoClient demoEnv asciiLower demoOptions (worldWith demoRootPrior) = Some demoRootReconciled"
  unfolding demo_run_with_prior(1) [OF demo_worldWith]
  by (simp add: demo_versions demo_thumbnails documentData_def demoDocument_def apiLabelNames_def
      userLabelsOf_def labelToString_def get_def nullish_def orElse_def newDate_def spreadSet_def
      setAdd_def buildUserData_def customEntries_def spread_def defaultAuthor_def demoEnv_def
      envOr_def demoRootPrior_def demoRootReconciled_def demoWritten_def demoAuthor_def
      userDataKnownKeys_def rootKnownKeys_def)

lemma demo_shadow_reconciled:
  "synced demoClient demoEnv asciiLower demoOptions (worldWith demoShadowPrior)
   = Some demoShadowReconciled"
  unfolding demo_run_with_prior(1) [OF demo_worldWith]
  by (simp add: demo_versions demo_thumbnails documentData_def demoDocument_def apiLabelNames_def
      userLabelsOf_def labelToString_def get_def nullish_def orElse_def newDate_def spreadSet_def
      setAdd_def buildUserData_def customEntries_def spread_def defaultAuthor_def demoEnv_def
      envOr_def demoShadowPrior_def demoShadowReconciled_def demoWritten_def demoAuthor_def
      userDataKnownKeys_def rootKnownKeys_def)

text \<open>
  C3 as stated fails. A prior record whose \<open>userData\<close> holds \<open>description\<close>, a key
  outside the five recognised ones, loses it: line 178 also filters \<open>description\<close>
  and \<open>changelog\<close>. And a prior record that holds \<open>notes\<close> both at the top level and
  in \<open>userData\<close> comes out with the top-level value in \<open>userData.notes\<close>: the
  migration of line 182 is spread last.
\<close>

theorem unknown_field_passthrough_counterexample:
  "synced demoClient demoEnv asciiLower demoOptions (worldWith demoPrior) = Some demoReconciled
   \<and> existingRecord demoClient asciiLower demoOptions (worldWith demoPrior) = demoPrior
   \<and> optGet (optGet demoPrior ''userData'') ''description'' = JStr ''keep me''
   \<and> ''description'' \<notin> {''workspaceId'', ''elementId'', ''pdfElementId'', ''author'', ''labels''}
   \<and> optGet (optGet demoReconciled ''userData'') ''description'' = JUndefined
   \<and> \<not> hasProp (optGet demoReconciled ''userData'') ''description''
   \<and> synced demoClient demoEnv asciiLower demoOptions (worldWith demoShadowPrior)
       = Some demoShadowReconciled
   \<and> existingRecord demoClient asciiLower demoOptions (worldWith demoShadowPrior) = demoShadowPrior
   \<and> optGet (optGet demoShadowPrior ''userData'') ''notes'' = JStr ''user''
   \<and> ''notes'' \<notin> {''workspaceId'', ''elementId'', ''pdfElementId'', ''author'', ''labels''}
   \<and> optGet (optGet demoShadowReconciled ''userData'') ''notes'' = JStr ''root''"
proof -
  have "optGet (optGet demoPrior ''userData'') ''description'' = JStr ''keep me''"
    by (simp add: demoPrior_def)
  moreover have "optGet (optGet demoReconciled ''userData'') ''description'' = JUndefined"
    by (simp add: demoReconciled_def demoWritten_def)
  moreover have "\<not> hasProp (optGet demoReconciled ''userData'') ''description''"
    by (simp add: demoReconciled_def demoWritten_def hasProp_def ownKeys_def)
  moreover have "optGet (optGet demoShadowPrior ''userData'') ''notes'' = JStr ''user''"
    by (simp add: demoShadowPrior_def)
  moreover have "optGet (optGet demoShadowReconciled ''userData'') ''notes'' = JStr ''root''"
    by (simp add: demoShadowReconciled_def demoWritten_def)
  ultimately show ?thesis
    using demo_reconciled demo_shadow_reconciled
      demo_run_with_prior(2) [OF demo_worldWith, of demoPrior]
      demo_run_with_prior(2) [OF demo_worldWith, of demoShadowPrior]
    by simp
qed

text \<open>In the example \<open>userData.customNote\<close> is carried over.\<close>

theorem unknown_field_passthrough_witness:
  "synced demoClient demoEnv asciiLower demoOptions (worldWith demoPrior) = Some demoReconciled
   \<and> map_of (entries (optGet (existingRecord demoClient asciiLower demoOptions (worldWith demoPrior))
         ''userData'')) ''customNote'' = Some (JStr ''x'')
   \<and> ''customNote'' \<notin> set userDataKnownKeys
   \<and> \<not> hasProp (existingRecord demoClient asciiLower demoOptions (worldWith demoPrior)) ''customNote''
   \<and> storable (JStr ''x'')
   \<and> optGet (optGet demoReconciled ''userData'') ''customNote'' = JStr ''x''"
proof -
  have e: "existingRecord demoClient asciiLower demoOptions (worldWith demoPrior) = demoPrior"
    by (rule demo_run_with_prior(2) [OF demo_worldWith])
  have a: "map_of (entries (optGet (existingRecord demoClient asciiLower demoOptions
              (worldWith demoPrior)) ''userData'')) ''customNote'' = Some (JStr ''x'')"
    unfolding e by (simp add: demoPrior_def)
  have b: "''customNote'' \<notin> set userDataKnownKeys"
    by (simp add: userDataKnownKeys_def)
  have c: "\<not> hasProp (existingRecord demoClient asciiLower demoOptions (worldWith demoPrior)) ''customNote''"
    unfolding e by (simp add: demoPrior_def hasProp_def ownKeys_def)
  have d: "storable (JStr ''x'')"
    by (simp add: storable_def)
  from unknown_field_passthrough [OF demo_reconciled a b _ d] c
  have "optGet (optGet demoReconciled ''userData'') ''customNote'' = JStr ''x''"
    by blast
  with demo_reconciled a b c d show ?thesis by blast
qed

section \<open>Properties of the label union\<close>
















section \<open>Failures of single fetches\<close>

lemma those_map_Some:
  "list_all (\<lambda>x. f x \<noteq> None) xs \<Longrightarrow> \<exists>ys. those (map f xs) = Some ys"
  by (induction xs) auto

lemma apiLabelNames_ok:
  assumes "readableLabels (optGet doc ''documentLabels'')"
  shows "\<exists>remote. apiLabelNames doc = Some remote"
proof (cases "optGet doc ''documentLabels''")
  case (JArr ls)
  with assms have "list_all (\<lambda>l. get l ''name'' \<noteq> None) ls"
    by (simp add: readableLabels_def get_def list_all_iff)
  from those_map_Some [OF this] JArr show ?thesis
    by (auto simp: apiLabelNames_def)
qed (use assms in \<open>simp_all add: apiLabelNames_def readableLabels_def\<close>)

lemma labelToString_ok: "\<not> nullish l \<Longrightarrow> labelToString l \<noteq> None"
  by (cases l) (simp_all add: labelToString_def get_def nullish_def)

lemma userLabelsOf_ok:
  assumes "priorOk existingData"
  shows "\<exists>user. userLabelsOf existingData = Some user"
proof -
  from assms have n: "\<not> nullish existingData" by (simp add: priorOk_def)
  show ?thesis
  proof (cases "optGet (optGet existingData ''userData'') ''labels''")
    case (JArr ls)
    with assms have "list_all (\<lambda>l. labelToString l \<noteq> None) ls"
      using labelToString_ok by (auto simp: priorOk_def list_all_iff)
    from those_map_Some [OF this] JArr n show ?thesis
      by (auto simp: userLabelsOf_def get_def orElse_def)
  qed (use assms n in \<open>simp_all add: userLabelsOf_def priorOk_def get_def orElse_def\<close>)
qed

lemma documentData_ok:
  assumes "metadataOk doc" "priorOk existingData"
  shows "\<exists>written.
           documentData e documentOpt documentId doc mainWorkspaceId versions thumbnails existingData
           = Some written"
proof -
  from assms(1) apiLabelNames_ok obtain remote where r: "apiLabelNames doc = Some remote"
    unfolding metadataOk_def by blast
  from assms(2) userLabelsOf_ok obtain user where u: "userLabelsOf existingData = Some user"
    by blast
  from assms(1) obtain s where "toStr (optGet doc ''createdAt'') = Some s"
    by (auto simp: metadataOk_def printable_def)
  then have "newDate (optGet doc ''createdAt'') = Some (JDate (optGet doc ''createdAt''))"
    by (simp add: newDate_def)
  with r u show ?thesis by (simp add: documentData_def)
qed

lemma metadataOk_name:
  assumes "metadataOk doc"
  shows "\<exists>name. optGet doc ''name'' = JStr name \<and> \<not> nullish doc
         \<and> Option.bind (get doc ''name'') toStr = Some name
         \<and> filenameOf lc doc = Some (generateFilenameFromTitle lc (unitsOfString name))"
proof -
  from assms obtain name where n: "optGet doc ''name'' = JStr name"
    by (cases "optGet doc ''name''") (auto simp: metadataOk_def isStr_def)
  then have "\<not> nullish doc"
    by (cases doc) (auto simp: nullish_def)
  with n show ?thesis
    by (simp add: get_def filenameOf_def)
qed

lemma syncDocuments_completes:
  assumes "toStr (document options) = Some documentId"
    and "getDocument client documentId = Some doc"
    and "metadataOk doc"
    and "priorOk (existingRecord client lc options w)"
  shows "\<exists>written w'. syncDocuments client e lc options w = (Completed, w')
           \<and> synced client e lc options w = Some written"
proof -
  from metadataOk_name [OF assms(3), of lc] obtain name where
    n: "optGet doc ''name'' = JStr name" "\<not> nullish doc"
       "Option.bind (get doc ''name'') toStr = Some name"
       "filenameOf lc doc = Some (generateFilenameFromTitle lc (unitsOfString name))"
    by blast
  let ?f = "generateFilenameFromTitle lc (unitsOfString name)"
  have p: "outputPathOf client lc options = Some (outputDir options, ?f)"
    using assms(1,2) n(4) by (simp add: outputPathOf_def)
  then have ex: "existingRecord client lc options w = loadExisting w (outputDir options, ?f)"
    by (simp add: existingRecord_def)
  from documentData_ok [OF assms(3) assms(4) [unfolded ex]] obtain written where
    dd: "documentData e (document options) documentId doc
              (fetchMainWorkspaceId client documentId) (fetchVersions client documentId)
              (fetchThumbnails client documentId)
              (loadExisting w (outputDir options, ?f)) = Some written"
    by blast
  let ?w1 = "materializeThumbnail client documentId doc (fetchThumbnails client documentId) w"
  have le: "loadExisting ?w1 (outputDir options, ?f) = loadExisting w (outputDir options, ?f)"
    by (simp add: loadExisting_def)
  have s: "syncDocuments client e lc options w =
         (Completed, ?w1\<lparr>records := (records ?w1)((outputDir options, ?f) \<mapsto> Parsed written)\<rparr>)"
    using assms(1,2) n(3,4) dd le by (simp add: syncDocuments_def Let_def)
  then have "synced client e lc options w = Some written"
    using p by (simp add: synced_def)
  with s show ?thesis by blast
qed

lemma hasProp_map_of: "hasProp v k \<longleftrightarrow> map_of (entries v) k \<noteq> None"
  by (simp add: hasProp_def ownKeys_def map_of_eq_None_iff)

lemma hasProp_persist:
  "distinct (map fst kvs) \<Longrightarrow>
   hasProp (persist (JObj kvs)) k \<longleftrightarrow> (\<exists>v. map_of kvs k = Some v \<and> v \<noteq> JUndefined)"
proof -
  assume d: "distinct (map fst kvs)"
  have "hasProp (persist (JObj kvs)) k \<longleftrightarrow> map_of (persistFields kvs) k \<noteq> None"
    by (simp add: hasProp_map_of map_of_clearjunk)
  also have "\<dots> \<longleftrightarrow> (\<exists>v. map_of kvs k = Some v \<and> v \<noteq> JUndefined)"
    unfolding map_of_persistFields [OF d]
    by (cases "map_of kvs k") simp_all
  finally show ?thesis .
qed

lemma materializeThumbnail_cong:
  assumes "downloadThumbnail c = downloadThumbnail c'"
  shows "materializeThumbnail c = materializeThumbnail c'"
proof -
  have "downloadThumbnail_file c = downloadThumbnail_file c'"
    using assms by (simp add: downloadThumbnail_file_def fun_eq_iff)
  then show ?thesis
    by (simp add: materializeThumbnail_def fun_eq_iff cong: option.case_cong json.case_cong)
qed

lemma versions_failure:
  assumes "toStr (document options) = Some documentId"
    and "getDocumentVersions client documentId = None"
  shows "syncDocuments client e lc options w
         = syncDocuments (client\<lparr>getDocumentVersions := \<lambda>i. Some (JArr [])\<rparr>) e lc options w"
proof -
  let ?c = "client\<lparr>getDocumentVersions := \<lambda>i. Some (JArr [])\<rparr>"
  have "fetchVersions ?c documentId = fetchVersions client documentId"
    using assms(2) by (simp add: fetchVersions_def processVersions_def)
  moreover have "fetchMainWorkspaceId ?c documentId = fetchMainWorkspaceId client documentId"
    by (simp add: fetchMainWorkspaceId_def)
  moreover have "fetchThumbnails ?c documentId = fetchThumbnails client documentId"
    by (simp add: fetchThumbnails_def)
  moreover have "materializeThumbnail ?c = materializeThumbnail client"
    by (rule materializeThumbnail_cong) simp
  ultimately show ?thesis
    using assms(1) by (simp add: syncDocuments_def Let_def cong: option.case_cong)
qed

lemma thumbnails_failure:
  assumes "toStr (document options) = Some documentId"
    and "getDocumentThumbnails client documentId = None"
  shows "syncDocuments client e lc options w
         = syncDocuments (client\<lparr>getDocumentThumbnails := \<lambda>i. Some []\<rparr>) e lc options w"
proof -
  let ?c = "client\<lparr>getDocumentThumbnails := \<lambda>i. Some []\<rparr>"
  have "fetchVersions ?c documentId = fetchVersions client documentId"
    by (simp add: fetchVersions_def)
  moreover have "fetchMainWorkspaceId ?c documentId = fetchMainWorkspaceId client documentId"
    by (simp add: fetchMainWorkspaceId_def)
  moreover have t: "fetchThumbnails ?c documentId = []" "fetchThumbnails client documentId = []"
    using assms(2) by (simp_all add: fetchThumbnails_def)
  moreover have "materializeThumbnail c documentId doc [] w = w" for doc c
    by (simp add: materializeThumbnail_def)
  ultimately show ?thesis
    using assms(1) by (simp add: syncDocuments_def Let_def cong: option.case_cong)
qed

lemma workspaces_failure:
  assumes "toStr (document options) = Some documentId"
    and "getWorkspaces client documentId = None"
  shows "syncDocuments client e lc options w
         = syncDocuments (client\<lparr>getWorkspaces := \<lambda>i. Some (JArr [])\<rparr>) e lc options w"
proof -
  let ?c = "client\<lparr>getWorkspaces := \<lambda>i. Some (JArr [])\<rparr>"
  have "fetchVersions ?c documentId = fetchVersions client documentId"
    by (simp add: fetchVersions_def)
  moreover have "fetchMainWorkspaceId ?c documentId = fetchMainWorkspaceId client documentId"
    using assms(2) by (simp add: fetchMainWorkspaceId_def)
  moreover have "fetchThumbnails ?c documentId = fetchThumbnails client documentId"
    by (simp add: fetchThumbnails_def)
  moreover have "materializeThumbnail ?c = materializeThumbnail client"
    by (rule materializeThumbnail_cong) simp
  ultimately show ?thesis
    using assms(1) by (simp add: syncDocuments_def Let_def cong: option.case_cong)
qed

text \<open>
  C5. When the fetch of the core metadata succeeds with metadata the run can work with,
  and the prior record can be merged, the run completes whatever the three other
  fetches do, and the record has the title and the description of the metadata. A
  fetch of versions, thumbnails or workspaces that throws leaves \<open>versions = []\<close>,
  \<open>thumbnails = []\<close>, no \<open>mainWorkspaceId\<close>, whatever the prior record held, and the
  run is in every other respect the run in which that fetch returned an empty list.
\<close>

theorem partial_failure_isolation:
  assumes "toStr (document options) = Some documentId"
    and "getDocument client documentId = Some doc"
    and "metadataOk doc"
    and "priorOk (existingRecord client lc options w)"
  shows "\<exists>written w'.
           syncDocuments client e lc options w = (Completed, w')
         \<and> synced client e lc options w = Some written
         \<and> optGet written ''title'' = optGet doc ''name''
         \<and> isStr (optGet written ''title'')
         \<and> optGet written ''description'' = persist (orElse (optGet doc ''description'') (JStr []))
         \<and> hasProp written ''description''
         \<and> (getDocumentVersions client documentId = None \<longrightarrow>
               optGet written ''versions'' = JArr []
             \<and> syncDocuments client e lc options w
               = syncDocuments (client\<lparr>getDocumentVersions := \<lambda>i. Some (JArr [])\<rparr>) e lc options w)
         \<and> (getDocumentThumbnails client documentId = None \<longrightarrow>
               optGet written ''thumbnails'' = JArr []
             \<and> syncDocuments client e lc options w
               = syncDocuments (client\<lparr>getDocumentThumbnails := \<lambda>i. Some []\<rparr>) e lc options w)
         \<and> (getWorkspaces client documentId = None \<longrightarrow>
               \<not> hasProp written ''mainWorkspaceId''
             \<and> syncDocuments client e lc options w
               = syncDocuments (client\<lparr>getWorkspaces := \<lambda>i. Some (JArr [])\<rparr>) e lc options w)"
proof -
  from syncDocuments_completes [OF assms] obtain written w' where
    c: "syncDocuments client e lc options w = (Completed, w')"
    and s: "synced client e lc options w = Some written"
    by blast
  from synced_Some [OF s] assms(1,2) have
    dd: "documentData e (document options) documentId doc
              (fetchMainWorkspaceId client documentId) (fetchVersions client documentId)
              (fetchThumbnails client documentId)
              (existingRecord client lc options w) = Some written"
    by auto
  from documentData_Some [OF dd] obtain remote user createdAt where
    wr: "written = persist (JObj
             [(''documentId'', document options),
              (''title'', optGet doc ''name''),
              (''description'', orElse (optGet doc ''description'') (JStr [])),
              (''onshapeUrl'', JStr (''https://cad.onshape.com/documents/'' @ documentId)),
              (''mainWorkspaceId'', fetchMainWorkspaceId client documentId),
              (''createdAt'', createdAt),
              (''versions'', JArr (fetchVersions client documentId)),
              (''thumbnails'', JArr (map JObj (fetchThumbnails client documentId))),
              (''labels'', JArr (spreadSet (remote @ user))),
              (''userData'', JObj (buildUserData e (existingRecord client lc options w) user))])"
    by blast
  from assms(3) obtain name where n: "optGet doc ''name'' = JStr name"
    by (cases "optGet doc ''name''") (auto simp: metadataOk_def isStr_def)
  have t: "optGet written ''title'' = optGet doc ''name''"
    unfolding wr by (subst optGet_persist) (simp_all add: n)
  have ts: "isStr (optGet written ''title'')"
    by (simp add: t n isStr_def)
  have de: "optGet written ''description'' = persist (orElse (optGet doc ''description'') (JStr []))"
    unfolding wr by (subst optGet_persist) simp_all
  have dh: "hasProp written ''description''"
    unfolding wr by (subst hasProp_persist) simp_all
  have v: "optGet written ''versions'' = JArr []" if "getDocumentVersions client documentId = None"
    unfolding wr using that by (subst optGet_persist) (simp_all add: fetchVersions_def)
  have th: "optGet written ''thumbnails'' = JArr []" if "getDocumentThumbnails client documentId = None"
    unfolding wr using that by (subst optGet_persist) (simp_all add: fetchThumbnails_def)
  have m: "\<not> hasProp written ''mainWorkspaceId''" if "getWorkspaces client documentId = None"
    unfolding wr using that by (subst hasProp_persist) (simp_all add: fetchMainWorkspaceId_def)
  note vf = versions_failure [OF assms(1), of client e lc w]
  note tf = thumbnails_failure [OF assms(1), of client e lc w]
  note wf = workspaces_failure [OF assms(1), of client e lc w]
  show ?thesis
    by (intro exI [of _ written] exI [of _ w'] conjI impI)
       (fact c s t ts de dh | erule v th m vf tf wf)+
qed

text \<open>
  In the example the prior record holds the version \<open>V1\<close> and the fetch of versions
  throws: the run completes with the title and no versions.
\<close>

theorem partial_failure_isolation_witness:
  "toStr (document demoOptions) = Some ''d1''
   \<and> getDocument versionsDown ''d1'' = Some demoDocument
   \<and> metadataOk demoDocument
   \<and> priorOk (existingRecord versionsDown asciiLower demoOptions (worldWith demoFirst))
   \<and> getDocumentVersions versionsDown ''d1'' = None
   \<and> optGet (existingRecord versionsDown asciiLower demoOptions (worldWith demoFirst)) ''versions''
       \<noteq> JArr []
   \<and> (\<exists>written w'.
         syncDocuments versionsDown demoEnv asciiLower demoOptions (worldWith demoFirst)
           = (Completed, w')
       \<and> synced versionsDown demoEnv asciiLower demoOptions (worldWith demoFirst) = Some written
       \<and> optGet written ''title'' = JStr ''My Part''
       \<and> optGet written ''description'' = JStr ''A part''
       \<and> optGet written ''versions'' = JArr [])"
proof -
  have a: "toStr (document demoOptions) = Some ''d1''"
    by (simp add: demo_options)
  have b: "getDocument versionsDown ''d1'' = Some demoDocument"
    by (simp add: versionsDown_def demo_getDocument)
  have c: "metadataOk demoDocument"
    by (simp add: metadataOk_def demoDocument_def isStr_def readableLabels_def printable_def
        nullish_def)
  have "outputPathOf versionsDown asciiLower demoOptions = Some (''out'', unitsOfString ''my-part'')"
    by (simp add: outputPathOf_def a b demo_filename demo_options)
  then have e: "existingRecord versionsDown asciiLower demoOptions (worldWith demoFirst) = demoFirst"
    by (simp add: existingRecord_def loadExisting_def demo_worldWith)
  have d: "priorOk (existingRecord versionsDown asciiLower demoOptions (worldWith demoFirst))"
    unfolding e by (simp add: priorOk_def demoFirst_def nullish_def)
  have f: "getDocumentVersions versionsDown ''d1'' = None"
    by (simp add: versionsDown_def)
  have g: "optGet (existingRecord versionsDown asciiLower demoOptions (worldWith demoFirst))
             ''versions'' \<noteq> JArr []"
    unfolding e by (simp add: demoFirst_def)
  have n: "optGet demoDocument ''name'' = JStr ''My Part''"
    "persist (orElse (optGet demoDocument ''description'') (JStr [])) = JStr ''A part''"
    by (simp_all add: demoDocument_def orElse_def)
  from partial_failure_isolation [OF a b c d, of demoEnv] f n
  have "\<exists>written w'.
         syncDocuments versionsDown demoEnv asciiLower demoOptions (worldWith demoFirst)
           = (Completed, w')
       \<and> synced versionsDown demoEnv asciiLower demoOptions (worldWith demoFirst) = Some written
       \<and> optGet written ''title'' = JStr ''My Part''
       \<and> optGet written ''description'' = JStr ''A part''
       \<and> optGet written ''versions'' = JArr []"
    by auto
  with a b c d f g show ?thesis by blast
qed

section \<open>Running the same synchronisation twice\<close>

lemma demo_world1_record:
  "records demoWorld1 (''out'', unitsOfString ''my-part'') = Some (Parsed demoFirst)"
  by (simp add: demoWorld1_def)

lemma demo_second_synced:
  "synced demoClient demoEnv asciiLower demoOptions demoWorld1 = Some demoSecond"
  unfolding demo_run_with_prior(1) [OF demo_world1_record]
  by (simp add: demo_versions demo_thumbnails documentData_def demoDocument_def apiLabelNames_def
      userLabelsOf_def labelToString_def get_def nullish_def orElse_def newDate_def spreadSet_def
      setAdd_def buildUserData_def customEntries_def spread_def defaultAuthor_def demoEnv_def
      envOr_def demoFirst_def demoSecond_def demoWritten_def demoAuthor_def
      userDataKnownKeys_def rootKnownKeys_def)

text \<open>
  C1 fails on the code. With no record yet, the first run writes a record whose
  \<open>userData\<close> holds \<open>author\<close> and \<open>labels\<close>. The second run, with the remote state
  unchanged, reads that record and finds \<open>onshapeUrl\<close> and \<open>mainWorkspaceId\<close> at its
  top level: line 184 does not list these two keys, which line 154 and 155 write, so
  they are taken for custom fields and copied into \<open>userData\<close>. The second record
  differs from the first.
\<close>

theorem second_sync_differs:
  "syncDocuments demoClient demoEnv asciiLower demoOptions emptyWorld = (Completed, demoWorld1)
   \<and> synced demoClient demoEnv asciiLower demoOptions emptyWorld = Some demoFirst
   \<and> synced demoClient demoEnv asciiLower demoOptions demoWorld1 = Some demoSecond
   \<and> demoSecond \<noteq> demoFirst
   \<and> ownKeys (optGet demoFirst ''userData'') = [''author'', ''labels'']
   \<and> ownKeys (optGet demoSecond ''userData'')
       = [''author'', ''labels'', ''onshapeUrl'', ''mainWorkspaceId'']
   \<and> optGet (optGet demoSecond ''userData'') ''onshapeUrl''
       = JStr ''https://cad.onshape.com/documents/d1''
   \<and> optGet (optGet demoSecond ''userData'') ''mainWorkspaceId'' = JStr ''w1''"
proof -
  have "demoSecond \<noteq> demoFirst"
    by (simp add: demoSecond_def demoFirst_def demoWritten_def)
  moreover have "ownKeys (optGet demoFirst ''userData'') = [''author'', ''labels'']"
    by (simp add: demoFirst_def ownKeys_def)
  moreover have "ownKeys (optGet demoSecond ''userData'')
       = [''author'', ''labels'', ''onshapeUrl'', ''mainWorkspaceId'']"
    by (simp add: demoSecond_def demoWritten_def ownKeys_def)
  moreover have "optGet (optGet demoSecond ''userData'') ''onshapeUrl''
       = JStr ''https://cad.onshape.com/documents/d1''"
    by (simp add: demoSecond_def demoWritten_def)
  moreover have "optGet (optGet demoSecond ''userData'') ''mainWorkspaceId'' = JStr ''w1''"
    by (simp add: demoSecond_def demoWritten_def)
  ultimately show ?thesis
    using demo_first_run demo_first_synced demo_second_synced by simp
qed

section \<open>Properties of the listing\<close>

lemma itemsOf_Nil: "itemsOf response = [] \<longleftrightarrow> items response = None \<or> items response = Some []"
  by (auto simp: itemsOf_def split: option.splits)

lemma collectPages_stop:
  "itemsOf response = [] \<Longrightarrow> collectPages n api options response acc = Some (Returned acc)"
  by (subst collectPages.simps) (auto simp: itemsOf_Nil)

lemma collectPages_last:
  "itemsOf response \<noteq> [] \<Longrightarrow> nextPage response = None \<Longrightarrow>
   collectPages n api options response acc = Some (Returned (acc @ itemsOf response))"
  by (subst collectPages.simps) (auto simp: itemsOf_def split: option.splits list.splits)

lemma collectPages_more:
  "itemsOf response \<noteq> [] \<Longrightarrow> nextPage response = Some link \<Longrightarrow>
   collectPages (Suc n) api options response acc =
     (case getDocuments api (nextOptions options link) of
        None \<Rightarrow> Some Threw
      | Some response' \<Rightarrow> collectPages n api options response' (acc @ itemsOf response))"
  by (subst collectPages.simps) (auto simp: itemsOf_def split: option.splits list.splits)

lemma collectPages_fuel:
  "itemsOf response \<noteq> [] \<Longrightarrow> nextPage response = Some link \<Longrightarrow>
   collectPages 0 api options response acc = None"
  by (subst collectPages.simps) (auto simp: itemsOf_def split: option.splits list.splits)

lemma pagesRead_collect:
  assumes "pagesRead api options response ps"
  shows "length ps \<le> Suc n \<Longrightarrow>
         collectPages n api options response acc = Some (Returned (acc @ concat (map itemsOf ps)))"
  using assms
proof (induction arbitrary: n acc rule: pagesRead.induct)
  case (lastPage response api options)
  then show ?case
    by (cases "itemsOf response = []") (auto simp: collectPages_stop collectPages_last)
next
  case (morePages response link api options response' rest)
  from morePages.hyps(4) have "rest \<noteq> []"
    by (cases rule: pagesRead.cases) auto
  with morePages.prems obtain m where n: "n = Suc m" and l: "length rest \<le> Suc m"
    by (cases n; cases rest) auto
  show ?case
    using morePages.IH [OF l, of "acc @ itemsOf response"] morePages.hyps(1,2,3) n
    by (simp add: collectPages_more)
qed

lemma collect_pagesRead:
  "collectPages n api options response acc = Some (Returned docs) \<Longrightarrow>
   \<exists>ps. pagesRead api options response ps \<and> length ps \<le> Suc n
        \<and> docs = acc @ concat (map itemsOf ps)"
proof (induction n arbitrary: response acc)
  case 0
  show ?case
  proof (cases "itemsOf response = [] \<or> nextPage response = None")
    case True
    then have "pagesRead api options response [response]" by (rule lastPage)
    from pagesRead_collect [OF this, of 0 acc] "0.prems" this show ?thesis
      by (intro exI [of _ "[response]"]) auto
  next
    case False
    then obtain link where "itemsOf response \<noteq> []" "nextPage response = Some link" by auto
    with "0.prems" show ?thesis by (simp add: collectPages_fuel)
  qed
next
  case (Suc n)
  show ?case
  proof (cases "itemsOf response = [] \<or> nextPage response = None")
    case True
    then have "pagesRead api options response [response]" by (rule lastPage)
    from pagesRead_collect [OF this, of "Suc n" acc] Suc.prems this show ?thesis
      by (intro exI [of _ "[response]"]) auto
  next
    case False
    then obtain link where i: "itemsOf response \<noteq> []" and l: "nextPage response = Some link"
      by auto
    with Suc.prems obtain response' where
      g: "getDocuments api (nextOptions options link) = Some response'"
      and c: "collectPages n api options response' (acc @ itemsOf response) = Some (Returned docs)"
      by (auto simp: collectPages_more split: option.splits)
    from Suc.IH [OF c] obtain ps where
      ps: "pagesRead api options response' ps" "length ps \<le> Suc n"
          "docs = (acc @ itemsOf response) @ concat (map itemsOf ps)"
      by blast
    from morePages [OF i l g ps(1)] ps(2,3) show ?thesis
      by (intro exI [of _ "response # ps"]) auto
  qed
qed

lemma filterThrowing_filter:
  "filterThrowing p xs = Some ys \<Longrightarrow> ys = filter (\<lambda>x. p x = Some True) xs"
  by (induction xs arbitrary: ys) (auto split: option.splits if_splits)

lemma filterThrowing_hasLabel:
  "filterThrowing (hasLabel label) xs = Some ys \<Longrightarrow> ys = filter (carriesLabel label) xs"
proof -
  have "carriesLabel label = (\<lambda>doc. hasLabel label doc = Some True)"
    by (simp add: carriesLabel_def fun_eq_iff)
  then show "filterThrowing (hasLabel label) xs = Some ys \<Longrightarrow> ys = filter (carriesLabel label) xs"
    using filterThrowing_filter [of "hasLabel label" xs ys] by simp
qed

lemma getDocuments_unlabelled:
  assumes "\<forall>params. labelParam params = None \<longrightarrow> api' params = api params"
    and "labelOpt options = None"
  shows "getDocuments api' options = getDocuments api options"
  using assms by (simp add: getDocuments_def whenSet_def)

lemma collectPages_unlabelled:
  assumes "\<forall>params. labelParam params = None \<longrightarrow> api' params = api params"
    and "labelOpt options = None"
  shows "collectPages n api' options response acc = collectPages n api options response acc"
proof (induction n arbitrary: response acc)
  case 0
  show ?case
    by (subst collectPages.simps, subst (2) collectPages.simps)
       (simp cong: option.case_cong list.case_cong)
next
  case (Suc n)
  have "labelOpt (nextOptions options link) = None" for link
    using assms(2) by (simp add: nextOptions_def)
  then have g: "getDocuments api' (nextOptions options link) = getDocuments api (nextOptions options link)"
    for link
    using getDocuments_unlabelled [OF assms(1)] by blast
  show ?case
    by (subst collectPages.simps, subst (2) collectPages.simps)
       (simp add: g Suc.IH cong: option.case_cong list.case_cong)
qed

lemma getDocumentsByLabel_unlabelled:
  assumes "\<forall>params. labelParam params = None \<longrightarrow> api' params = api params"
  shows "getDocumentsByLabel n api' label filter' = getDocumentsByLabel n api label filter'"
proof -
  let ?o = "categoryOnly filter'"
  have l: "labelOpt ?o = None" "labelOpt (?o\<lparr>limitOpt := Some 20\<rparr>) = None"
    by (simp_all add: categoryOnly_def)
  have "getAllDocuments n api' ?o = getAllDocuments n api ?o"
    unfolding getAllDocuments_def
    using getDocuments_unlabelled [OF assms l(2)] collectPages_unlabelled [OF assms l(1)]
    by (simp cong: option.case_cong)
  then show ?thesis
    by (simp add: getDocumentsByLabel_def)
qed

lemma filterThrowing_total:
  "list_all (\<lambda>x. p x \<noteq> None) xs \<Longrightarrow> filterThrowing p xs \<noteq> None"
  by (induction xs) (auto split: option.splits)

lemma hasLabel_total: "\<not> nullish doc \<Longrightarrow> hasLabel label doc \<noteq> None"
  by (auto simp: hasLabel_def get_def split: json.splits)

text \<open>
  C8, amended. The selector asks for the first page of the category without a label,
  and reads on while the page in hand has items and a pointer. When that comes to an
  end within the requests allowed, it returns, of all items of the pages read, in
  order, exactly the documents whose labels are an array holding an object named as
  the label asked for (or throws, when an item is \<open>null\<close>). Conversely whatever it
  returns is obtained so. Its result is the same for any server that answers alike
  all requests that carry no label.
\<close>

theorem label_selection:
  assumes "getDocuments api ((categoryOnly filter')\<lparr>limitOpt := Some 20\<rparr>) = Some first"
    and "pagesRead api (categoryOnly filter') first ps"
    and "length ps \<le> Suc n"
  shows "getDocumentsByLabel n api label filter' =
           Some (case filterThrowing (hasLabel label) (concat (map itemsOf ps)) of
                   None \<Rightarrow> Threw
                 | Some matchingDocs \<Rightarrow> Returned matchingDocs)
       \<and> (\<forall>matchingDocs.
             filterThrowing (hasLabel label) (concat (map itemsOf ps)) = Some matchingDocs \<longrightarrow>
             matchingDocs = filter (carriesLabel label) (concat (map itemsOf ps)))
       \<and> (list_all (\<lambda>doc. \<not> nullish doc) (concat (map itemsOf ps)) \<longrightarrow>
             filterThrowing (hasLabel label) (concat (map itemsOf ps)) \<noteq> None)
       \<and> (\<forall>m selected.
             getDocumentsByLabel m api label filter' = Some (Returned selected) \<longrightarrow>
             selected = filter (carriesLabel label) (concat (map itemsOf ps)))
       \<and> (\<forall>api'. (\<forall>params. labelParam params = None \<longrightarrow> api' params = api params) \<longrightarrow>
             getDocumentsByLabel n api' label filter' = getDocumentsByLabel n api label filter')"
proof -
  let ?all = "concat (map itemsOf ps)"
  have c: "collectPages n api (categoryOnly filter') first [] = Some (Returned ?all)"
    using pagesRead_collect [OF assms(2,3), of "[]"] by simp
  then have a: "getDocumentsByLabel n api label filter' =
           Some (case filterThrowing (hasLabel label) ?all of
                   None \<Rightarrow> Threw
                 | Some matchingDocs \<Rightarrow> Returned matchingDocs)"
    using assms(1)
    by (simp add: getDocumentsByLabel_def getAllDocuments_def split: option.splits)
  have b: "matchingDocs = filter (carriesLabel label) ?all"
    if "filterThrowing (hasLabel label) ?all = Some matchingDocs" for matchingDocs
    using that by (rule filterThrowing_hasLabel)
  have t: "filterThrowing (hasLabel label) ?all \<noteq> None"
    if "list_all (\<lambda>doc. \<not> nullish doc) ?all"
  proof -
    from that have "list_all (\<lambda>doc. hasLabel label doc \<noteq> None) ?all"
      using hasLabel_total by (auto simp: list_all_iff)
    then show ?thesis by (rule filterThrowing_total)
  qed
  have d: "selected = filter (carriesLabel label) ?all"
    if "getDocumentsByLabel m api label filter' = Some (Returned selected)" for m selected
  proof -
    from that assms(1) obtain docs where
      cm: "collectPages m api (categoryOnly filter') first [] = Some (Returned docs)"
      and f: "filterThrowing (hasLabel label) docs = Some selected"
      by (auto simp: getDocumentsByLabel_def getAllDocuments_def
               split: option.splits completion.splits)
    from collect_pagesRead [OF cm] obtain qs where
      q: "pagesRead api (categoryOnly filter') first qs" "length qs \<le> Suc m"
         "docs = concat (map itemsOf qs)"
      by auto
    have "collectPages (max m n) api (categoryOnly filter') first [] = Some (Returned docs)"
      using pagesRead_collect [OF q(1), of "max m n" "[]"] q(2,3) by simp
    moreover have "collectPages (max m n) api (categoryOnly filter') first [] = Some (Returned ?all)"
      using pagesRead_collect [OF assms(2), of "max m n" "[]"] assms(3) by simp
    ultimately have "docs = ?all" by simp
    with f show ?thesis by (simp add: filterThrowing_hasLabel)
  qed
  from a b t d getDocumentsByLabel_unlabelled [of _ api n label filter']
  show ?thesis by blast
qed

lemma demo_hasLabel:
  "hasLabel ''indexed'' docA = Some True"
  "hasLabel ''indexed'' docB = Some False"
  "hasLabel ''indexed'' docC = Some True"
  by (simp_all add: hasLabel_def get_def nullish_def docA_def docB_def docC_def isLabelNamed_def)

lemma demo_pages [simp]:
  "itemsOf (pageOf ds link) = ds" "nextPage (pageOf ds link) = link"
  by (simp_all add: itemsOf_def pageOf_def)

lemma twoPages_requests:
  "getDocuments twoPages ((categoryOnly CREATED)\<lparr>limitOpt := Some 20\<rparr>)
     = Some (pageOf [docA, docB] (linkTo 20))"
  "getDocuments twoPages (nextOptions (categoryOnly CREATED) \<lparr>offsetQuery = Some 20, limitQuery = Some 20\<rparr>)
     = Some (pageOf [docC] None)"
  by (simp_all add: getDocuments_def twoPages_def categoryOnly_def nextOptions_def whenSet_def
      withDefault_def)

lemma twoPages_read:
  "pagesRead twoPages (categoryOnly CREATED) (pageOf [docA, docB] (linkTo 20))
     [pageOf [docA, docB] (linkTo 20), pageOf [docC] None]"
proof (rule morePages)
  show "itemsOf (pageOf [docA, docB] (linkTo 20)) \<noteq> []" by simp
  show "nextPage (pageOf [docA, docB] (linkTo 20)) = Some \<lparr>offsetQuery = Some 20, limitQuery = Some 20\<rparr>"
    by (simp add: linkTo_def)
  show "getDocuments twoPages
          (nextOptions (categoryOnly CREATED) \<lparr>offsetQuery = Some 20, limitQuery = Some 20\<rparr>)
        = Some (pageOf [docC] None)"
    by (rule twoPages_requests(2))
  show "pagesRead twoPages (categoryOnly CREATED) (pageOf [docC] None) [pageOf [docC] None]"
    by (rule lastPage) simp
qed

text \<open>
  In the first listing the documents \<open>A\<close> and \<open>C\<close>, one on each page, carry the label.
\<close>

theorem label_selection_witness:
  "getDocuments twoPages ((categoryOnly CREATED)\<lparr>limitOpt := Some 20\<rparr>)
     = Some (pageOf [docA, docB] (linkTo 20))
   \<and> pagesRead twoPages (categoryOnly CREATED) (pageOf [docA, docB] (linkTo 20))
        [pageOf [docA, docB] (linkTo 20), pageOf [docC] None]
   \<and> length [pageOf [docA, docB] (linkTo 20), pageOf [docC] None] \<le> Suc 1
   \<and> getDocumentsByLabel 1 twoPages ''indexed'' CREATED = Some (Returned [docA, docC])"
proof -
  have l: "length [pageOf [docA, docB] (linkTo 20), pageOf [docC] None] \<le> Suc 1"
    by simp
  have f: "filterThrowing (hasLabel ''indexed'')
             (concat (map itemsOf [pageOf [docA, docB] (linkTo 20), pageOf [docC] None]))
           = Some [docA, docC]"
    by (simp add: demo_hasLabel)
  from label_selection [OF twoPages_requests(1) twoPages_read l, of "''indexed''"] f
  have "getDocumentsByLabel 1 twoPages ''indexed'' CREATED = Some (Returned [docA, docC])"
    by simp
  with twoPages_requests(1) twoPages_read l show ?thesis by blast
qed

lemma gapPages_requests:
  "getDocuments gapPages ((categoryOnly CREATED)\<lparr>limitOpt := Some 20\<rparr>)
     = Some (pageOf [docB] (linkTo 20))"
  "getDocuments gapPages (nextOptions (categoryOnly CREATED) \<lparr>offsetQuery = Some 20, limitQuery = Some 20\<rparr>)
     = Some (pageOf [] (linkTo 40))"
  "getDocuments gapPages (nextOptions (categoryOnly CREATED) \<lparr>offsetQuery = Some 40, limitQuery = Some 20\<rparr>)
     = Some (pageOf [docC] None)"
  by (simp_all add: getDocuments_def gapPages_def categoryOnly_def nextOptions_def whenSet_def
      withDefault_def)

lemma gapPages_to_the_end:
  "pagesToTheEnd gapPages (categoryOnly CREATED) (pageOf [docB] (linkTo 20))
     [pageOf [docB] (linkTo 20), pageOf [] (linkTo 40), pageOf [docC] None]"
proof (rule pointedPage)
  show "nextPage (pageOf [docB] (linkTo 20)) = Some \<lparr>offsetQuery = Some 20, limitQuery = Some 20\<rparr>"
    by (simp add: linkTo_def)
  show "getDocuments gapPages
          (nextOptions (categoryOnly CREATED) \<lparr>offsetQuery = Some 20, limitQuery = Some 20\<rparr>)
        = Some (pageOf [] (linkTo 40))"
    by (rule gapPages_requests(2))
  show "pagesToTheEnd gapPages (categoryOnly CREATED) (pageOf [] (linkTo 40))
          [pageOf [] (linkTo 40), pageOf [docC] None]"
  proof (rule pointedPage)
    show "nextPage (pageOf [] (linkTo 40)) = Some \<lparr>offsetQuery = Some 40, limitQuery = Some 20\<rparr>"
      by (simp add: linkTo_def)
    show "getDocuments gapPages
            (nextOptions (categoryOnly CREATED) \<lparr>offsetQuery = Some 40, limitQuery = Some 20\<rparr>)
          = Some (pageOf [docC] None)"
      by (rule gapPages_requests(3))
    show "pagesToTheEnd gapPages (categoryOnly CREATED) (pageOf [docC] None) [pageOf [docC] None]"
      by (rule endPage) simp
  qed
qed

lemma gapPages_selected:
  "getDocumentsByLabel 5 gapPages ''indexed'' CREATED = Some (Returned [])"
proof -
  have r: "pagesRead gapPages (categoryOnly CREATED) (pageOf [docB] (linkTo 20))
             [pageOf [docB] (linkTo 20), pageOf [] (linkTo 40)]"
  proof (rule morePages)
    show "itemsOf (pageOf [docB] (linkTo 20)) \<noteq> []" by simp
    show "nextPage (pageOf [docB] (linkTo 20)) = Some \<lparr>offsetQuery = Some 20, limitQuery = Some 20\<rparr>"
      by (simp add: linkTo_def)
    show "getDocuments gapPages
          (nextOptions (categoryOnly CREATED) \<lparr>offsetQuery = Some 20, limitQuery = Some 20\<rparr>)
        = Some (pageOf [] (linkTo 40))"
      by (rule gapPages_requests(2))
    show "pagesRead gapPages (categoryOnly CREATED) (pageOf [] (linkTo 40)) [pageOf [] (linkTo 40)]"
      by (rule lastPage) simp
  qed
  have "collectPages 5 gapPages (categoryOnly CREATED) (pageOf [docB] (linkTo 20)) []
        = Some (Returned [docB])"
    using pagesRead_collect [OF r, of 5 "[]"] by simp
  then show ?thesis
    by (simp add: getDocumentsByLabel_def getAllDocuments_def gapPages_requests(1) demo_hasLabel)
qed

text \<open>
  C8 as stated fails. In the second listing the pointers lead from the first page over
  an empty page to a third page, which holds the one document that carries the label.
  Followed until no next page remains, the listing holds it; the selector stops at the
  empty page (line 239) and returns no document.
\<close>

theorem label_selection_counterexample:
  "getDocuments gapPages ((categoryOnly CREATED)\<lparr>limitOpt := Some 20\<rparr>)
     = Some (pageOf [docB] (linkTo 20))
   \<and> pagesToTheEnd gapPages (categoryOnly CREATED) (pageOf [docB] (linkTo 20))
        [pageOf [docB] (linkTo 20), pageOf [] (linkTo 40), pageOf [docC] None]
   \<and> filter (carriesLabel ''indexed'')
        (concat (map itemsOf [pageOf [docB] (linkTo 20), pageOf [] (linkTo 40), pageOf [docC] None]))
       = [docC]
   \<and> getDocumentsByLabel 5 gapPages ''indexed'' CREATED = Some (Returned [])"
proof -
  have "filter (carriesLabel ''indexed'')
        (concat (map itemsOf [pageOf [docB] (linkTo 20), pageOf [] (linkTo 40), pageOf [docC] None]))
       = [docC]"
    by (simp add: demo_hasLabel carriesLabel_def)
  with gapPages_requests(1) gapPages_to_the_end gapPages_selected show ?thesis by blast
qed

section \<open>A failure inside a batch\<close>

lemma syncDocuments_no_metadata:
  "toStr (document options) = Some documentId \<Longrightarrow> getDocument client documentId = None \<Longrightarrow>
   syncDocuments client e lc options w = (Exited 1, w)"
  by (simp add: syncDocuments_def)

lemma syncDocuments_Exited_records:
  "syncDocuments client e lc options w = (Exited code, w') \<Longrightarrow> records w' = records w"
  by (auto simp: syncDocuments_def Let_def split: option.splits)

lemma processDocuments_exit:
  assumes "Option.bind (get doc ''name'') toStr = Some name"
    and "syncDocuments client e lc
           \<lparr>document = optGet doc ''id'', outputDir = ''./src/content/documents''\<rparr>
           (content s) = (Exited code, w')"
  shows "processDocuments client typst e lc options (doc # rest) s
         = (Exited code, s\<lparr>content := w', journal := journal s @ [Processing name]\<rparr>)"
  using assms by (simp add: Let_def)

lemma processDocuments_completed:
  assumes "Option.bind (get doc ''name'') toStr = Some name"
    and "syncDocuments client e lc
           \<lparr>document = optGet doc ''id'', outputDir = ''./src/content/documents''\<rparr>
           (content s) = (Completed, w')"
    and "\<not> generatePdf options"
  shows "processDocuments client typst e lc options (doc # rest) s
         = processDocuments client typst e lc options rest
             (s\<lparr>content := w', journal := journal s @ [Processing name, CompletedLine name]\<rparr>)"
  using assms by (simp add: Let_def)

lemma three_found:
  "findDocuments n threeListed asciiLower batchOptions
   = Some (Returned [listed ''d1'' ''First'', listed ''d2'' ''Second'', listed ''d3'' ''Third''])"
proof -
  let ?first = "pageOf [listed ''d1'' ''First'', listed ''d2'' ''Second'', listed ''d3'' ''Third''] None"
  have f: "parseDocumentFilter asciiLower (syncFilter batchOptions) = CREATED"
    by (simp add: parseDocumentFilter_def batchOptions_def whenSet_def asciiLower_def unitsOfString_def)
  have g: "getDocuments threeListed opts = Some ?first" for opts
    by (simp add: getDocuments_def threeListed_def)
  have r: "pagesRead threeListed (categoryOnly CREATED) ?first [?first]"
    by (rule lastPage) simp
  have h: "filterThrowing (hasLabel ''indexed'') (concat (map itemsOf [?first]))
           = Some [listed ''d1'' ''First'', listed ''d2'' ''Second'', listed ''d3'' ''Third'']"
    by (simp add: hasLabel_def get_def nullish_def listed_def isLabelNamed_def)
  have "collectPages n threeListed (categoryOnly CREATED) ?first [] = Some (Returned (concat (map itemsOf [?first])))"
    using pagesRead_collect [OF r, of n "[]"] by simp
  then have "getDocumentsByLabel n threeListed ''indexed'' CREATED
        = Some (Returned [listed ''d1'' ''First'', listed ''d2'' ''Second'', listed ''d3'' ''Third''])"
    using h by (simp add: getDocumentsByLabel_def getAllDocuments_def g)
  then show ?thesis
    by (simp add: findDocuments_def f) (simp add: batchOptions_def whenSet_def)
qed

lemma listed_name:
  "Option.bind (get (listed documentId name) ''name'') toStr = Some name"
  "optGet (listed documentId name) ''id'' = JStr documentId"
  by (simp_all add: listed_def get_def nullish_def)

lemma first_synced:
  "\<exists>w'. syncDocuments secondDown demoEnv asciiLower
          \<lparr>document = JStr ''d1'', outputDir = ''./src/content/documents''\<rparr> emptyWorld
        = (Completed, w')
      \<and> records w' (''./src/content/documents'', unitsOfString ''third'') = None"
proof -
  let ?o = "\<lparr>document = JStr ''d1'', outputDir = ''./src/content/documents''\<rparr>"
  have a: "toStr (document ?o) = Some ''d1''" by simp
  have b: "getDocument secondDown ''d1'' = Some (metadataOf ''First'')"
    by (simp add: secondDown_def)
  have c: "metadataOk (metadataOf ''First'')"
    by (simp add: metadataOk_def metadataOf_def isStr_def readableLabels_def printable_def)
  have "filenameOf asciiLower (metadataOf ''First'') = Some (unitsOfString ''first'')"
    by (simp add: filenameOf_def metadataOf_def generateFilenameFromTitle_def stripOthers_def
        asciiLower_def unitsOfString_def isSpace_def isSlugUnit_def)
  then have p: "outputPathOf secondDown asciiLower ?o
                = Some (''./src/content/documents'', unitsOfString ''first'')"
    by (simp add: outputPathOf_def b)
  then have "existingRecord secondDown asciiLower ?o emptyWorld = JObj []"
    by (simp add: existingRecord_def loadExisting_def emptyWorld_def)
  then have d: "priorOk (existingRecord secondDown asciiLower ?o emptyWorld)"
    by (simp add: priorOk_def nullish_def)
  from syncDocuments_completes [OF a b c d, of demoEnv] obtain w' where
    w: "syncDocuments secondDown demoEnv asciiLower ?o emptyWorld = (Completed, w')"
    by blast
  from syncDocuments_Completed [OF w] p obtain written where
    "records w' = (records emptyWorld)((''./src/content/documents'', unitsOfString ''first'') \<mapsto> Parsed written)"
    by (auto simp: outputPathOf_def b)
  then have "records w' (''./src/content/documents'', unitsOfString ''third'') = None"
    by (simp add: emptyWorld_def unitsOfString_def)
  with w show ?thesis by blast
qed

text \<open>
  C2 fails on the code. The batch finds three documents. The first is synchronised.
  For the second the fetch of the core metadata throws; \<open>syncDocuments\<close> catches
  that itself and calls \<open>process.exit(1)\<close> (sync.ts, line 201), so the handler of the
  loop, which is written to go on with the next document (bulk.ts, line 129), never
  runs: the process ends with code 1, the third document is not attempted and has
  no record, and no summary is printed.
\<close>

theorem batch_ends_at_first_failure:
  "findDocuments 0 threeListed asciiLower batchOptions
     = Some (Returned [listed ''d1'' ''First'', listed ''d2'' ''Second'', listed ''d3'' ''Third''])
   \<and> getDocument secondDown ''d2'' = None
   \<and> endOf (bulkSync 0 threeListed secondDown noTemplates demoEnv asciiLower batchOptions emptySite)
       = Some (Exited 1)
   \<and> journalOf (bulkSync 0 threeListed secondDown noTemplates demoEnv asciiLower batchOptions emptySite)
       = [Processing ''First'', CompletedLine ''First'', Processing ''Second'']
   \<and> recordOf (bulkSync 0 threeListed secondDown noTemplates demoEnv asciiLower batchOptions emptySite)
        ''third'' = None"
proof -
  let ?docs = "[listed ''d1'' ''First'', listed ''d2'' ''Second'', listed ''d3'' ''Third'']"
  from first_synced obtain w' where
    w: "syncDocuments secondDown demoEnv asciiLower
          \<lparr>document = JStr ''d1'', outputDir = ''./src/content/documents''\<rparr> emptyWorld
        = (Completed, w')"
    and t: "records w' (''./src/content/documents'', unitsOfString ''third'') = None"
    by blast
  have g: "\<not> generatePdf batchOptions"
    by (simp add: batchOptions_def)
  have n: "getDocument secondDown ''d2'' = None"
    by (simp add: secondDown_def)
  have x: "syncDocuments secondDown demoEnv asciiLower
          \<lparr>document = JStr ''d2'', outputDir = ''./src/content/documents''\<rparr> w' = (Exited 1, w')"
    by (rule syncDocuments_no_metadata [OF _ n]) simp
  let ?s1 = "emptySite\<lparr>content := w', journal := [Processing ''First'', CompletedLine ''First'']\<rparr>"
  have w0: "syncDocuments secondDown demoEnv asciiLower
          \<lparr>document = optGet (listed ''d1'' ''First'') ''id'', outputDir = ''./src/content/documents''\<rparr>
          (content emptySite) = (Completed, w')"
    using w by (simp add: listed_name emptySite_def)
  have x0: "syncDocuments secondDown demoEnv asciiLower
          \<lparr>document = optGet (listed ''d2'' ''Second'') ''id'', outputDir = ''./src/content/documents''\<rparr>
          (content ?s1) = (Exited 1, w')"
    using x by (simp add: listed_name)
  have step1: "processDocuments secondDown noTemplates demoEnv asciiLower batchOptions ?docs emptySite
        = processDocuments secondDown noTemplates demoEnv asciiLower batchOptions
            [listed ''d2'' ''Second'', listed ''d3'' ''Third''] ?s1"
    using processDocuments_completed [OF listed_name(1) w0 g, of noTemplates]
    by (simp add: emptySite_def)
  have step2: "processDocuments secondDown noTemplates demoEnv asciiLower batchOptions
            [listed ''d2'' ''Second'', listed ''d3'' ''Third''] ?s1
        = (Exited 1, emptySite\<lparr>content := w',
             journal := [Processing ''First'', CompletedLine ''First'', Processing ''Second'']\<rparr>)"
    using processDocuments_exit [OF listed_name(1) x0, of noTemplates batchOptions]
    by simp
  from step1 step2
  have "processDocuments secondDown noTemplates demoEnv asciiLower batchOptions ?docs emptySite
        = (Exited 1, emptySite\<lparr>content := w',
             journal := [Processing ''First'', CompletedLine ''First'', Processing ''Second'']\<rparr>)"
    by simp
  then have b: "bulkSync 0 threeListed secondDown noTemplates demoEnv asciiLower batchOptions emptySite
        = Some (Exited 1, emptySite\<lparr>content := w',
             journal := [Processing ''First'', CompletedLine ''First'', Processing ''Second'']\<rparr>)"
    by (simp add: bulkSync_def three_found)
  show ?thesis
    unfolding b using three_found [of 0] n t
    by (simp add: endOf_def journalOf_def recordOf_def)
qed

section \<open>Who writes pdfElementId\<close>

lemma map_of_persistFields_defined:
  "map_of kvs k = Some v \<Longrightarrow> v \<noteq> JUndefined \<Longrightarrow> map_of (persistFields kvs) k = Some (persist v)"
  by (induction kvs) (auto split: if_splits)

lemma optGet_persist_setProp:
  "v \<noteq> JUndefined \<Longrightarrow> optGet (persist (JObj (setProp kvs (k, v)))) k = persist v"
  by (simp add: map_of_persistFields_defined map_of_setProp)

lemma storeElementId_stored:
  assumes "storeElementId docData elementId = Some written"
    and "elementId \<noteq> JUndefined"
  shows "optGet (optGet written ''userData'') ''pdfElementId'' = persist elementId
       \<or> optGet (optGet written ''userData'') ''pdfElementId''
           = optGet (optGet docData ''userData'') ''pdfElementId''"
proof (cases docData)
  case (JObj kvs)
  show ?thesis
  proof (cases "orElse (optGet docData ''userData'') (JObj [])")
    case u: (JObj ukvs)
    with assms JObj have "written = persist (JObj (setProp kvs
                 (''userData'', JObj (setProp ukvs (''pdfElementId'', elementId)))))"
      by (simp add: storeElementId_def)
    then have "optGet written ''userData'' = persist (JObj (setProp ukvs (''pdfElementId'', elementId)))"
      by (simp only: optGet_persist_setProp json.distinct simp_thms)
    then show ?thesis
      using assms(2) by (simp only: optGet_persist_setProp simp_thms)
  next
    case u: (JArr xs)
    then have o: "optGet docData ''userData'' = JArr xs"
      by (auto simp: orElse_def split: if_splits)
    from assms JObj u have "written = persist (JObj (setProp kvs (''userData'', JArr xs)))"
      by (simp add: storeElementId_def)
    then have "optGet written ''userData'' = persist (JArr xs)"
      by (simp only: optGet_persist_setProp json.distinct simp_thms)
    with o show ?thesis by simp
  next
    case u: (JDate x)
    then have o: "optGet docData ''userData'' = JDate x"
      by (auto simp: orElse_def split: if_splits)
    from assms JObj u have "written = persist (JObj (setProp kvs (''userData'', JDate x)))"
      by (simp add: storeElementId_def)
    then have "optGet written ''userData'' = persist (JDate x)"
      by (simp only: optGet_persist_setProp json.distinct simp_thms)
    with o show ?thesis by simp
  qed (use assms JObj in \<open>simp_all add: storeElementId_def\<close>)
next
  case (JArr xs)
  with assms show ?thesis by (auto simp: storeElementId_def)
next
  case (JDate x)
  with assms show ?thesis by (auto simp: storeElementId_def)
qed (use assms in \<open>simp_all add: storeElementId_def\<close>)

lemma upload_existing:
  assumes "truthy (storedPdfElementId s (jsonPathOf options))"
  shows "\<exists>out calls. uploadPDF client options s = (out, s, calls)
           \<and> (calls = []
              \<or> (\<exists>workspaceId pdfBuffer filename displayName.
                    calls = [UpdateCall (uploadDocument options) workspaceId
                              (storedPdfElementId s (jsonPathOf options)) pdfBuffer filename
                              displayName]))"
proof -
  from assms obtain docData where
    r: "records (content s) (jsonPathOf options) = Some (Parsed docData)"
    and t: "truthy (optGet (optGet docData ''userData'') ''pdfElementId'')"
    and e: "storedPdfElementId s (jsonPathOf options) = optGet (optGet docData ''userData'') ''pdfElementId''"
    by (auto simp: storedPdfElementId_def split: option.splits fileContent.splits)
  show ?thesis
    unfolding e
    by (simp add: uploadPDF_def Let_def r t split: option.splits)
qed

lemma upload_cases:
  assumes "uploadPDF client options s = (out, s', calls)"
  shows "s' = s
       \<or> (\<exists>pdfBuffer workspaceId filename displayName result elementId docData written.
             records (content s) (jsonPathOf options) = Some (Parsed docData)
           \<and> \<not> truthy (optGet (optGet docData ''userData'') ''pdfElementId'')
           \<and> calls = [UploadCall (uploadDocument options) workspaceId pdfBuffer filename displayName]
           \<and> client_uploadPDF client (uploadDocument options) workspaceId pdfBuffer filename displayName
               = Some result
           \<and> get result ''id'' = Some elementId
           \<and> truthy elementId
           \<and> storeElementId docData elementId = Some written
           \<and> s' = s\<lparr>content := (content s)
                      \<lparr>records := (records (content s))(jsonPathOf options \<mapsto> Parsed written)\<rparr>\<rparr>)"
proof (cases "records (content s) (jsonPathOf options)")
  case None
  with assms show ?thesis
    by (auto simp: uploadPDF_def Let_def split: option.splits if_splits)
next
  case (Some f)
  show ?thesis
  proof (cases f)
    case Unparsable
    with assms Some show ?thesis
      by (auto simp: uploadPDF_def Let_def split: option.splits if_splits)
  next
    case (Parsed docData)
    show ?thesis
    proof (cases "truthy (optGet (optGet docData ''userData'') ''pdfElementId'')")
      case True
      with assms Some Parsed show ?thesis
        by (auto simp: uploadPDF_def Let_def split: option.splits if_splits)
    next
      case False
      with assms Some Parsed show ?thesis
        by (simp add: uploadPDF_def Let_def split: option.splits if_splits) blast+
    qed
  qed
qed

lemma upload_changes:
  assumes "uploadPDF client options s = (out, s', calls)"
    and "storedPdfElementId s' path \<noteq> storedPdfElementId s path"
  shows "path = jsonPathOf options
       \<and> \<not> truthy (storedPdfElementId s path)
       \<and> (\<exists>workspaceId pdfBuffer filename displayName result.
             calls = [UploadCall (uploadDocument options) workspaceId pdfBuffer filename displayName]
           \<and> client_uploadPDF client (uploadDocument options) workspaceId pdfBuffer filename displayName
               = Some result
           \<and> truthy (optGet result ''id'')
           \<and> storedPdfElementId s' path = persist (optGet result ''id''))"
proof -
  from upload_cases [OF assms(1)] assms(2)
  obtain pdfBuffer workspaceId filename displayName result elementId docData written where
    r: "records (content s) (jsonPathOf options) = Some (Parsed docData)"
    and n: "\<not> truthy (optGet (optGet docData ''userData'') ''pdfElementId'')"
    and c: "calls = [UploadCall (uploadDocument options) workspaceId pdfBuffer filename displayName]"
    and u: "client_uploadPDF client (uploadDocument options) workspaceId pdfBuffer filename displayName
               = Some result"
    and g: "get result ''id'' = Some elementId"
    and t: "truthy elementId"
    and w: "storeElementId docData elementId = Some written"
    and s': "s' = s\<lparr>content := (content s)
                      \<lparr>records := (records (content s))(jsonPathOf options \<mapsto> Parsed written)\<rparr>\<rparr>"
    by blast
  have p: "path = jsonPathOf options"
  proof (rule ccontr)
    assume "path \<noteq> jsonPathOf options"
    then have "storedPdfElementId s' path = storedPdfElementId s path"
      by (simp add: s' storedPdfElementId_def)
    with assms(2) show False by simp
  qed
  have old: "storedPdfElementId s path = optGet (optGet docData ''userData'') ''pdfElementId''"
    by (simp add: p r storedPdfElementId_def)
  have new: "storedPdfElementId s' path = optGet (optGet written ''userData'') ''pdfElementId''"
    by (simp add: p s' storedPdfElementId_def)
  from t have d: "elementId \<noteq> JUndefined" by auto
  from g have e: "optGet result ''id'' = elementId"
    by (auto simp: get_def split: if_splits)
  from storeElementId_stored [OF w d] assms(2) old new
  have "storedPdfElementId s' path = persist elementId" by auto
  with p n old c u t e show ?thesis by auto
qed

lemma length_persistFields: "length (persistFields kvs) \<le> length kvs"
  by (induction kvs) (auto split: if_splits)

lemma persistFields_fixed:
  "persistFields kvs = kvs \<Longrightarrow> (k, v) \<in> set kvs \<Longrightarrow> v \<noteq> JUndefined \<and> persist v = v"
proof (induction kvs)
  case Nil
  then show ?case by simp
next
  case (Cons p kvs)
  obtain k' v' where p: "p = (k', v')" by (cases p)
  show ?case
  proof (cases "v' = JUndefined")
    case True
    with Cons.prems(1) p have "length (persistFields kvs) = Suc (length kvs)"
      by (metis length_Cons persistFields.simps(2))
    with length_persistFields [of kvs] show ?thesis by simp
  next
    case False
    with Cons p show ?thesis by auto
  qed
qed

lemma persistElems_fixed:
  "persistElems xs = xs \<Longrightarrow> x \<in> set xs \<Longrightarrow> x \<noteq> JUndefined \<and> persist x = x"
  by (induction xs) (auto split: if_splits)

lemma storable_entries:
  assumes "storable v" "(k, x) \<in> set (entries v)"
  shows "storable x \<and> x \<noteq> JUndefined"
proof (cases v)
  case (JObj kvs)
  with assms(2) have "map_of (AList.clearjunk kvs) k = Some x"
    by (simp add: distinct_clearjunk)
  then have "(k, x) \<in> set kvs"
    by (simp add: map_of_clearjunk map_of_SomeD)
  with assms(1) JObj persistFields_fixed [of kvs k x] show ?thesis
    by (simp add: storable_def)
next
  case (JArr xs)
  with assms(2) have "x \<in> set xs"
    by (auto dest: set_zip_rightD)
  with assms(1) JArr persistElems_fixed [of xs x] show ?thesis
    by (simp add: storable_def)
next
  case (JStr str)
  with assms(2) have "x \<in> set (map (\<lambda>c. JStr [c]) str)"
    by (auto dest: set_zip_rightD)
  then show ?thesis by (auto simp: storable_def)
qed (use assms in simp_all)

lemma storable_optGet: "storable v \<Longrightarrow> storable (optGet v k)"
proof (cases v)
  case (JObj kvs)
  assume s: "storable v"
  show ?thesis
  proof (cases "map_of kvs k")
    case None
    with JObj show ?thesis by (simp add: storable_def)
  next
    case (Some x)
    then have "(k, x) \<in> set kvs" by (rule map_of_SomeD)
    with s JObj persistFields_fixed [of kvs k x] Some show ?thesis
      by (simp add: storable_def)
  qed
qed (simp_all add: storable_def)

lemma synced_pdfElementId:
  assumes "synced client e lc options w = Some written"
  shows "optGet (optGet written ''userData'') ''pdfElementId'' =
           persist (case map_of (entries (existingRecord client lc options w)) ''pdfElementId'' of
                      Some rootValue \<Rightarrow> rootValue
                    | None \<Rightarrow>
                        orElse (optGet (optGet (existingRecord client lc options w) ''userData'')
                                  ''pdfElementId'') JUndefined)"
proof -
  from synced_userData [OF assms] obtain userLabels where
    u: "optGet (optGet written ''userData'') ''pdfElementId'' =
          persist (optGet (JObj (buildUserData e (existingRecord client lc options w) userLabels))
                     ''pdfElementId'')"
    by blast
  show ?thesis
    unfolding u
    by (simp add: map_of_buildUserData map_of_customEntries rootKnownKeys_def userDataKnownKeys_def
             split: option.splits)
qed

lemma synced_userData_object:
  assumes "synced client e lc options w = Some written"
  shows "\<exists>userLabels. optGet written ''userData''
           = persist (JObj (buildUserData e (existingRecord client lc options w) userLabels))"
proof -
  from synced_Some [OF assms] obtain documentId doc where
    dd: "documentData e (document options) documentId doc
              (fetchMainWorkspaceId client documentId) (fetchVersions client documentId)
              (fetchThumbnails client documentId)
              (existingRecord client lc options w) = Some written"
    by blast
  from documentData_Some [OF dd] obtain apiNames userLabels createdAt where
    wr: "written = persist (JObj
             [(''documentId'', document options),
              (''title'', optGet doc ''name''),
              (''description'', orElse (optGet doc ''description'') (JStr [])),
              (''onshapeUrl'', JStr (''https://cad.onshape.com/documents/'' @ documentId)),
              (''mainWorkspaceId'', fetchMainWorkspaceId client documentId),
              (''createdAt'', createdAt),
              (''versions'', JArr (fetchVersions client documentId)),
              (''thumbnails'', JArr (map JObj (fetchThumbnails client documentId))),
              (''labels'', JArr (spreadSet (apiNames @ userLabels))),
              (''userData'', JObj (buildUserData e (existingRecord client lc options w) userLabels))])"
    by blast
  have "optGet written ''userData''
        = persist (JObj (buildUserData e (existingRecord client lc options w) userLabels))"
    unfolding wr by (subst optGet_persist) simp_all
  then show ?thesis by blast
qed

lemma hasProp_persisted:
  assumes "distinct (map fst kvs)"
  shows "hasProp (persist (JObj kvs)) k \<longleftrightarrow> optGet (persist (JObj kvs)) k \<noteq> JUndefined"
proof -
  note h = hasProp_persist [OF assms, of k] and o = optGet_persist [OF assms, of k]
  show ?thesis
  proof (cases "map_of kvs k")
    case None
    then have "optGet (JObj kvs) k = JUndefined" by simp
    with None show ?thesis unfolding h o by simp
  next
    case (Some v)
    then have "optGet (JObj kvs) k = v" by simp
    with Some persist_defined [of v] show ?thesis unfolding h o
      by (cases "v = JUndefined") simp_all
  qed
qed

lemma demo_emptyId_reconciled:
  "synced demoClient demoEnv asciiLower demoOptions (worldWith demoEmptyIdPrior) = Some demoFirst"
  unfolding demo_run_with_prior(1) [OF demo_worldWith]
  by (simp add: demo_versions demo_thumbnails documentData_def demoDocument_def apiLabelNames_def
      userLabelsOf_def labelToString_def get_def nullish_def orElse_def newDate_def spreadSet_def
      setAdd_def buildUserData_def customEntries_def spread_def defaultAuthor_def demoEnv_def
      envOr_def demoEmptyIdPrior_def demoFirst_def userDataKnownKeys_def rootKnownKeys_def)

lemma demo_upload_new:
  "uploadPDF demoBlobs demoUpload (siteWith demoFirst) =
     (Completed, siteWith demoUploaded,
      [UploadCall ''d1'' (JStr ''w1'') ''%PDF'' ''my-part.pdf'' (JStr ''My Part'')])"
  by (simp add: uploadPDF_def demoBlobs_def demoUpload_def siteWith_def jsonPathOf_def
      lastSegment_def documentsDir_def demoFirst_def demoUploaded_def demoWritten_def demoAuthor_def
      storeElementId_def reportResult_def get_def nullish_def orElse_def Let_def)

lemma demo_upload_again:
  "uploadPDF demoBlobs demoUpload (siteWith demoUploaded) =
     (Completed, siteWith demoUploaded,
      [UpdateCall ''d1'' (JStr ''w1'') (JStr ''E9'') ''%PDF'' ''my-part.pdf'' (JStr ''My Part'')])"
  by (simp add: uploadPDF_def demoBlobs_def demoUpload_def siteWith_def jsonPathOf_def
      lastSegment_def documentsDir_def demoUploaded_def demoWritten_def demoAuthor_def
      reportResult_def get_def nullish_def orElse_def Let_def)

text \<open>
  C7, amended. Reconciliation makes up no value for \<open>userData.pdfElementId\<close>: when the
  prior record, as parsed from its file, has no \<open>pdfElementId\<close> at the top level, the
  written \<open>userData.pdfElementId\<close> is the prior \<open>userData.pdfElementId\<close> unchanged if
  that is truthy and is absent otherwise; a \<open>pdfElementId\<close> at the top level of the prior
  record is moved into \<open>userData.pdfElementId\<close>. The upload workflow changes no record
  and creates no element when a truthy element id is stored: it calls nothing or the
  update variant with that id. It changes a stored \<open>userData.pdfElementId\<close> only in the
  record of the uploaded file, only when none was stored, after one call that creates
  the element, and to the id that this call returned.
\<close>

theorem pdfElementId_ownership:
  "(synced client e lc options w = Some written
      \<and> storable (existingRecord client lc options w) \<longrightarrow>
      optGet (optGet written ''userData'') ''pdfElementId'' =
        (case map_of (entries (existingRecord client lc options w)) ''pdfElementId'' of
           Some rootValue \<Rightarrow> rootValue
         | None \<Rightarrow>
             if truthy (optGet (optGet (existingRecord client lc options w) ''userData'')
                          ''pdfElementId'')
             then optGet (optGet (existingRecord client lc options w) ''userData'') ''pdfElementId''
             else JUndefined)
    \<and> (hasProp (optGet written ''userData'') ''pdfElementId''
         \<longleftrightarrow> optGet (optGet written ''userData'') ''pdfElementId'' \<noteq> JUndefined))
 \<and> (uploadPDF blobs uploadOptions s = (out, s', calls) \<longrightarrow>
      (truthy (storedPdfElementId s (jsonPathOf uploadOptions)) \<longrightarrow>
         s' = s
       \<and> (calls = []
          \<or> (\<exists>workspaceId pdfBuffer filename displayName.
                calls = [UpdateCall (uploadDocument uploadOptions) workspaceId
                          (storedPdfElementId s (jsonPathOf uploadOptions)) pdfBuffer filename
                          displayName])))
    \<and> (\<forall>path. storedPdfElementId s' path \<noteq> storedPdfElementId s path \<longrightarrow>
           path = jsonPathOf uploadOptions
         \<and> \<not> truthy (storedPdfElementId s path)
         \<and> (\<exists>workspaceId pdfBuffer filename displayName result.
               calls = [UploadCall (uploadDocument uploadOptions) workspaceId pdfBuffer filename
                          displayName]
             \<and> client_uploadPDF blobs (uploadDocument uploadOptions) workspaceId pdfBuffer
                  filename displayName = Some result
             \<and> truthy (optGet result ''id'')
             \<and> storedPdfElementId s' path = persist (optGet result ''id''))))"
proof (intro conjI impI allI)
  assume a: "synced client e lc options w = Some written
               \<and> storable (existingRecord client lc options w)"
  define prior where "prior = existingRecord client lc options w"
  from a have sy: "synced client e lc options w = Some written" and st: "storable prior"
    by (simp_all add: prior_def)
  have fixed: "persist (case map_of (entries prior) ''pdfElementId'' of
                          Some rootValue \<Rightarrow> rootValue
                        | None \<Rightarrow> orElse (optGet (optGet prior ''userData'') ''pdfElementId'')
                                   JUndefined)
               = (case map_of (entries prior) ''pdfElementId'' of
                    Some rootValue \<Rightarrow> rootValue
                  | None \<Rightarrow>
                      if truthy (optGet (optGet prior ''userData'') ''pdfElementId'')
                      then optGet (optGet prior ''userData'') ''pdfElementId''
                      else JUndefined)"
  proof (cases "map_of (entries prior) ''pdfElementId''")
    case None
    have "storable (optGet (optGet prior ''userData'') ''pdfElementId'')"
      using st by (intro storable_optGet)
    then show ?thesis
      using None by (simp add: orElse_def storable_def)
  next
    case (Some rootValue)
    then have "(''pdfElementId'', rootValue) \<in> set (entries prior)"
      by (rule map_of_SomeD)
    from storable_entries [OF st this] Some show ?thesis
      by (simp add: storable_def)
  qed
  show "optGet (optGet written ''userData'') ''pdfElementId'' =
        (case map_of (entries (existingRecord client lc options w)) ''pdfElementId'' of
           Some rootValue \<Rightarrow> rootValue
         | None \<Rightarrow>
             if truthy (optGet (optGet (existingRecord client lc options w) ''userData'')
                          ''pdfElementId'')
             then optGet (optGet (existingRecord client lc options w) ''userData'') ''pdfElementId''
             else JUndefined)"
    unfolding synced_pdfElementId [OF sy] using fixed unfolding prior_def .
  from synced_userData_object [OF sy] obtain userLabels where
    u: "optGet written ''userData'' = persist (JObj (buildUserData e prior userLabels))"
    by (auto simp: prior_def)
  show "hasProp (optGet written ''userData'') ''pdfElementId''
         \<longleftrightarrow> optGet (optGet written ''userData'') ''pdfElementId'' \<noteq> JUndefined"
    unfolding u by (rule hasProp_persisted) (rule distinct_buildUserData)
next
  assume r: "uploadPDF blobs uploadOptions s = (out, s', calls)"
    and t: "truthy (storedPdfElementId s (jsonPathOf uploadOptions))"
  from upload_existing [OF t, of blobs] r
  show "s' = s" by auto
  from upload_existing [OF t, of blobs] r
  show "calls = []
          \<or> (\<exists>workspaceId pdfBuffer filename displayName.
                calls = [UpdateCall (uploadDocument uploadOptions) workspaceId
                          (storedPdfElementId s (jsonPathOf uploadOptions)) pdfBuffer filename
                          displayName])"
    by auto
next
  fix path
  assume r: "uploadPDF blobs uploadOptions s = (out, s', calls)"
    and c: "storedPdfElementId s' path \<noteq> storedPdfElementId s path"
  note ch = upload_changes [OF r c]
  from ch show "path = jsonPathOf uploadOptions" by (rule conjunct1)
  from ch [THEN conjunct2] show "\<not> truthy (storedPdfElementId s path)" by (rule conjunct1)
  from ch [THEN conjunct2, THEN conjunct2] show "\<exists>workspaceId pdfBuffer filename displayName result.
               calls = [UploadCall (uploadDocument uploadOptions) workspaceId pdfBuffer filename
                          displayName]
             \<and> client_uploadPDF blobs (uploadDocument uploadOptions) workspaceId pdfBuffer
                  filename displayName = Some result
             \<and> truthy (optGet result ''id'')
             \<and> storedPdfElementId s' path = persist (optGet result ''id'')"
    by simp
qed

theorem pdfElementId_ownership_counterexample:
  "existingRecord demoClient asciiLower demoOptions (worldWith demoRootPrior) = demoRootPrior
   \<and> \<not> hasProp (optGet demoRootPrior ''userData'') ''pdfElementId''
   \<and> synced demoClient demoEnv asciiLower demoOptions (worldWith demoRootPrior)
       = Some demoRootReconciled
   \<and> optGet (optGet demoRootReconciled ''userData'') ''pdfElementId'' = JStr ''E-root''
   \<and> existingRecord demoClient asciiLower demoOptions (worldWith demoEmptyIdPrior)
       = demoEmptyIdPrior
   \<and> hasProp (optGet demoEmptyIdPrior ''userData'') ''pdfElementId''
   \<and> synced demoClient demoEnv asciiLower demoOptions (worldWith demoEmptyIdPrior)
       = Some demoFirst
   \<and> \<not> hasProp (optGet demoFirst ''userData'') ''pdfElementId''"
  by (simp add: demo_run_with_prior(2) [OF demo_worldWith] demo_root_reconciled
      demo_emptyId_reconciled)
    (simp add: demoRootPrior_def demoRootReconciled_def demoWritten_def demoEmptyIdPrior_def
      demoFirst_def hasProp_def ownKeys_def)

theorem pdfElementId_ownership_witness:
  "synced demoClient demoEnv asciiLower demoOptions (worldWith demoPrior) = Some demoReconciled
   \<and> storable (existingRecord demoClient asciiLower demoOptions (worldWith demoPrior))
   \<and> optGet (optGet (existingRecord demoClient asciiLower demoOptions (worldWith demoPrior))
        ''userData'') ''pdfElementId'' = JStr ''E1''
   \<and> optGet (optGet demoReconciled ''userData'') ''pdfElementId'' = JStr ''E1''
   \<and> uploadPDF demoBlobs demoUpload (siteWith demoFirst)
       = (Completed, siteWith demoUploaded,
          [UploadCall ''d1'' (JStr ''w1'') ''%PDF'' ''my-part.pdf'' (JStr ''My Part'')])
   \<and> storedPdfElementId (siteWith demoFirst) (jsonPathOf demoUpload) = JUndefined
   \<and> storedPdfElementId (siteWith demoUploaded) (jsonPathOf demoUpload) = JStr ''E9''
   \<and> uploadPDF demoBlobs demoUpload (siteWith demoUploaded)
       = (Completed, siteWith demoUploaded,
          [UpdateCall ''d1'' (JStr ''w1'') (JStr ''E9'') ''%PDF'' ''my-part.pdf'' (JStr ''My Part'')])"
proof -
  let ?w = "worldWith demoPrior"
  have prior: "existingRecord demoClient asciiLower demoOptions ?w = demoPrior"
    by (rule demo_run_with_prior(2) [OF demo_worldWith])
  have st: "storable demoPrior"
    by (simp add: storable_def demoPrior_def)
  have sy: "synced demoClient demoEnv asciiLower demoOptions ?w = Some demoReconciled
            \<and> storable (existingRecord demoClient asciiLower demoOptions ?w)"
    using demo_reconciled st by (simp add: prior)
  have old: "optGet (optGet demoPrior ''userData'') ''pdfElementId'' = JStr ''E1''"
    by (simp add: demoPrior_def)
  have root: "map_of (entries demoPrior) ''pdfElementId'' = None"
    by (simp add: demoPrior_def)
  have before: "storedPdfElementId (siteWith demoFirst) (jsonPathOf demoUpload) = JUndefined"
    by (simp add: storedPdfElementId_def siteWith_def jsonPathOf_def demoUpload_def
        lastSegment_def demoFirst_def)
  have after: "storedPdfElementId (siteWith demoUploaded) (jsonPathOf demoUpload) = JStr ''E9''"
    by (simp add: storedPdfElementId_def siteWith_def jsonPathOf_def demoUpload_def
        lastSegment_def demoUploaded_def demoWritten_def)
  note new = pdfElementId_ownership [of demoClient demoEnv asciiLower demoOptions ?w
      demoReconciled demoBlobs demoUpload "siteWith demoFirst" Completed "siteWith demoUploaded"
      "[UploadCall ''d1'' (JStr ''w1'') ''%PDF'' ''my-part.pdf'' (JStr ''My Part'')]"]
  from new [THEN conjunct1, rule_format, OF sy, THEN conjunct1]
  have copied: "optGet (optGet demoReconciled ''userData'') ''pdfElementId'' = JStr ''E1''"
    unfolding prior root old by simp
  from new [THEN conjunct2, rule_format, OF demo_upload_new, THEN conjunct2, rule_format,
      of "jsonPathOf demoUpload"]
  have stored: "\<not> truthy (storedPdfElementId (siteWith demoFirst) (jsonPathOf demoUpload))"
    unfolding before after by simp
  from sy prior old copied stored demo_upload_new before after demo_upload_again
  show ?thesis by simp
qed

section \<open>The flag that disables the upload of a record\<close>

lemma uploadOne_disabled:
  assumes "uploadDisabled docData"
  shows "commands (uploadOne x options pdfNames t (jsonFile, Parsed docData)) = commands t"
    and "uploadCount (uploadOne x options pdfNames t (jsonFile, Parsed docData)) = uploadCount t"
    and "skippedCount (uploadOne x options pdfNames t (jsonFile, Parsed docData)) =
           skippedCount t + (if labelMismatch (bulkLabel options) docData = Some True then 0 else 1)"
  using assms by (auto simp: uploadOne_def Let_def split: option.splits bool.splits)

lemma uploadOne_enabled:
  assumes "\<not> uploadDisabled docData"
    and "labelMismatch (bulkLabel options) docData = Some False"
    and "replaceFirst ''.json'' ''.pdf'' jsonFile \<in> set pdfNames"
    and "titleText docData \<noteq> None"
    and "toStr (optGet docData ''documentId'') = Some documentId"
  shows "commands (uploadOne x options pdfNames t (jsonFile, Parsed docData)) =
           commands t @ [uploadCommand (cliPath x) options documentId]"
  using assms by (auto simp: uploadOne_def Let_def)

lemma bulkUpload_run:
  assumes "contentDir x = Some listing" "pdfDir x = Some pdfNames"
    and "jsonFilesOf listing = before @ entry # rest"
  shows "bulkUpload x options =
           (Completed,
            Some (foldl (uploadOne x options pdfNames)
                    (uploadOne x options pdfNames (foldl (uploadOne x options pdfNames) startTally before)
                       entry)
                    rest))"
  using assms by (simp add: bulkUpload_def)

text \<open>
  C10, amended. In the bulk upload, when the turn of a record comes whose
  \<open>userData.skipPdfUpload\<close> is strictly \<open>true\<close>, no upload command is run and the count
  of uploads stays; the record is counted as skipped, once, unless the label criterion
  passes it over, and then it is not counted at all. This holds also when its PDF
  exists and it matches the label criterion. A record without that exact flag is not
  skipped for this reason: when it matches the label criterion, its PDF exists and its
  title and document id print, the upload command is run for it.
\<close>

theorem skipPdfUpload_opt_out:
  assumes "contentDir x = Some listing" and "pdfDir x = Some pdfNames"
    and "jsonFilesOf listing = before @ (jsonFile, Parsed docData) # rest"
    and "t = foldl (uploadOne x options pdfNames) startTally before"
    and "t' = uploadOne x options pdfNames t (jsonFile, Parsed docData)"
  shows "bulkUpload x options = (Completed, Some (foldl (uploadOne x options pdfNames) t' rest))
       \<and> (uploadDisabled docData \<longrightarrow>
            commands t' = commands t
          \<and> uploadCount t' = uploadCount t
          \<and> skippedCount t' =
              skippedCount t
                + (if labelMismatch (bulkLabel options) docData = Some True then 0 else 1))
       \<and> (\<not> uploadDisabled docData
            \<and> labelMismatch (bulkLabel options) docData = Some False
            \<and> replaceFirst ''.json'' ''.pdf'' jsonFile \<in> set pdfNames
            \<and> titleText docData \<noteq> None \<longrightarrow>
            (case toStr (optGet docData ''documentId'') of
               None \<Rightarrow> commands t' = commands t
             | Some documentId \<Rightarrow>
                 commands t' = commands t @ [uploadCommand (cliPath x) options documentId]))"
proof (intro conjI impI)
  show "bulkUpload x options = (Completed, Some (foldl (uploadOne x options pdfNames) t' rest))"
    unfolding assms(4,5) by (rule bulkUpload_run [OF assms(1-3)])
next
  assume d: "uploadDisabled docData"
  show "commands t' = commands t"
    unfolding assms(5) by (rule uploadOne_disabled(1) [OF d])
  show "uploadCount t' = uploadCount t"
    unfolding assms(5) by (rule uploadOne_disabled(2) [OF d])
  show "skippedCount t' =
          skippedCount t
            + (if labelMismatch (bulkLabel options) docData = Some True then 0 else 1)"
    unfolding assms(5) by (rule uploadOne_disabled(3) [OF d])
next
  assume e: "\<not> uploadDisabled docData
            \<and> labelMismatch (bulkLabel options) docData = Some False
            \<and> replaceFirst ''.json'' ''.pdf'' jsonFile \<in> set pdfNames
            \<and> titleText docData \<noteq> None"
  show "case toStr (optGet docData ''documentId'') of
          None \<Rightarrow> commands t' = commands t
        | Some documentId \<Rightarrow>
            commands t' = commands t @ [uploadCommand (cliPath x) options documentId]"
  proof (cases "toStr (optGet docData ''documentId'')")
    case None
    with e show ?thesis
      unfolding assms(5) by (auto simp: uploadOne_def Let_def)
  next
    case (Some documentId)
    with e uploadOne_enabled [of docData options jsonFile pdfNames documentId x t]
    show ?thesis unfolding assms(5) by simp
  qed
qed

lemma demo_flagged: "uploadDisabled flaggedRecord" "\<not> uploadDisabled plainRecord"
  by (simp_all add: uploadDisabled_def flaggedRecord_def plainRecord_def)

lemma demo_jsonFiles:
  "jsonFilesOf [(''a.json'', Parsed stored)] = [] @ (''a.json'', Parsed stored) # []"
  by (simp add: jsonFilesOf_def endsWith_def)

lemma demo_label_passes:
  "labelMismatch (Some ''a'') flaggedRecord = Some False"
  "labelMismatch (Some ''a'') plainRecord = Some False"
  "labelMismatch (Some ''b'') flaggedRecord = Some True"
  by (simp_all add: labelMismatch_def whenSet_def get_def nullish_def flaggedRecord_def
      plainRecord_def)

lemma demo_texts:
  "titleText flaggedRecord = Some ''A''"
  "titleText plainRecord = Some ''A''"
  "toStr (optGet plainRecord ''documentId'') = Some ''d1''"
  by (simp_all add: titleText_def get_def nullish_def flaggedRecord_def plainRecord_def)

theorem skipPdfUpload_opt_out_counterexample:
  "uploadDisabled flaggedRecord
   \<and> bulkUpload (foldersWith flaggedRecord) (labelled (Some ''b''))
       = (Completed,
          Some \<lparr> uploadCount = 0, skippedCount = 0, processedCount = 0, commands = [] \<rparr>)"
  by (simp add: demo_flagged bulkUpload_def foldersWith_def demo_jsonFiles uploadOne_def
      labelled_def demo_label_passes startTally_def)

theorem skipPdfUpload_opt_out_witness:
  "uploadDisabled flaggedRecord
   \<and> labelMismatch (Some ''a'') flaggedRecord = Some False
   \<and> bulkUpload (foldersWith flaggedRecord) (labelled (Some ''a''))
       = (Completed,
          Some \<lparr> uploadCount = 0, skippedCount = 1, processedCount = 1, commands = [] \<rparr>)
   \<and> \<not> uploadDisabled plainRecord
   \<and> labelMismatch (Some ''a'') plainRecord = Some False
   \<and> bulkUpload (foldersWith plainRecord) (labelled (Some ''a''))
       = (Completed,
          Some \<lparr> uploadCount = 1, skippedCount = 0, processedCount = 1,
                 commands = [uploadCommand ''src/index.ts'' (labelled (Some ''a'')) ''d1''] \<rparr>)"
proof -
  let ?o = "labelled (Some ''a'')"
  have dirs: "contentDir (foldersWith stored) = Some [(''a.json'', Parsed stored)]"
    "pdfDir (foldersWith stored) = Some [''a.pdf'']" for stored
    by (simp_all add: foldersWith_def)
  have label: "bulkLabel ?o = Some ''a''"
    by (simp add: labelled_def)
  have flaggedStep:
    "uploadOne (foldersWith flaggedRecord) ?o [''a.pdf''] startTally (''a.json'', Parsed flaggedRecord)
     = \<lparr> uploadCount = 0, skippedCount = 1, processedCount = 1, commands = [] \<rparr>"
    by (simp add: uploadOne_def label demo_label_passes demo_flagged demo_texts startTally_def)
  have plainStep:
    "uploadOne (foldersWith plainRecord) ?o [''a.pdf''] startTally (''a.json'', Parsed plainRecord)
     = \<lparr> uploadCount = 1, skippedCount = 0, processedCount = 1,
         commands = [uploadCommand ''src/index.ts'' ?o ''d1''] \<rparr>"
    by (simp add: uploadOne_def label demo_label_passes demo_flagged demo_texts startTally_def
        foldersWith_def)
  from skipPdfUpload_opt_out [OF dirs(1) dirs(2) demo_jsonFiles refl refl, of flaggedRecord ?o]
  have flaggedRun:
    "bulkUpload (foldersWith flaggedRecord) ?o
       = (Completed,
          Some \<lparr> uploadCount = 0, skippedCount = 1, processedCount = 1, commands = [] \<rparr>)"
    by (simp add: flaggedStep)
  from skipPdfUpload_opt_out [OF dirs(1) dirs(2) demo_jsonFiles refl refl, of plainRecord ?o]
  have plainRun:
    "bulkUpload (foldersWith plainRecord) ?o
       = (Completed,
          Some \<lparr> uploadCount = 1, skippedCount = 0, processedCount = 1,
                 commands = [uploadCommand ''src/index.ts'' ?o ''d1''] \<rparr>)"
    by (simp add: plainStep)
  from demo_flagged demo_label_passes flaggedRun plainRun show ?thesis by simp
qed

end
